(* ===== verification/Prelude.thy ===== *)
theory Prelude
  imports Main "HOL-Library.Word" "HOL-Library.Sublist" "HOL-Library.Multiset"
begin

text \<open>
  Shared ground of the development: the collections of simplification rules, machine
  integers, and the loop shapes that occur again and again in the Go code: the
  seen-set loop that keeps the first element of every key, the loop that returns the
  first element satisfying a condition, and Go's slice expression with its bounds check.
\<close>

named_theorems go_str
named_theorems go_num
named_theorems world_simps

section \<open>64-bit signed integers\<close>

text \<open>
  Go's \<open>int\<close> and \<open>int64\<close> are 64 bit wide and wrap around. Values are kept as
  mathematical integers; \<open>i64\<close> is applied wherever an operation of the code may
  leave the range. It agrees with reading a 64-bit word as two's complement.
\<close>

definition max_int64 :: int where
  "max_int64 = 9223372036854775807"

definition min_int64 :: int where
  "min_int64 = - 9223372036854775808"

definition i64 :: "int \<Rightarrow> int" where
  "i64 x = (x + 9223372036854775808) mod 18446744073709551616 - 9223372036854775808"

abbreviation in_int64 :: "int \<Rightarrow> bool" where
  "in_int64 x \<equiv> min_int64 \<le> x \<and> x \<le> max_int64"

lemma i64_id: "in_int64 x \<Longrightarrow> i64 x = x"
  by (simp add: i64_def min_int64_def max_int64_def)

lemma i64_range: "in_int64 (i64 x)"
  by (simp add: i64_def min_int64_def max_int64_def)

lemma i64_word: "i64 x = sint (word_of_int x :: 64 word)"
proof -
  have "sint (word_of_int x :: 64 word) = signed_take_bit 63 x"
    by (simp add: signed_of_int)
  also have "\<dots> = i64 x"
    by (simp add: i64_def signed_take_bit_eq_take_bit_shift take_bit_eq_mod)
  finally show ?thesis by simp
qed

lemma i64_small:
  "\<lbrakk>- 9223372036854775808 \<le> x; x \<le> 9223372036854775807\<rbrakk> \<Longrightarrow> i64 x = x"
  by (simp add: i64_def)

section \<open>Loops over slices\<close>

subsection \<open>Keeping the first element of every key\<close>

text \<open>
  The pattern \<open>if _, ok := seen[key(x)]; ok { continue }; seen[key(x)] = struct{}{};
  out = append(out, x)\<close>.
\<close>

fun dedup_by :: "('a \<Rightarrow> 'k) \<Rightarrow> 'k set \<Rightarrow> 'a list \<Rightarrow> 'a list" where
  "dedup_by key seen [] = []"
| "dedup_by key seen (x # xs) =
     (if key x \<in> seen then dedup_by key seen xs
      else x # dedup_by key (insert (key x) seen) xs)"

lemma dedup_by_keys: "key ` set (dedup_by key seen xs) = key ` set xs - seen"
  by (induction xs arbitrary: seen) auto

lemma dedup_by_distinct: "distinct (map key (dedup_by key seen xs))"
proof (induction xs arbitrary: seen)
  case Nil
  then show ?case by simp
next
  case (Cons x xs)
  have "key x \<notin> key ` set (dedup_by key (insert (key x) seen) xs)"
    by (simp add: dedup_by_keys)
  with Cons.IH show ?case by (auto simp: image_image)
qed

lemma dedup_by_subseq: "subseq (dedup_by key seen xs) xs"
  by (induction xs arbitrary: seen) auto

lemma subseq_set: "subseq xs ys \<Longrightarrow> set xs \<subseteq> set ys"
  by (induction rule: list_emb.induct) auto

lemma dedup_by_set: "set (dedup_by key seen xs) \<subseteq> set xs"
  by (rule subseq_set [OF dedup_by_subseq])

lemma dedup_by_length: "length (dedup_by key seen xs) \<le> length xs"
  by (rule list_emb_length [OF dedup_by_subseq])

lemma subseq_sorted_wrt: "\<lbrakk>subseq xs ys; sorted_wrt R ys\<rbrakk> \<Longrightarrow> sorted_wrt R xs"
  by (induction rule: list_emb.induct) (auto dest: subseq_set)

lemma subseq_distinct: "\<lbrakk>subseq xs ys; distinct ys\<rbrakk> \<Longrightarrow> distinct xs"
  by (induction rule: list_emb.induct) (auto dest: subseq_set)

lemma dedup_by_sorted_wrt: "sorted_wrt R xs \<Longrightarrow> sorted_wrt R (dedup_by key seen xs)"
  by (rule subseq_sorted_wrt [OF dedup_by_subseq])

lemma dedup_by_id:
  "\<lbrakk>distinct (map key xs); key ` set xs \<inter> seen = {}\<rbrakk> \<Longrightarrow> dedup_by key seen xs = xs"
  by (induction xs arbitrary: seen) auto

lemma dedup_by_first:
  "x \<in> set (dedup_by key seen xs) \<Longrightarrow> List.find (\<lambda>y. key y = key x) xs = Some x"
proof (induction xs arbitrary: seen)
  case Nil
  then show ?case by simp
next
  case (Cons y ys)
  have fresh: "key x \<notin> s" if "x \<in> set (dedup_by key s zs)" for s zs
    using that dedup_by_keys [of key s zs] by blast
  show ?case
  proof (cases "key y = key x")
    case True
    with Cons.prems fresh [OF Cons.prems] have "x = y \<or> x \<in> set (dedup_by key (insert (key x) seen) ys)"
      by auto
    with True show ?thesis using fresh [of "insert (key x) seen" ys] by auto
  next
    case False
    with Cons.prems have "x \<in> set (dedup_by key (if key y \<in> seen then seen else insert (key y) seen) ys)"
      by (auto split: if_splits)
    with False show ?thesis using Cons.IH by auto
  qed
qed

lemma dedup_by_idem: "dedup_by key {} (dedup_by key seen xs) = dedup_by key seen xs"
  by (rule dedup_by_id) (simp_all add: dedup_by_distinct)

subsection \<open>Returning the first match\<close>

lemma find_SomeD: "List.find P xs = Some x \<Longrightarrow> x \<in> set xs \<and> P x"
  by (induction xs) (auto split: if_splits)

lemma find_None: "List.find P xs = None \<longleftrightarrow> (\<forall>x\<in>set xs. \<not> P x)"
  by (induction xs) auto

lemma find_Some_best:
  "\<lbrakk>List.find P xs = Some x; sorted_wrt R xs; y \<in> set xs; P y\<rbrakk> \<Longrightarrow> y = x \<or> R x y"
  by (induction xs) (auto split: if_splits)

lemma find_ex: "\<lbrakk>x \<in> set xs; P x\<rbrakk> \<Longrightarrow> \<exists>y. List.find P xs = Some y"
  by (induction xs) auto

lemma find_cong_set: "\<lbrakk>\<And>x. x \<in> set xs \<Longrightarrow> P x = Q x\<rbrakk> \<Longrightarrow> List.find P xs = List.find Q xs"
  by (induction xs) auto

subsection \<open>Slice expressions\<close>

text \<open>
  \<open>xs[a:b]\<close>: out-of-range bounds panic, written \<open>None\<close>. The capacity of a slice is
  taken to be its length: bytes between length and capacity are never read.
\<close>

definition slice :: "'a list \<Rightarrow> int \<Rightarrow> int \<Rightarrow> 'a list option" where
  "slice xs a b =
     (if 0 \<le> a \<and> a \<le> b \<and> b \<le> int (length xs)
      then Some (take (nat (b - a)) (drop (nat a) xs)) else None)"

lemma slice_Some_iff: "(\<exists>ys. slice xs a b = Some ys) \<longleftrightarrow> 0 \<le> a \<and> a \<le> b \<and> b \<le> int (length xs)"
  by (simp add: slice_def)

lemma slice_length: "slice xs a b = Some ys \<Longrightarrow> int (length ys) = b - a"
  by (auto simp: slice_def split: if_splits)

lemma slice_whole: "slice xs 0 (int (length xs)) = Some xs"
  by (simp add: slice_def)

lemma slice_slice:
  assumes "slice xs a b = Some ys" and "0 \<le> c" and "c \<le> d" and "a + d \<le> b"
  shows "slice ys c d = slice xs (a + c) (a + d)"
proof -
  from assms have ys: "ys = take (nat (b - a)) (drop (nat a) xs)"
    and r: "0 \<le> a" "a \<le> b" "b \<le> int (length xs)"
    by (auto simp: slice_def split: if_splits)
  from r assms have "nat (a + c) = nat a + nat c" and "nat (d - c) = nat (a + d - (a + c))"
    and "nat (d - c) \<le> nat (b - a) - nat c"
    by auto
  moreover have "d \<le> int (length ys)" using ys r assms by simp
  moreover have "a + d \<le> int (length xs)" using r assms by simp
  ultimately show ?thesis using ys r assms
    by (simp add: slice_def drop_take min_def add.commute)
qed

end
