(* ===== verification/Go_Strings.thy ===== *)
theory Go_Strings
  imports Prelude "HOL-Library.Char_ord" "HOL-Library.List_Lexorder"
begin

text \<open>
  The part of Go's packages \<open>strings\<close> and \<open>strconv\<close> the backend uses, on byte
  strings (a \<open>char\<close> is a byte). \<open>TrimSpace\<close> and \<open>Fields\<close> know every Unicode white
  space rune by its UTF-8 bytes. \<open>ToLower\<close>, \<open>ToUpper\<close> and \<open>EqualFold\<close> fold the
  ASCII letters and leave the bytes of other runes alone: the code compares with ASCII
  constants only. The byte order of strings is the lexicographic order of
  \<open>HOL-Library\<close>.
\<close>

section \<open>White space\<close>

definition space_runes :: "string list" where
  "space_runes =
     [[CHR 0x20], [CHR 0x09], [CHR 0x0A], [CHR 0x0B], [CHR 0x0C], [CHR 0x0D],
      [CHR 0xC2, CHR 0x85], [CHR 0xC2, CHR 0xA0], [CHR 0xE1, CHR 0x9A, CHR 0x80],
      [CHR 0xE2, CHR 0x80, CHR 0x80], [CHR 0xE2, CHR 0x80, CHR 0x81],
      [CHR 0xE2, CHR 0x80, CHR 0x82], [CHR 0xE2, CHR 0x80, CHR 0x83],
      [CHR 0xE2, CHR 0x80, CHR 0x84], [CHR 0xE2, CHR 0x80, CHR 0x85],
      [CHR 0xE2, CHR 0x80, CHR 0x86], [CHR 0xE2, CHR 0x80, CHR 0x87],
      [CHR 0xE2, CHR 0x80, CHR 0x88], [CHR 0xE2, CHR 0x80, CHR 0x89],
      [CHR 0xE2, CHR 0x80, CHR 0x8A], [CHR 0xE2, CHR 0x80, CHR 0xA8],
      [CHR 0xE2, CHR 0x80, CHR 0xA9], [CHR 0xE2, CHR 0x80, CHR 0xAF],
      [CHR 0xE2, CHR 0x81, CHR 0x9F], [CHR 0xE3, CHR 0x80, CHR 0x80]]"

text \<open>
  Dropping every leading occurrence of one of the given strings. Each round drops at
  least one byte, so the length of the string is enough fuel.
\<close>

fun strip_fuel :: "nat \<Rightarrow> string list \<Rightarrow> string \<Rightarrow> string" where
  "strip_fuel 0 ps s = s"
| "strip_fuel (Suc n) ps s =
     (case List.find (\<lambda>p. prefix p s) ps of
        None \<Rightarrow> s
      | Some p \<Rightarrow> strip_fuel n ps (drop (length p) s))"

definition strip_any :: "string list \<Rightarrow> string \<Rightarrow> string" where
  "strip_any ps s = strip_fuel (length s) ps s"

definition trim_left_space :: "string \<Rightarrow> string" where
  "trim_left_space s = strip_any space_runes s"

definition trim_right_space :: "string \<Rightarrow> string" where
  "trim_right_space s = rev (strip_any (map rev space_runes) (rev s))"

definition trim_space :: "string \<Rightarrow> string" where
  "trim_space s = trim_right_space (trim_left_space s)"

definition no_prefix :: "string list \<Rightarrow> string \<Rightarrow> bool" where
  "no_prefix ps s \<longleftrightarrow> list_all (\<lambda>p. \<not> prefix p s) ps"

lemma strip_fuel_suffix: "suffix (strip_fuel n ps s) s"
proof (induction n arbitrary: s)
  case 0
  then show ?case by simp
next
  case (Suc n)
  then show ?case
    by (auto split: option.splits intro: suffix_order.trans suffix_drop)
qed

lemma strip_fuel_done:
  "\<lbrakk>[] \<notin> set ps; length s \<le> n\<rbrakk> \<Longrightarrow> no_prefix ps (strip_fuel n ps s)"
proof (induction n arbitrary: s)
  case 0
  then show ?case by (auto simp: no_prefix_def list_all_iff)
next
  case (Suc n)
  show ?case
  proof (cases "List.find (\<lambda>p. prefix p s) ps")
    case None
    then have "no_prefix ps s" by (simp add: no_prefix_def list_all_iff find_None)
    with None show ?thesis by simp
  next
    case (Some p)
    then have p: "p \<in> set ps" "prefix p s" using find_SomeD by fastforce+
    with Suc.prems have "p \<noteq> []" "length p \<le> length s" by (auto dest: prefix_length_le)
    then have "length (drop (length p) s) \<le> n" using Suc.prems
      by (cases p) auto
    with Some Suc.IH Suc.prems show ?thesis by simp
  qed
qed

lemma strip_fuel_id: "no_prefix ps s \<Longrightarrow> strip_fuel n ps s = s"
  by (cases n) (auto simp: no_prefix_def list_all_iff find_None split: option.splits dest!: find_SomeD)

lemma strip_any_suffix: "suffix (strip_any ps s) s"
  by (simp add: strip_any_def strip_fuel_suffix)

lemma strip_any_done: "[] \<notin> set ps \<Longrightarrow> no_prefix ps (strip_any ps s)"
  by (simp add: strip_any_def strip_fuel_done)

lemma strip_any_id: "no_prefix ps s \<Longrightarrow> strip_any ps s = s"
  by (simp add: strip_any_def strip_fuel_id)

lemma no_prefix_mono: "\<lbrakk>no_prefix ps s; prefix t s\<rbrakk> \<Longrightarrow> no_prefix ps t"
  by (auto simp: no_prefix_def list_all_iff dest: prefix_order.trans)

text \<open>A string without white space at either end.\<close>

definition is_trimmed :: "string \<Rightarrow> bool" where
  "is_trimmed s \<longleftrightarrow> no_prefix space_runes s \<and> no_prefix (map rev space_runes) (rev s)"

lemma space_runes_nonempty: "[] \<notin> set space_runes" "[] \<notin> set (map rev space_runes)"
  by (simp_all add: space_runes_def)

lemma trim_space_trimmed: "is_trimmed (trim_space s)"
proof -
  let ?l = "trim_left_space s"
  let ?r = "strip_any (map rev space_runes) (rev ?l)"
  have "suffix ?r (rev ?l)" by (rule strip_any_suffix)
  then have "prefix (rev ?r) ?l" by (simp add: suffix_to_prefix)
  moreover have "no_prefix space_runes ?l"
    by (simp add: trim_left_space_def strip_any_done space_runes_nonempty)
  ultimately have "no_prefix space_runes (rev ?r)" by (rule no_prefix_mono [rotated])
  moreover have "no_prefix (map rev space_runes) ?r"
    by (rule strip_any_done [OF space_runes_nonempty(2)])
  ultimately show ?thesis
    by (simp add: is_trimmed_def trim_space_def trim_right_space_def)
qed

lemma trim_space_id: "is_trimmed s \<Longrightarrow> trim_space s = s"
  by (simp add: is_trimmed_def trim_space_def trim_left_space_def trim_right_space_def strip_any_id)

lemma trim_space_idem [simp, go_str]: "trim_space (trim_space s) = trim_space s"
  by (rule trim_space_id [OF trim_space_trimmed])

lemma trim_space_iff: "trim_space s = s \<longleftrightarrow> is_trimmed s"
  using trim_space_id trim_space_trimmed by metis

lemma trim_space_Nil [simp, go_str]: "trim_space [] = []"
  by (simp add: trim_space_def trim_left_space_def trim_right_space_def strip_any_def)

lemma trim_space_length: "length (trim_space s) \<le> length s"
proof -
  have "length (strip_any ps t) \<le> length t" for ps t
    using strip_any_suffix by (rule suffix_length_le)
  then show ?thesis
    by (metis length_rev order_trans trim_left_space_def trim_right_space_def trim_space_def)
qed

text \<open>
  The bytes that can start or end the encoding of a white space rune; a string that
  neither starts nor ends with one of them is trimmed.
\<close>

definition space_heads :: "char list" where
  "space_heads = [CHR 0x20, CHR 0x09, CHR 0x0A, CHR 0x0B, CHR 0x0C, CHR 0x0D,
     CHR 0xC2, CHR 0xE1, CHR 0xE2, CHR 0xE3]"

definition plain_char :: "char \<Rightarrow> bool" where
  "plain_char c \<longleftrightarrow> 33 \<le> (of_char c :: nat) \<and> (of_char c :: nat) < 128"

lemma plain_no_prefix: "plain_char c \<Longrightarrow> no_prefix space_runes (c # s)"
  by (auto simp: no_prefix_def space_runes_def plain_char_def)

lemma plain_no_suffix: "plain_char c \<Longrightarrow> no_prefix (map rev space_runes) (c # s)"
  by (auto simp: no_prefix_def space_runes_def plain_char_def)

lemma plain_trimmed:
  assumes "s = [] \<or> plain_char (hd s) \<and> plain_char (last s)"
  shows "is_trimmed s"
proof (cases "s = []")
  case True
  then show ?thesis by (simp add: is_trimmed_def no_prefix_def space_runes_def)
next
  case False
  then obtain c t u d where "s = c # t" "s = u @ [d]" by (metis append_butlast_last_id list.exhaust)
  with assms show ?thesis
    using plain_no_prefix [of c t] plain_no_suffix [of d "rev u"]
    by (metis False is_trimmed_def last_snoc list.sel(1) rev.simps(2) rev_rev_ident)
qed

lemma all_plain_trimmed: "list_all plain_char s \<Longrightarrow> is_trimmed s"
  by (rule plain_trimmed) (auto simp: list_all_iff)

lemma all_plain_trim_space: "list_all plain_char s \<Longrightarrow> trim_space s = s"
  by (simp add: trim_space_id all_plain_trimmed)

section \<open>Case\<close>

definition lower_char :: "char \<Rightarrow> char" where
  "lower_char c = (if 65 \<le> (of_char c :: nat) \<and> (of_char c :: nat) \<le> 90
                   then char_of ((of_char c :: nat) + 32) else c)"

definition upper_char :: "char \<Rightarrow> char" where
  "upper_char c = (if 97 \<le> (of_char c :: nat) \<and> (of_char c :: nat) \<le> 122
                   then char_of ((of_char c :: nat) - 32) else c)"

definition to_lower :: "string \<Rightarrow> string" where
  "to_lower s = map lower_char s"

definition to_upper :: "string \<Rightarrow> string" where
  "to_upper s = map upper_char s"

definition equal_fold :: "string \<Rightarrow> string \<Rightarrow> bool" where
  "equal_fold s t \<longleftrightarrow> to_lower s = to_lower t"

lemma lower_char_idem [simp]: "lower_char (lower_char c) = lower_char c"
  by (simp add: lower_char_def)

lemma to_lower_idem [simp, go_str]: "to_lower (to_lower s) = to_lower s"
  by (simp add: to_lower_def)

lemma to_lower_append [go_str]: "to_lower (s @ t) = to_lower s @ to_lower t"
  by (simp add: to_lower_def)

lemma to_lower_Nil [simp, go_str]: "to_lower [] = []"
  by (simp add: to_lower_def)

lemma to_lower_eq_Nil [simp, go_str]: "to_lower s = [] \<longleftrightarrow> s = []"
  by (simp add: to_lower_def)

lemma equal_fold_refl [simp, go_str]: "equal_fold s s"
  by (simp add: equal_fold_def)

section \<open>Searching, cutting, splitting\<close>

fun contains_str :: "string \<Rightarrow> string \<Rightarrow> bool" where
  "contains_str [] sub = (sub = [])"
| "contains_str (c # s) sub = (prefix sub (c # s) \<or> contains_str s sub)"

lemma contains_str_iff: "contains_str s sub \<longleftrightarrow> (\<exists>u v. s = u @ sub @ v)"
proof (induction s)
  case Nil
  then show ?case by auto
next
  case (Cons c s)
  have "(\<exists>u v. c # s = u @ sub @ v) \<longleftrightarrow> prefix sub (c # s) \<or> (\<exists>u v. s = u @ sub @ v)"
    by (auto simp: prefix_def Cons_eq_append_conv)
  with Cons show ?case by simp
qed

definition trim_prefix :: "string \<Rightarrow> string \<Rightarrow> string" where
  "trim_prefix s p = (if prefix p s then drop (length p) s else s)"

definition trim_suffix :: "string \<Rightarrow> string \<Rightarrow> string" where
  "trim_suffix s p = (if suffix p s then take (length s - length p) s else s)"

lemma trim_prefix_append [simp, go_str]: "trim_prefix (p @ s) p = s"
  by (simp add: trim_prefix_def)

text \<open>\<open>Trim\<close>, \<open>TrimLeft\<close> and \<open>TrimRight\<close> with a one-byte cutset.\<close>

definition trim_left_char :: "char \<Rightarrow> string \<Rightarrow> string" where
  "trim_left_char c s = dropWhile (\<lambda>x. x = c) s"

definition trim_right_char :: "char \<Rightarrow> string \<Rightarrow> string" where
  "trim_right_char c s = rev (dropWhile (\<lambda>x. x = c) (rev s))"

definition trim_char :: "char \<Rightarrow> string \<Rightarrow> string" where
  "trim_char c s = trim_right_char c (trim_left_char c s)"

lemma trim_char_Nil [simp, go_str]: "trim_char c [] = []"
  by (simp add: trim_char_def trim_left_char_def trim_right_char_def)

lemma trim_right_char_hd: "\<lbrakk>s \<noteq> []; hd s \<noteq> c\<rbrakk> \<Longrightarrow> trim_right_char c s \<noteq> [] \<and> hd (trim_right_char c s) = hd s"
proof -
  assume s: "s \<noteq> []" "hd s \<noteq> c"
  then obtain a t where "s = a # t" "a \<noteq> c" by (cases s) auto
  then have "dropWhile (\<lambda>x. x = c) (rev t @ [a]) = dropWhile (\<lambda>x. x = c) (rev t) @ [a]"
    by (simp add: dropWhile_append)
  with \<open>s = a # t\<close> show ?thesis by (simp add: trim_right_char_def)
qed

lemma trim_char_ends:
  "trim_char c s = [] \<or> hd (trim_char c s) \<noteq> c \<and> last (trim_char c s) \<noteq> c"
proof (cases "trim_char c s = []")
  case False
  let ?l = "trim_left_char c s"
  from False have l: "?l \<noteq> []" by (auto simp: trim_char_def trim_right_char_def)
  then have "hd ?l \<noteq> c" unfolding trim_left_char_def by (rule hd_dropWhile)
  with l have "hd (trim_char c s) \<noteq> c" by (simp add: trim_char_def trim_right_char_hd)
  moreover from False have "dropWhile (\<lambda>x. x = c) (rev ?l) \<noteq> []"
    by (simp add: trim_char_def trim_right_char_def)
  then have "hd (dropWhile (\<lambda>x. x = c) (rev ?l)) \<noteq> c" by (rule hd_dropWhile)
  then have "last (trim_char c s) \<noteq> c"
    by (simp add: trim_char_def trim_right_char_def last_rev)
  ultimately show ?thesis by simp
qed simp

lemma trim_char_id:
  assumes "s = [] \<or> hd s \<noteq> c \<and> last s \<noteq> c"
  shows "trim_char c s = s"
proof -
  have "dropWhile (\<lambda>x. x = c) t = t" if "t = [] \<or> hd t \<noteq> c" for t
    using that by (cases t) auto
  with assms show ?thesis
    by (cases "s = []") (auto simp: trim_char_def trim_left_char_def trim_right_char_def hd_rev)
qed

lemma trim_char_idem [simp, go_str]: "trim_char c (trim_char c s) = trim_char c s"
  using trim_char_ends by (rule trim_char_id)

text \<open>\<open>Cut\<close>: the parts before and after the first separator byte.\<close>

fun cut :: "char \<Rightarrow> string \<Rightarrow> (string \<times> string) option" where
  "cut c [] = None"
| "cut c (x # s) = (if x = c then Some ([], s)
                    else map_option (\<lambda>(a, b). (x # a, b)) (cut c s))"

lemma cut_Some_iff: "cut c s = Some (a, b) \<longleftrightarrow> s = a @ c # b \<and> c \<notin> set a"
proof (induction s arbitrary: a)
  case Nil
  then show ?case by simp
next
  case (Cons x s)
  then show ?case by (cases a) auto
qed

lemma cut_None_iff: "cut c s = None \<longleftrightarrow> c \<notin> set s"
  by (induction s) auto

lemma cut_append [simp, go_str]: "c \<notin> set a \<Longrightarrow> cut c (a @ c # b) = Some (a, b)"
  by (simp add: cut_Some_iff)

definition split_n2 :: "char \<Rightarrow> string \<Rightarrow> string list" where
  "split_n2 c s = (case cut c s of None \<Rightarrow> [s] | Some (a, b) \<Rightarrow> [a, b])"

fun split_char :: "char \<Rightarrow> string \<Rightarrow> string list" where
  "split_char c [] = [[]]"
| "split_char c (x # s) =
     (if x = c then [] # split_char c s
      else (case split_char c s of [] \<Rightarrow> [[x]] | w # ws \<Rightarrow> (x # w) # ws))"

lemma split_char_nonempty [simp, go_str]: "split_char c s \<noteq> []"
  by (induction s) (auto split: list.splits)

lemma split_char_free: "w \<in> set (split_char c s) \<Longrightarrow> c \<notin> set w"
  by (induction s arbitrary: w) (auto split: if_splits list.splits)

lemma split_char_single: "c \<notin> set s \<Longrightarrow> split_char c s = [s]"
  by (induction s) auto

text \<open>\<open>strings.Join\<close>.\<close>

fun join :: "string \<Rightarrow> string list \<Rightarrow> string" where
  "join sep [] = []"
| "join sep [w] = w"
| "join sep (w # ws) = w @ sep @ join sep ws"

lemma join_split_char: "join [c] (split_char c s) = s"
proof (induction s)
  case Nil
  then show ?case by simp
next
  case (Cons x s)
  then show ?case
    by (cases "split_char c s"; cases "tl (split_char c s)") auto
qed

text \<open>\<open>strings.ReplaceAll\<close> with a non-empty first argument.\<close>

fun replace_fuel :: "nat \<Rightarrow> string \<Rightarrow> string \<Rightarrow> string \<Rightarrow> string" where
  "replace_fuel 0 old new s = s"
| "replace_fuel (Suc n) old new s =
     (case s of [] \<Rightarrow> []
      | x # t \<Rightarrow> if prefix old s then new @ replace_fuel n old new (drop (length old) s)
                 else x # replace_fuel n old new t)"

definition replace_all :: "string \<Rightarrow> string \<Rightarrow> string \<Rightarrow> string" where
  "replace_all s old new = replace_fuel (length s) old new s"

section \<open>Decimal numbers\<close>

definition is_digit :: "char \<Rightarrow> bool" where
  "is_digit c \<longleftrightarrow> 48 \<le> (of_char c :: nat) \<and> (of_char c :: nat) \<le> 57"

definition digit_val :: "char \<Rightarrow> nat" where
  "digit_val c = of_char c - 48"

definition digit_char :: "nat \<Rightarrow> char" where
  "digit_char n = char_of (48 + n)"

text \<open>The decimal digits of a number that is not negative.\<close>

function nat_digits :: "int \<Rightarrow> string" where
  "nat_digits n = (if n < 10 then [digit_char (nat n)]
                   else nat_digits (n div 10) @ [digit_char (nat (n mod 10))])"
  by pat_completeness auto
termination
  by (relation "measure nat") auto

declare nat_digits.simps [simp del]

definition digits_val :: "string \<Rightarrow> int" where
  "digits_val s = foldl (\<lambda>n c. 10 * n + int (digit_val c)) 0 s"

definition itoa :: "int \<Rightarrow> string" where
  "itoa n = (if n < 0 then CHR ''-'' # nat_digits (- n) else nat_digits n)"

datatype num_error = ErrSyntax | ErrRange

text \<open>
  \<open>strconv.ParseInt(s, 10, 64)\<close> (and \<open>Atoi\<close>): an optional sign and at least one digit;
  a value outside the range of \<open>int64\<close> is an error.
\<close>

definition parse_int64 :: "string \<Rightarrow> num_error + int" where
  "parse_int64 s =
     (let neg = (s \<noteq> [] \<and> hd s = CHR ''-'');
          ds = (if s \<noteq> [] \<and> (hd s = CHR ''-'' \<or> hd s = CHR ''+'') then tl s else s)
      in if ds = [] \<or> \<not> list_all is_digit ds then Inl ErrSyntax
         else let n = (if neg then - digits_val ds else digits_val ds)
              in if in_int64 n then Inr n else Inl ErrRange)"

text \<open>
  The value of \<open>value, _ := strconv.Atoi(s)\<close>: 0 for a syntax error, the nearest
  bound for a value out of range.
\<close>

definition atoi_value :: "string \<Rightarrow> int" where
  "atoi_value s =
     (case parse_int64 s of
        Inr n \<Rightarrow> n
      | Inl ErrSyntax \<Rightarrow> 0
      | Inl ErrRange \<Rightarrow> (if hd s = CHR ''-'' then min_int64 else max_int64))"

lemma digit_char_digit [simp]: "n < 10 \<Longrightarrow> is_digit (digit_char n)"
  by (simp add: is_digit_def digit_char_def)

lemma digit_val_char [simp]: "n < 10 \<Longrightarrow> digit_val (digit_char n) = n"
  by (simp add: digit_val_def digit_char_def)

lemma nat_digits_digit: "0 \<le> n \<Longrightarrow> list_all is_digit (nat_digits n)"
proof (induction n rule: nat_digits.induct)
  case (1 n)
  show ?case
  proof (cases "n < 10")
    case True
    then show ?thesis using "1.prems" by (simp add: nat_digits.simps [of n])
  next
    case False
    with "1.IH" show ?thesis by (simp add: nat_digits.simps [of n])
  qed
qed

lemma nat_digits_nonempty [simp]: "nat_digits n \<noteq> []"
  by (simp add: nat_digits.simps [of n])

lemma digits_val_snoc: "digits_val (s @ [c]) = 10 * digits_val s + int (digit_val c)"
  by (simp add: digits_val_def)

lemma digits_val_nat_digits [simp]: "0 \<le> n \<Longrightarrow> digits_val (nat_digits n) = n"
proof (induction n rule: nat_digits.induct)
  case (1 n)
  show ?case
  proof (cases "n < 10")
    case True
    then show ?thesis using "1.prems" by (simp add: nat_digits.simps [of n] digits_val_def)
  next
    case False
    with "1.IH" show ?thesis by (simp add: nat_digits.simps [of n] digits_val_snoc)
  qed
qed

lemma digit_not_sign: "is_digit c \<Longrightarrow> c \<noteq> CHR ''-'' \<and> c \<noteq> CHR ''+''"
  by (auto simp: is_digit_def)

lemma digit_plain: "is_digit c \<Longrightarrow> plain_char c"
  by (simp add: is_digit_def plain_char_def)

lemma nat_digits_plain: "0 \<le> n \<Longrightarrow> list_all plain_char (nat_digits n)"
  using nat_digits_digit by (simp add: list_all_iff digit_plain)

lemma itoa_plain: "list_all plain_char (itoa n)"
  by (simp add: itoa_def nat_digits_plain) (simp add: plain_char_def)

lemma itoa_nonempty [simp]: "itoa n \<noteq> []"
  by (simp add: itoa_def)

lemma hd_nat_digits: "0 \<le> n \<Longrightarrow> is_digit (hd (nat_digits n))"
  using nat_digits_digit [of n] by (cases "nat_digits n") auto

theorem parse_int64_itoa [simp, go_num]: "in_int64 n \<Longrightarrow> parse_int64 (itoa n) = Inr n"
  using digit_not_sign [OF hd_nat_digits]
  by (simp add: parse_int64_def itoa_def Let_def nat_digits_digit)

lemma parse_int64_range: "parse_int64 s = Inr n \<Longrightarrow> in_int64 n"
  by (auto simp: parse_int64_def Let_def split: if_splits)

lemma parse_int64_Nil [simp, go_num]: "parse_int64 [] = Inl ErrSyntax"
  by (simp add: parse_int64_def)

lemma itoa_no_dash: "0 \<le> n \<Longrightarrow> CHR ''-'' \<notin> set (itoa n)"
  using nat_digits_digit [of n] digit_not_sign
  by (auto simp: itoa_def list_all_iff)

lemma itoa_inj: "\<lbrakk>itoa m = itoa n; in_int64 m; in_int64 n\<rbrakk> \<Longrightarrow> m = n"
  by (metis parse_int64_itoa sum.inject(2))

end
