(* ===== verification/Go_Url.thy ===== *)
theory Go_Url
  imports Go_Strings
begin

text \<open>
  The part of Go's \<open>net/url\<close> and \<open>path\<close> packages the backend uses: \<open>url.Parse\<close>
  (for the parts scheme, host, path and query), \<open>URL.Hostname\<close>, \<open>URL.Query().Get\<close>,
  \<open>url.QueryEscape\<close>, \<open>url.PathUnescape\<close>, \<open>path.Base\<close> and the lexical path rules of
  \<open>filepath.Clean\<close> and \<open>filepath.Join\<close> (on a slash-separated system). A parse error
  is \<open>None\<close>. A host given as an IP literal in brackets is not modelled and counts
  as a parse error.
\<close>

section \<open>Percent encoding\<close>

datatype esc_mode = EscPath | EscQuery | EscHost

definition is_alpha :: "char \<Rightarrow> bool" where
  "is_alpha c \<longleftrightarrow> (97 \<le> (of_char c :: nat) \<and> (of_char c :: nat) \<le> 122)
     \<or> (65 \<le> (of_char c :: nat) \<and> (of_char c :: nat) \<le> 90)"

definition is_hex :: "char \<Rightarrow> bool" where
  "is_hex c \<longleftrightarrow> is_digit c \<or> (97 \<le> (of_char c :: nat) \<and> (of_char c :: nat) \<le> 102)
     \<or> (65 \<le> (of_char c :: nat) \<and> (of_char c :: nat) \<le> 70)"

definition unhex :: "char \<Rightarrow> nat" where
  "unhex c = (if is_digit c then of_char c - 48
              else if 97 \<le> (of_char c :: nat) then of_char c - 87 else of_char c - 55)"

definition unreserved :: "char \<Rightarrow> bool" where
  "unreserved c \<longleftrightarrow> is_alpha c \<or> is_digit c \<or> c \<in> set ''-_.~''"

definition host_char :: "char \<Rightarrow> bool" where
  "host_char c \<longleftrightarrow> unreserved c \<or> c \<in> set ''!$&()*+,;=:[]<>'' \<or> c = CHR 0x27 \<or> c = CHR 0x22"

definition esc_ok :: "esc_mode \<Rightarrow> char \<Rightarrow> char \<Rightarrow> bool" where
  "esc_ok m a b \<longleftrightarrow> is_hex a \<and> is_hex b
     \<and> \<not> (m = EscHost \<and> unhex a < 8 \<and> \<not> (a = CHR ''2'' \<and> b = CHR ''5''))"

fun unescape :: "esc_mode \<Rightarrow> string \<Rightarrow> string option" where
  "unescape m [] = Some []"
| "unescape m (c # s) =
     (if c = CHR ''%'' then
        (case s of
           a # b # t \<Rightarrow>
             if esc_ok m a b
             then map_option ((#) (char_of (16 * unhex a + unhex b))) (unescape m t)
             else None
         | _ \<Rightarrow> None)
      else if c = CHR ''+'' \<and> m = EscQuery then map_option ((#) CHR 0x20) (unescape m s)
      else if m = EscHost \<and> (of_char c :: nat) < 128 \<and> \<not> host_char c then None
      else map_option ((#) c) (unescape m s))"

definition upper_hex :: "nat \<Rightarrow> char" where
  "upper_hex n = (if n < 10 then char_of (48 + n) else char_of (55 + n))"

definition escape_char :: "char \<Rightarrow> string" where
  "escape_char c =
     (if unreserved c then [c]
      else if c = CHR 0x20 then ''+''
      else [CHR ''%'', upper_hex (of_char c div 16), upper_hex (of_char c mod 16)])"

definition query_escape :: "string \<Rightarrow> string" where
  "query_escape s = concat (map escape_char s)"

lemma upper_hex_hex: "n < 16 \<Longrightarrow> is_hex (upper_hex n) \<and> unhex (upper_hex n) = n"
  by (auto simp: upper_hex_def is_hex_def unhex_def is_digit_def)

lemma of_char_lt: "(of_char c :: nat) < 256"
  using range_nat_of_char by (metis atLeastLessThan_iff rangeI)

lemma unescape_escape_char:
  "unescape EscQuery (escape_char c @ s) = map_option ((#) c) (unescape EscQuery s)"
proof (cases "unreserved c")
  case True
  then have "c \<noteq> CHR ''%''" "c \<noteq> CHR ''+''"
    by (auto simp: unreserved_def is_alpha_def is_digit_def)
  with True show ?thesis by (simp add: escape_char_def)
next
  case False
  let ?n = "of_char c :: nat"
  have "?n div 16 < 16" "?n mod 16 < 16" using of_char_lt [of c] by linarith+
  then have "esc_ok EscQuery (upper_hex (?n div 16)) (upper_hex (?n mod 16))"
    and "16 * unhex (upper_hex (?n div 16)) + unhex (upper_hex (?n mod 16)) = ?n"
    by (simp_all add: esc_ok_def upper_hex_hex)
  with False show ?thesis by (simp add: escape_char_def)
qed

lemma unescape_query_escape [simp, go_str]: "unescape EscQuery (query_escape s) = Some s"
  by (induction s) (simp_all add: query_escape_def unescape_escape_char)

lemma query_escape_safe:
  assumes "c \<in> set (query_escape s)"
  shows "unreserved c \<or> c = CHR ''+'' \<or> c = CHR ''%''"
proof -
  have h: "unreserved (upper_hex n)" if "n < 16" for n
    using that by (auto simp: upper_hex_def unreserved_def is_alpha_def is_digit_def)
  from assms obtain d where "c \<in> set (escape_char d)" by (auto simp: query_escape_def)
  moreover have "(of_char d :: nat) div 16 < 16" using of_char_lt [of d] by linarith
  ultimately show ?thesis by (auto simp: escape_char_def h split: if_splits)
qed

lemma query_escape_no_reserved:
  "c \<in> set ''&=#?;'' \<Longrightarrow> c \<notin> set (query_escape s)"
  using query_escape_safe [of c s] by (auto simp: unreserved_def is_alpha_def is_digit_def)

section \<open>Parsing\<close>

record url =
  u_scheme :: string
  u_opaque :: string
  u_host :: string
  u_path :: string
  u_raw_query :: string
  u_force_query :: bool

fun scheme_loop :: "string \<Rightarrow> string \<Rightarrow> string \<Rightarrow> (string \<times> string) option" where
  "scheme_loop raw acc [] = Some ([], raw)"
| "scheme_loop raw acc (c # s) =
     (if is_alpha c then scheme_loop raw (acc @ [c]) s
      else if is_digit c \<or> c \<in> set ''+-.'' then
        (if acc = [] then Some ([], raw) else scheme_loop raw (acc @ [c]) s)
      else if c = CHR '':'' then (if acc = [] then None else Some (acc, s))
      else Some ([], raw))"

definition get_scheme :: "string \<Rightarrow> (string \<times> string) option" where
  "get_scheme raw = scheme_loop raw [] raw"

definition valid_optional_port :: "string \<Rightarrow> bool" where
  "valid_optional_port p \<longleftrightarrow> p = [] \<or> hd p = CHR '':'' \<and> list_all is_digit (tl p)"

definition userinfo_char :: "char \<Rightarrow> bool" where
  "userinfo_char c \<longleftrightarrow> is_alpha c \<or> is_digit c \<or> c \<in> set ''-._:~!$&()*+,;=%@'' \<or> c = CHR 0x27"

text \<open>The part after the last separator, and the rest, as with \<open>LastIndex\<close>.\<close>

definition cut_last :: "char \<Rightarrow> string \<Rightarrow> (string \<times> string) option" where
  "cut_last c s = (case cut c (rev s) of None \<Rightarrow> None | Some (b, a) \<Rightarrow> Some (rev a, rev b))"

definition parse_host :: "string \<Rightarrow> string option" where
  "parse_host h =
     (if CHR ''['' \<in> set h then None
      else if valid_optional_port (dropWhile (\<lambda>c. c \<noteq> CHR '':'') h) then unescape EscHost h
      else None)"

definition parse_authority :: "string \<Rightarrow> string option" where
  "parse_authority a =
     (case cut_last CHR ''@'' a of
        None \<Rightarrow> parse_host a
      | Some (user, h) \<Rightarrow>
          (case parse_host h of
             None \<Rightarrow> None
           | Some host \<Rightarrow>
               if list_all userinfo_char user \<and> unescape EscPath user \<noteq> None
               then Some host else None))"

definition is_ctl :: "char \<Rightarrow> bool" where
  "is_ctl c \<longleftrightarrow> (of_char c :: nat) < 32 \<or> (of_char c :: nat) = 127"

definition cut_query :: "string \<Rightarrow> string \<times> string \<times> bool" where
  "cut_query s =
     (case cut CHR ''?'' s of
        None \<Rightarrow> (s, [], False)
      | Some (a, b) \<Rightarrow> (a, b, b = []))"

definition set_path :: "url \<Rightarrow> string \<Rightarrow> url option" where
  "set_path u p = map_option (\<lambda>q. u\<lparr>u_path := q\<rparr>) (unescape EscPath p)"

definition parse_rest :: "string \<Rightarrow> string \<Rightarrow> string \<Rightarrow> bool \<Rightarrow> url option" where
  "parse_rest scheme rest rq fq =
     (let u = \<lparr>u_scheme = scheme, u_opaque = [], u_host = [], u_path = [],
               u_raw_query = rq, u_force_query = fq\<rparr>
      in if \<not> prefix ''/'' rest \<and> scheme \<noteq> [] then Some (u\<lparr>u_opaque := rest\<rparr>)
         else if \<not> prefix ''/'' rest
              \<and> CHR '':'' \<in> set (takeWhile (\<lambda>c. c \<noteq> CHR ''/'') rest) then None
         else if (scheme \<noteq> [] \<or> \<not> prefix ''///'' rest) \<and> prefix ''//'' rest then
           (case parse_authority (takeWhile (\<lambda>c. c \<noteq> CHR ''/'') (drop 2 rest)) of
              None \<Rightarrow> None
            | Some h \<Rightarrow> set_path (u\<lparr>u_host := h\<rparr>) (dropWhile (\<lambda>c. c \<noteq> CHR ''/'') (drop 2 rest)))
         else set_path u rest)"

definition parse_no_frag :: "string \<Rightarrow> url option" where
  "parse_no_frag s =
     (if list_ex is_ctl s then None
      else if s = ''*'' then
        Some \<lparr>u_scheme = [], u_opaque = [], u_host = [], u_path = ''*'',
              u_raw_query = [], u_force_query = False\<rparr>
      else (case get_scheme s of
              None \<Rightarrow> None
            | Some (scheme, rest) \<Rightarrow>
                (case cut_query rest of (p, rq, fq) \<Rightarrow> parse_rest (to_lower scheme) p rq fq)))"

definition url_parse :: "string \<Rightarrow> url option" where
  "url_parse raw =
     (case cut CHR ''#'' raw of
        None \<Rightarrow> parse_no_frag raw
      | Some (u, frag) \<Rightarrow> if unescape EscPath frag = None then None else parse_no_frag u)"

definition hostname :: "url \<Rightarrow> string" where
  "hostname u =
     (let h = u_host u;
          h' = (case cut_last CHR '':'' h of
                  None \<Rightarrow> h
                | Some (a, p) \<Rightarrow> if list_all is_digit p then a else h)
      in if prefix ''['' h' \<and> suffix '']'' h' then butlast (tl h') else h')"

definition is_abs :: "url \<Rightarrow> bool" where
  "is_abs u \<longleftrightarrow> u_scheme u \<noteq> []"

section \<open>Query values\<close>

definition query_pair :: "string \<Rightarrow> (string \<times> string) option" where
  "query_pair kv =
     (if CHR '';'' \<in> set kv \<or> kv = [] then None
      else let (k, v) = (case cut CHR ''='' kv of None \<Rightarrow> (kv, []) | Some (a, b) \<Rightarrow> (a, b))
           in (case (unescape EscQuery k, unescape EscQuery v) of
                 (Some k', Some v') \<Rightarrow> Some (k', v')
               | _ \<Rightarrow> None))"

definition parse_query :: "string \<Rightarrow> (string \<times> string) list" where
  "parse_query q = List.map_filter query_pair (split_char CHR ''&'' q)"

definition query_get :: "string \<Rightarrow> string \<Rightarrow> string" where
  "query_get q key = (case map_of (parse_query q) key of None \<Rightarrow> [] | Some v \<Rightarrow> v)"

definition path_unescape :: "string \<Rightarrow> string option" where
  "path_unescape s = unescape EscPath s"

section \<open>Paths\<close>

text \<open>\<open>path.Base\<close>.\<close>

definition path_base :: "string \<Rightarrow> string" where
  "path_base p =
     (if p = [] then ''.''
      else let t = trim_right_char CHR ''/'' p;
               b = (case cut_last CHR ''/'' t of None \<Rightarrow> t | Some (_, b) \<Rightarrow> b)
           in if b = [] then ''/'' else b)"

text \<open>
  \<open>filepath.Clean\<close>: empty and \<open>.\<close> elements go, an inner \<open>..\<close> takes the element before
  it along, a leading \<open>..\<close> of a rooted path goes. The accumulator holds the elements
  so far in reverse.
\<close>

fun clean_elems :: "bool \<Rightarrow> string list \<Rightarrow> string list \<Rightarrow> string list" where
  "clean_elems rooted acc [] = rev acc"
| "clean_elems rooted acc (e # es) =
     (if e = [] \<or> e = ''.'' then clean_elems rooted acc es
      else if e = ''..'' then
        (case acc of
           [] \<Rightarrow> if rooted then clean_elems rooted [] es else clean_elems rooted [''..''] es
         | a # as \<Rightarrow> if a = ''..'' then clean_elems rooted (''..'' # a # as) es
                    else clean_elems rooted as es)
      else clean_elems rooted (e # acc) es)"

definition path_clean :: "string \<Rightarrow> string" where
  "path_clean p =
     (let rooted = prefix ''/'' p;
          body = join ''/'' (clean_elems rooted [] (split_char CHR ''/'' p))
      in if rooted then CHR ''/'' # body else if body = [] then ''.'' else body)"

definition path_join :: "string \<Rightarrow> string \<Rightarrow> string" where
  "path_join a b =
     (if a = [] \<and> b = [] then []
      else if a = [] then path_clean b
      else if b = [] then path_clean a
      else path_clean (a @ ''/'' @ b))"

section \<open>Facts\<close>

text \<open>The scheme scan does not look past the first \<open>?\<close>.\<close>

lemma scheme_loop_cut:
  "scheme_loop (p @ CHR ''?'' # q) acc (s @ CHR ''?'' # q) =
     (case scheme_loop p acc s of
        None \<Rightarrow> None
      | Some (sch, r) \<Rightarrow> Some (sch, r @ CHR ''?'' # q))"
proof (induction s arbitrary: acc)
  case Nil
  then show ?case by (simp add: is_alpha_def is_digit_def)
next
  case (Cons c s)
  then show ?case by simp
qed

lemma scheme_loop_rest:
  "\<lbrakk>scheme_loop raw acc s = Some (sch, r); x \<notin> set raw; x \<notin> set s\<rbrakk> \<Longrightarrow> x \<notin> set r"
  by (induction raw acc s rule: scheme_loop.induct) (auto split: if_splits)

lemma parse_rest_path:
  "map_option u_path (parse_rest s p rq fq) = map_option u_path (parse_rest s p rq' fq')"
  "map_option u_host (parse_rest s p rq fq) = map_option u_host (parse_rest s p rq' fq')"
  by (auto simp: parse_rest_def set_path_def Let_def option.map_comp comp_def split: option.splits)

text \<open>
  Whatever the query string, it does not change the path, the host, or whether a URL
  parses: signatures live in the query, so rotating them keeps the resource.
\<close>

lemma url_parse_query_path:
  assumes "CHR ''?'' \<notin> set p" "CHR ''#'' \<notin> set p" "CHR ''#'' \<notin> set q" "\<not> list_ex is_ctl q"
    and "p \<noteq> ''*''"
  shows "map_option u_path (url_parse (p @ CHR ''?'' # q)) = map_option u_path (url_parse p)"
    and "map_option u_host (url_parse (p @ CHR ''?'' # q)) = map_option u_host (url_parse p)"
proof -
  have c: "cut CHR ''#'' (p @ CHR ''?'' # q) = None" "cut CHR ''#'' p = None"
    using assms by (auto simp: cut_None_iff)
  have ctl: "list_ex is_ctl (p @ CHR ''?'' # q) = list_ex is_ctl p"
    using assms(4) by (auto simp: list_ex_iff is_ctl_def)
  have star: "p @ CHR ''?'' # q \<noteq> ''*''" by (cases p) auto
  have g: "get_scheme (p @ CHR ''?'' # q) =
      (case get_scheme p of None \<Rightarrow> None | Some (s, r) \<Rightarrow> Some (s, r @ CHR ''?'' # q))"
    by (simp add: get_scheme_def scheme_loop_cut)
  have r: "CHR ''?'' \<notin> set r" if "get_scheme p = Some (s, r)" for s r
    using scheme_loop_rest [of p "[]" p s r "CHR ''?''"] that assms(1) by (simp add: get_scheme_def)
  have q1: "cut_query (r @ CHR ''?'' # q) = (r, q, q = [])" "cut_query r = (r, [], False)"
    if "CHR ''?'' \<notin> set r" for r
    using that by (simp_all add: cut_query_def cut_None_iff [THEN iffD2])
  show "map_option u_path (url_parse (p @ CHR ''?'' # q)) = map_option u_path (url_parse p)"
    using assms(5) ctl star parse_rest_path(1)
    by (auto simp: url_parse_def c parse_no_frag_def g q1 r split: option.splits)
  show "map_option u_host (url_parse (p @ CHR ''?'' # q)) = map_option u_host (url_parse p)"
    using assms(5) ctl star parse_rest_path(2)
    by (auto simp: url_parse_def c parse_no_frag_def g q1 r split: option.splits)
qed

lemma join_eq_Nil: "\<forall>w\<in>set ws. w \<noteq> [] \<Longrightarrow> join sep ws = [] \<longleftrightarrow> ws = []"
  by (cases ws rule: list.exhaust; cases "tl ws") auto

text \<open>Elements of a cleaned rooted path never are \<open>..\<close>.\<close>

lemma clean_elems_rooted:
  "''..'' \<notin> set acc \<Longrightarrow> ''..'' \<notin> set (clean_elems True acc es)"
  by (induction True acc es rule: clean_elems.induct) (auto split: list.splits)

text \<open>A proper relative path: no element is empty, \<open>.\<close> or \<open>..\<close>.\<close>

definition proper_elem :: "string \<Rightarrow> bool" where
  "proper_elem e \<longleftrightarrow> e \<noteq> [] \<and> e \<noteq> ''.'' \<and> e \<noteq> ''..''"

definition proper_path :: "string \<Rightarrow> bool" where
  "proper_path p \<longleftrightarrow> list_all proper_elem (split_char CHR ''/'' p)"

lemma clean_elems_proper:
  "list_all proper_elem ws \<Longrightarrow> clean_elems rooted acc (es @ ws) = clean_elems rooted acc es @ ws"
proof (induction rooted acc es rule: clean_elems.induct)
  case (1 rooted acc)
  have "clean_elems rooted acc ws = rev acc @ ws"
    using 1 by (induction ws arbitrary: acc) (auto simp: proper_elem_def)
  then show ?case by simp
next
  case (2 rooted acc e es)
  then show ?case by (auto split: list.splits)
qed

lemma clean_elems_set: "set (clean_elems rooted acc es) \<subseteq> set acc \<union> set es \<union> {''..''}"
  by (induction rooted acc es rule: clean_elems.induct) (auto split: list.splits)

lemma split_char_append: "split_char c (a @ c # b) = split_char c a @ split_char c b"
  by (induction a) (auto split: list.split)

lemma split_char_join:
  "\<lbrakk>ws \<noteq> []; \<forall>w\<in>set ws. c \<notin> set w\<rbrakk> \<Longrightarrow> split_char c (join [c] ws) = ws"
proof (induction ws rule: induct_list012)
  case (3 w v ws)
  then show ?case by (simp add: split_char_append split_char_single)
qed (simp_all add: split_char_single)

definition base_elems :: "string \<Rightarrow> string list" where
  "base_elems base =
     (if base = [] then [] else clean_elems (prefix ''/'' base) [] (split_char CHR ''/'' base))"

lemma join_Nil_elem: "\<lbrakk>w \<in> set ws; join sep ws = []\<rbrakk> \<Longrightarrow> w = []"
  by (induction ws rule: induct_list012) auto

text \<open>Joining a proper path to a base directory leads to a place below the base.\<close>

lemma path_join_proper:
  assumes "proper_path k"
  shows "path_join base k =
    (if prefix ''/'' base then ''/'' else []) @ join ''/'' (base_elems base @ split_char CHR ''/'' k)"
proof -
  have k: "k \<noteq> []" "\<not> prefix ''/'' k"
    using assms by (auto simp: proper_path_def proper_elem_def prefix_def)
  have ne: "base_elems base @ split_char CHR ''/'' k \<noteq> []" by simp
  show ?thesis
  proof (cases "base = []")
    case True
    then show ?thesis using k assms clean_elems_proper [of "split_char CHR ''/'' k" False "[]" "[]"]
      by (simp add: path_join_def path_clean_def base_elems_def proper_path_def join_split_char)
  next
    case False
    then have "prefix ''/'' (base @ ''/'' @ k) = prefix ''/'' base" by (cases base) auto
    moreover have "join ''/'' (base_elems base @ split_char CHR ''/'' k) \<noteq> []" if "\<not> prefix ''/'' base"
    proof
      assume e: "join ''/'' (base_elems base @ split_char CHR ''/'' k) = []"
      obtain w where "w \<in> set (split_char CHR ''/'' k)"
        using split_char_nonempty by (metis list.set_intros(1) list.exhaust)
      then have "w = []" using join_Nil_elem [OF _ e] by auto
      with \<open>w \<in> _\<close> assms show False by (auto simp: proper_path_def list_all_iff proper_elem_def)
    qed
    ultimately show ?thesis using False k assms
      by (simp add: path_join_def path_clean_def base_elems_def proper_path_def
          split_char_append clean_elems_proper Let_def)
  qed
qed

lemma base_elems_free: "w \<in> set (base_elems base) \<Longrightarrow> CHR ''/'' \<notin> set w"
  using clean_elems_set [of "prefix ''/'' base" "[]" "split_char CHR ''/'' base"]
  by (auto simp: base_elems_def split: if_splits dest: split_char_free)

lemma path_join_inj:
  assumes "proper_path k" and "proper_path k'" and "path_join base k = path_join base k'"
  shows "k = k'"
proof -
  let ?w = "\<lambda>k. base_elems base @ split_char CHR ''/'' k"
  have "join ''/'' (?w k) = join ''/'' (?w k')"
    using assms by (simp add: path_join_proper)
  moreover have "split_char CHR ''/'' (join ''/'' (?w k)) = ?w k" for k
    by (rule split_char_join) (auto dest: base_elems_free split_char_free)
  ultimately have "?w k = ?w k'" by metis
  then have "split_char CHR ''/'' k = split_char CHR ''/'' k'" by simp
  then show ?thesis by (metis join_split_char)
qed

end
