(* ===== verification/Domain.thy ===== *)
theory Domain
  imports Go_Url
begin

text \<open>
  The data of \<open>internal/domain/models.go\<close>, field by field, and the qualified
  identifiers \<open>provider:slug\<close>. A slice is a list, a map that may be nil an optional
  map, a pointer an option; a time is a number of nanoseconds since 1970 in UTC.
\<close>

type_synonym time = int
type_synonym duration = int

record anime_card =
  card_id :: string
  card_title :: string
  card_cover :: string
  card_status :: string
  card_episode :: string
  card_rating :: string
  card_views :: string
  card_provider :: string

record home_feed =
  hf_featured :: "anime_card list"
  hf_ongoing :: "anime_card list"
  hf_recent :: "anime_card list"

record episode =
  ep_id :: string
  ep_catalog_id :: string
  ep_number :: int
  ep_title :: string
  ep_label :: string
  ep_released_at :: string

record anime_detail =
  det_id :: string
  det_title :: string
  det_synopsis :: string
  det_cover :: string
  det_banner :: string
  det_genres :: "string list"
  det_metadata :: "(string \<rightharpoonup> string) option"
  det_episodes :: "episode list"
  det_recommendations :: "anime_card list"
  det_provider :: string

record schedule_day =
  sd_day :: string
  sd_items :: "anime_card list"

record select_option =
  so_value :: string
  so_label :: string

record pagination =
  pg_current :: int
  pg_prev :: int
  pg_next :: int
  pg_total :: int

record property_item =
  pi_id :: string
  pi_title :: string

record property_list =
  pl_kind :: string
  pl_title :: string
  pl_items :: "property_item list"

record collection_page =
  cp_kind :: string
  cp_key :: string
  cp_title :: string
  cp_subtitle :: string
  cp_items :: "anime_card list"
  cp_current_filter :: string
  cp_current_order :: string
  cp_filter_options :: "select_option list"
  cp_order_options :: "select_option list"
  cp_pagination :: pagination

record stream_candidate =
  sc_url :: string
  sc_container :: string
  sc_quality :: string
  sc_codec :: string
  sc_direct :: bool
  sc_playable :: bool
  sc_priority :: int
  sc_label :: string

record stream_result =
  sr_episode_id :: string
  sr_preferred :: "stream_candidate option"
  sr_candidates :: "stream_candidate list"
  sr_reason :: string
  sr_provider :: string

record startup_entry =
  se_episode_id :: string
  se_source_url :: string
  se_source_key :: string
  se_container :: string
  se_quality :: string
  se_content_type :: string
  se_content_length :: int
  se_head_key :: string
  se_head_bytes :: int
  se_tail_key :: string
  se_tail_bytes :: int

record watchlist_item =
  wi_catalog_id :: string
  wi_title :: string
  wi_cover :: string
  wi_provider :: string
  wi_updated_at :: time

record history_item =
  hi_catalog_id :: string
  hi_episode_id :: string
  hi_position :: int
  hi_updated_at :: time

record continue_item =
  ci_catalog_id :: string
  ci_episode_id :: string
  ci_title :: string
  ci_cover :: string
  ci_position :: int
  ci_updated_at :: time

section \<open>Qualified identifiers\<close>

datatype id_error = ErrInvalidIdentifier | ErrStore string

definition new_catalog_id :: "string \<Rightarrow> string \<Rightarrow> string" where
  "new_catalog_id provider slug =
     provider @ '':'' @ trim_char CHR ''/'' (trim_space slug)"

definition parse_qualified_id :: "string \<Rightarrow> id_error + (string \<times> string)" where
  "parse_qualified_id value =
     (case split_n2 CHR '':'' (trim_space value) of
        [p0, p1] \<Rightarrow>
          if p0 = [] \<or> p1 = [] then Inl ErrInvalidIdentifier
          else Inr (p0, trim_char CHR ''/'' p1)
      | _ \<Rightarrow> Inl ErrInvalidIdentifier)"

definition is_qualified :: "string \<Rightarrow> bool" where
  "is_qualified value \<longleftrightarrow> (\<exists>p s. parse_qualified_id value = Inr (p, s))"

lemma parse_qualified_id_Inr_iff:
  "parse_qualified_id v = Inr (p, s) \<longleftrightarrow>
     (\<exists>r. trim_space v = p @ CHR '':'' # r \<and> CHR '':'' \<notin> set p \<and> p \<noteq> [] \<and> r \<noteq> []
          \<and> s = trim_char CHR ''/'' r)"
proof (cases "cut CHR '':'' (trim_space v)")
  case None
  then have "CHR '':'' \<notin> set (trim_space v)" by (simp add: cut_None_iff)
  with None show ?thesis by (auto simp: parse_qualified_id_def split_n2_def)
next
  case (Some ab)
  obtain a b where ab: "ab = (a, b)" by force
  with Some have ts: "trim_space v = a @ CHR '':'' # b" "CHR '':'' \<notin> set a"
    by (auto simp: cut_Some_iff)
  have eq: "parse_qualified_id v =
      (if a = [] \<or> b = [] then Inl ErrInvalidIdentifier else Inr (a, trim_char CHR ''/'' b))"
    by (simp add: parse_qualified_id_def split_n2_def Some ab)
  show ?thesis
  proof
    assume "parse_qualified_id v = Inr (p, s)"
    with eq have "a \<noteq> [] \<and> b \<noteq> [] \<and> p = a \<and> s = trim_char CHR ''/'' b"
      by (simp split: if_splits)
    with ts show "\<exists>r. trim_space v = p @ CHR '':'' # r \<and> CHR '':'' \<notin> set p \<and> p \<noteq> [] \<and> r \<noteq> []
        \<and> s = trim_char CHR ''/'' r" by blast
  next
    assume "\<exists>r. trim_space v = p @ CHR '':'' # r \<and> CHR '':'' \<notin> set p \<and> p \<noteq> [] \<and> r \<noteq> []
        \<and> s = trim_char CHR ''/'' r"
    then obtain r where r: "trim_space v = p @ CHR '':'' # r" "CHR '':'' \<notin> set p" "p \<noteq> []"
      "r \<noteq> []" "s = trim_char CHR ''/'' r" by blast
    have "Some (a, b) = Some (p, r)"
      using Some ab r(1) cut_append [OF r(2), of r] by simp
    with eq r show "parse_qualified_id v = Inr (p, s)" by simp
  qed
qed

lemma parse_qualified_id_trim [simp, go_str]:
  "parse_qualified_id (trim_space v) = parse_qualified_id v"
  by (simp add: parse_qualified_id_def)

lemma is_qualified_colon: "is_qualified v \<Longrightarrow> CHR '':'' \<in> set (trim_space v)"
  by (auto simp: is_qualified_def parse_qualified_id_Inr_iff)

lemma not_is_qualified_iff: "\<not> is_qualified v \<longleftrightarrow> parse_qualified_id v = Inl ErrInvalidIdentifier"
  by (auto simp: is_qualified_def parse_qualified_id_def split: list.splits)

lemma parse_new_catalog_id:
  assumes "p \<noteq> []" and "CHR '':'' \<notin> set p"
    and "trim_char CHR ''/'' (trim_space s) \<noteq> []"
    and "is_trimmed (new_catalog_id p s)"
  shows "parse_qualified_id (new_catalog_id p s) = Inr (p, trim_char CHR ''/'' (trim_space s))"
proof -
  have "trim_space (new_catalog_id p s) = p @ CHR '':'' # trim_char CHR ''/'' (trim_space s)"
    using assms(4) by (simp add: trim_space_id) (simp add: new_catalog_id_def)
  with assms show ?thesis
    unfolding parse_qualified_id_Inr_iff by auto
qed

lemma parse_qualified_id_slug_ends:
  "parse_qualified_id v = Inr (p, s) \<Longrightarrow> s = [] \<or> hd s \<noteq> CHR ''/'' \<and> last s \<noteq> CHR ''/''"
  using trim_char_ends by (auto simp: parse_qualified_id_Inr_iff)

text \<open>
  A catalog identifier parses back: for a provider name without a colon and a slug
  with something between its slashes, \<open>ParseQualifiedID\<close> of \<open>NewCatalogID\<close> yields the
  provider and the slug without the blanks and slashes around it.
\<close>

theorem qualified_id_roundtrip:
  assumes "p \<noteq> []" and "CHR '':'' \<notin> set p"
    and "trim_char CHR ''/'' (trim_space s) \<noteq> []"
    and "is_trimmed (new_catalog_id p s)"
  shows "parse_qualified_id (new_catalog_id p s) = Inr (p, trim_char CHR ''/'' (trim_space s))"
  using assms by (rule parse_new_catalog_id)

theorem qualified_id_roundtrip_witness:
  "parse_qualified_id (new_catalog_id ''kuramanime'' '' /12/naruto/ '') = Inr (''kuramanime'', ''12/naruto'')"
proof -
  have t: "trim_char CHR ''/'' (trim_space '' /12/naruto/ '') = ''12/naruto''" by code_simp
  have "is_trimmed (new_catalog_id ''kuramanime'' '' /12/naruto/ '')" by code_simp
  then show ?thesis
    using qualified_id_roundtrip [of "''kuramanime''" "'' /12/naruto/ ''"] t by simp
qed

end
