(* ===== verification/Go_Sort.thy ===== *)
theory Go_Sort
  imports Prelude
begin

text \<open>
  Go's package \<open>sort\<close>. \<open>sort.SliceStable\<close> is determined by the comparison: it is
  modelled by a stable insertion sort. \<open>sort.Slice\<close> may order elements that compare
  equal in any way, so the code that calls it takes the sort as a parameter; the locale
  \<open>slice_sort\<close> is the contract of that parameter, and the stable sort is one instance.
  Both contracts need the comparison to be a strict weak order, the locale
  \<open>weak_order\<close>; every comparison of the program is an interpretation of it.
\<close>

fun insert_by :: "('a \<Rightarrow> 'a \<Rightarrow> bool) \<Rightarrow> 'a \<Rightarrow> 'a list \<Rightarrow> 'a list" where
  "insert_by lt x [] = [x]"
| "insert_by lt x (y # ys) = (if lt y x then y # insert_by lt x ys else x # y # ys)"

definition stable_sort :: "('a \<Rightarrow> 'a \<Rightarrow> bool) \<Rightarrow> 'a list \<Rightarrow> 'a list" where
  "stable_sort lt xs = foldr (insert_by lt) xs []"

lemma stable_sort_simps [simp]:
  "stable_sort lt [] = []"
  "stable_sort lt (x # xs) = insert_by lt x (stable_sort lt xs)"
  by (simp_all add: stable_sort_def)

lemma mset_insert_by [simp]: "mset (insert_by lt x xs) = add_mset x (mset xs)"
  by (induction xs) auto

lemma mset_stable_sort [simp]: "mset (stable_sort lt xs) = mset xs"
  by (induction xs) auto

lemma set_insert_by [simp]: "set (insert_by lt x xs) = insert x (set xs)"
  by (induction xs) auto

lemma set_stable_sort [simp]: "set (stable_sort lt xs) = set xs"
  by (induction xs) auto

lemma length_stable_sort [simp]: "length (stable_sort lt xs) = length xs"
  by (metis mset_stable_sort size_mset)

text \<open>No later element compares below an earlier one.\<close>

definition ordered_by :: "('a \<Rightarrow> 'a \<Rightarrow> bool) \<Rightarrow> 'a list \<Rightarrow> bool" where
  "ordered_by lt xs \<longleftrightarrow> sorted_wrt (\<lambda>a b. \<not> lt b a) xs"

lemma ordered_by_Nil [simp]: "ordered_by lt []"
  by (simp add: ordered_by_def)

lemma ordered_by_Cons [simp]:
  "ordered_by lt (x # xs) \<longleftrightarrow> (\<forall>y\<in>set xs. \<not> lt y x) \<and> ordered_by lt xs"
  by (simp add: ordered_by_def)

lemma ordered_by_subseq: "\<lbrakk>subseq xs ys; ordered_by lt ys\<rbrakk> \<Longrightarrow> ordered_by lt xs"
  unfolding ordered_by_def by (rule subseq_sorted_wrt)

locale weak_order =
  fixes lt :: "'a \<Rightarrow> 'a \<Rightarrow> bool"
  assumes lt_asym: "lt x y \<Longrightarrow> \<not> lt y x"
    and lt_cotrans: "lt x z \<Longrightarrow> lt x y \<or> lt y z"
begin

lemma ordered_insert_by: "ordered_by lt xs \<Longrightarrow> ordered_by lt (insert_by lt x xs)"
proof (induction xs)
  case Nil
  then show ?case by simp
next
  case (Cons y ys)
  then show ?case using lt_asym lt_cotrans by (cases "lt y x") (auto, blast+)
qed

lemma ordered_stable_sort: "ordered_by lt (stable_sort lt xs)"
  by (induction xs) (auto simp: ordered_insert_by)

lemma insert_by_first: "\<forall>y\<in>set xs. \<not> lt y x \<Longrightarrow> insert_by lt x xs = x # xs"
  by (cases xs) auto

lemma stable_sort_ordered: "ordered_by lt xs \<Longrightarrow> stable_sort lt xs = xs"
  by (induction xs) (auto simp: insert_by_first)

lemma stable_sort_idem: "stable_sort lt (stable_sort lt xs) = stable_sort lt xs"
  by (rule stable_sort_ordered [OF ordered_stable_sort])

text \<open>The first match in an ordered list is a least match.\<close>

lemma find_least:
  assumes "ordered_by lt xs" and "List.find P xs = Some x" and "y \<in> set xs" and "P y"
  shows "\<not> lt y x"
  using find_Some_best [OF assms(2) assms(1) [unfolded ordered_by_def] assms(3,4)] lt_asym by blast

end

text \<open>A comparison of keys in a linear order is a strict weak order.\<close>

lemma weak_order_key: "weak_order (\<lambda>a b. (f a :: 'b::linorder) < f b)"
  by unfold_locales auto

lemma weak_order_key_desc: "weak_order (\<lambda>a b. (f a :: 'b::linorder) > f b)"
  by unfold_locales auto

locale slice_sort =
  fixes sort_slice :: "('a \<Rightarrow> 'a \<Rightarrow> bool) \<Rightarrow> 'a list \<Rightarrow> 'a list"
  assumes sort_mset: "weak_order lt \<Longrightarrow> mset (sort_slice lt xs) = mset xs"
    and sort_ordered: "weak_order lt \<Longrightarrow> ordered_by lt (sort_slice lt xs)"
begin

lemma sort_set: "weak_order lt \<Longrightarrow> set (sort_slice lt xs) = set xs"
  by (metis sort_mset set_mset_mset)

lemma sort_length: "weak_order lt \<Longrightarrow> length (sort_slice lt xs) = length xs"
  by (metis sort_mset size_mset)

lemma sort_distinct_map:
  "weak_order lt \<Longrightarrow> distinct (map f (sort_slice lt xs)) \<longleftrightarrow> distinct (map f xs)"
  by (metis sort_mset mset_map mset_eq_imp_distinct_iff)

lemma sort_Nil: "weak_order lt \<Longrightarrow> sort_slice lt xs = [] \<longleftrightarrow> xs = []"
  by (metis sort_length length_0_conv)

end

interpretation stable: slice_sort stable_sort
  by unfold_locales (simp_all add: weak_order.ordered_stable_sort)

end
