(* ===== verification/Go_Time.thy ===== *)
theory Go_Time
  imports Go_Strings
begin

text \<open>
  The part of Go's package \<open>time\<close> the backend uses. A time is the number of
  nanoseconds since 1970-01-01 UTC, a duration a number of nanoseconds; the process is
  taken to run in UTC. Dates are those of the proleptic Gregorian calendar.
\<close>

definition second :: int where "second = 1000000000"
definition minute :: int where "minute = 60 * second"
definition day_ns :: int where "day_ns = 86400 * second"

section \<open>Calendar\<close>

text \<open>
  Years are counted from March, so that the leap day is the last day of a year:
  \<open>year_days Y\<close> days lie before 1 March of year \<open>Y\<close>.
\<close>

definition year_days :: "int \<Rightarrow> int" where
  "year_days Y = 365 * Y + Y div 4 - Y div 100 + Y div 400"

definition days_from_civil :: "int \<Rightarrow> int \<Rightarrow> int \<Rightarrow> int" where
  "days_from_civil y m d =
     (let Y = (if m \<le> 2 then y - 1 else y); mp = (if m \<le> 2 then m + 9 else m - 3)
      in year_days Y + (153 * mp + 2) div 5 + d - 1 - 719468)"

definition march_year :: "int \<Rightarrow> int" where
  "march_year z =
     (let Y = (400 * z) div 146097
      in if year_days (Y + 1) \<le> z then Y + 1 else if z < year_days Y then Y - 1 else Y)"

definition civil_from_days :: "int \<Rightarrow> int \<times> int \<times> int" where
  "civil_from_days n =
     (let z = n + 719468; Y = march_year z; doy = z - year_days Y;
          mp = (5 * doy + 2) div 153; d = doy - (153 * mp + 2) div 5 + 1;
          m = (if mp < 10 then mp + 3 else mp - 9)
      in (if m \<le> 2 then Y + 1 else Y, m, d))"

lemma div_step: "(n + 1) div k = n div k + (if k dvd n + 1 then 1 else 0)" if k: "0 < k" for n k :: int
proof -
  define q r where "q = (n + 1) div k" and "r = (n + 1) mod k"
  have n: "n + 1 = k * q + r" "0 \<le> r" "r < k" using k by (simp_all add: q_def r_def)
  have r: "k dvd n + 1 \<longleftrightarrow> r = 0" by (simp add: r_def dvd_eq_mod_eq_0)
  show ?thesis
  proof (cases "r = 0")
    case True
    with n have "n = k * (q - 1) + (k - 1)" by (simp add: algebra_simps)
    moreover have "0 \<le> k - 1" "k - 1 < k" using k by simp_all
    ultimately have "n div k = q - 1" by (rule int_div_pos_eq)
    with True r show ?thesis by (simp add: q_def)
  next
    case False
    with n have "n = k * q + (r - 1)" "0 \<le> r - 1" "r - 1 < k" by simp_all
    then have "n div k = q" by (rule int_div_pos_eq)
    with False r show ?thesis by (simp add: q_def)
  qed
qed

lemma year_days_mono_step: "365 \<le> year_days (Y + 1) - year_days Y" "year_days (Y + 1) - year_days Y \<le> 366"
proof -
  have "(100::int) dvd Y + 1 \<Longrightarrow> (4::int) dvd Y + 1" "(400::int) dvd Y + 1 \<Longrightarrow> (100::int) dvd Y + 1"
    by (erule dvd_trans [rotated], simp)+
  moreover have "year_days (Y + 1) - year_days Y = 365 + (if (4::int) dvd Y + 1 then 1 else 0)
      - (if (100::int) dvd Y + 1 then 1 else 0) + (if (400::int) dvd Y + 1 then 1 else 0)"
    unfolding year_days_def div_step [of 4 Y, simplified] div_step [of 100 Y, simplified]
      div_step [of 400 Y, simplified]
    by simp
  ultimately show "365 \<le> year_days (Y + 1) - year_days Y" "year_days (Y + 1) - year_days Y \<le> 366"
    by (simp_all only: split: if_splits) linarith+
qed

lemma march_year_bounds: "year_days (march_year z) \<le> z \<and> z < year_days (march_year z + 1)"
proof -
  define Y where "Y = (400 * z) div 146097"
  have b: "146097 * Y \<le> 400 * z" "400 * z < 146097 * (Y + 1)"
    using pos_mod_bound [of 146097 "400 * z"] pos_mod_sign [of 146097 "400 * z"]
      mult_div_mod_eq [of 146097 "400 * z"]
    by (simp_all add: Y_def)
  have y: "400 * year_days K \<le> 146097 * K + 400" "146097 * K - 800 \<le> 400 * year_days K" for K
  proof -
    have "4 * (K div 4) \<le> K" "K < 4 * (K div 4) + 4" "100 * (K div 100) \<le> K"
      "K < 100 * (K div 100) + 100" "400 * (K div 400) \<le> K" "K < 400 * (K div 400) + 400"
      by linarith+
    then show "400 * year_days K \<le> 146097 * K + 400" "146097 * K - 800 \<le> 400 * year_days K"
      by (simp_all add: year_days_def)
  qed
  have "400 * year_days (Y - 1) \<le> 400 * z" using y(1) [of "Y - 1"] b by (simp add: algebra_simps)
  then have "year_days (Y - 1) \<le> z" by simp
  moreover have "400 * z < 400 * year_days (Y + 2)" using y(2) [of "Y + 2"] b by (simp add: algebra_simps)
  then have "z < year_days (2 + Y)" by (simp add: add.commute)
  ultimately show ?thesis
    unfolding march_year_def Y_def [symmetric] Let_def by auto
qed

theorem days_from_civil_from_days:
  "(case civil_from_days n of (y, m, d) \<Rightarrow> days_from_civil y m d) = n"
proof -
  define z where "z = n + 719468"
  define doy where "doy = z - year_days (march_year z)"
  have "0 \<le> doy" "doy \<le> 365"
    using march_year_bounds [of z] year_days_mono_step(2) [of "march_year z"]
    by (simp_all add: doy_def)
  define mp where "mp = (5 * doy + 2) div 153"
  define d where "d = doy - (153 * mp + 2) div 5 + 1"
  have mp: "0 \<le> mp" "mp \<le> 11"
    using \<open>0 \<le> doy\<close> \<open>doy \<le> 365\<close> zdiv_mono1 [of "5 * doy + 2" "1835" "153::int"]
    unfolding mp_def by simp_all
  have z: "year_days (march_year z) + doy = z" by (simp add: doy_def)
  have civil: "civil_from_days n =
      (let m = (if mp < 10 then mp + 3 else mp - 9)
       in (if m \<le> 2 then march_year z + 1 else march_year z, m, d))"
    unfolding civil_from_days_def Let_def z_def [symmetric] doy_def [symmetric]
      mp_def [symmetric] d_def [symmetric] by (rule refl)
  have "year_days (march_year z) + (153 * mp + 2) div 5 + d - 1 - 719468 = n"
    using z by (simp add: d_def z_def)
  with mp show ?thesis
    by (cases "mp < 10") (simp_all add: civil days_from_civil_def)
qed

text \<open>\<open>t.AddDate(n, 0, 0)\<close>: 29 February of a year that has none is 1 March.\<close>

definition add_years :: "int \<Rightarrow> int \<Rightarrow> int" where
  "add_years n t =
     (case civil_from_days (t div day_ns) of
        (y, m, d) \<Rightarrow> days_from_civil (y + n) m d * day_ns + t mod day_ns)"

lemma year_days_add: "year_days K + 365 * int n \<le> year_days (K + int n)"
proof (induction n)
  case 0
  then show ?case by simp
next
  case (Suc n)
  have "365 \<le> year_days (K + int n + 1) - year_days (K + int n)" by (rule year_days_mono_step)
  moreover have e: "K + int (Suc n) = K + int n + 1" by simp
  ultimately show ?case using Suc unfolding e by simp
qed

lemma days_from_civil_add: "days_from_civil y m d + 365 * int n \<le> days_from_civil (y + int n) m d"
  using year_days_add [of y n] year_days_add [of "y - 1" n]
  by (simp add: days_from_civil_def Let_def algebra_simps)

lemma add_years_later: "t + int n * 365 * day_ns \<le> add_years (int n) t"
proof -
  obtain y m d where c: "civil_from_days (t div day_ns) = (y, m, d)" by (metis prod_cases3)
  with days_from_civil_from_days [of "t div day_ns"]
  have "t div day_ns + 365 * int n \<le> days_from_civil (y + int n) m d"
    using days_from_civil_add [of y m d n] by simp
  then have "(t div day_ns + 365 * int n) * day_ns \<le> days_from_civil (y + int n) m d * day_ns"
    by (rule mult_right_mono) (simp add: day_ns_def second_def)
  then have "(t div day_ns) * day_ns + 365 * int n * day_ns \<le> days_from_civil (y + int n) m d * day_ns"
    by (simp add: ring_distribs)
  moreover have "(t div day_ns) * day_ns + t mod day_ns = t" by (rule div_mult_mod_eq)
  ultimately have "t + 365 * int n * day_ns \<le> days_from_civil (y + int n) m d * day_ns + t mod day_ns"
    by linarith
  then show ?thesis by (simp add: add_years_def c mult.commute [of 365])
qed

section \<open>Parsing\<close>

definition leap :: "int \<Rightarrow> bool" where
  "leap y \<longleftrightarrow> y mod 4 = 0 \<and> (y mod 100 \<noteq> 0 \<or> y mod 400 = 0)"

definition days_in_month :: "int \<Rightarrow> int \<Rightarrow> int" where
  "days_in_month y m =
     (if m = 2 then (if leap y then 29 else 28)
      else if m = 4 \<or> m = 6 \<or> m = 9 \<or> m = 11 then 30 else 31)"

definition take_num :: "nat \<Rightarrow> string \<Rightarrow> (int \<times> string) option" where
  "take_num k s =
     (if k \<le> length s \<and> list_all is_digit (take k s)
      then Some (digits_val (take k s), drop k s) else None)"

definition mk_time :: "int \<Rightarrow> int \<Rightarrow> int \<Rightarrow> int \<Rightarrow> int \<Rightarrow> int \<Rightarrow> int \<Rightarrow> int" where
  "mk_time y mo d h mi s ns =
     days_from_civil y mo d * day_ns + ((h * 60 + mi) * 60 + s) * second + ns"

text \<open>
  A fraction after the seconds is accepted although the layout has none; digits after
  the ninth are dropped.
\<close>

definition parse_fraction :: "string \<Rightarrow> int \<times> string" where
  "parse_fraction s =
     (case s of
        c # d # r \<Rightarrow>
          if (c = CHR ''.'' \<or> c = CHR '','') \<and> is_digit d
          then let ds = takeWhile is_digit (d # r); k = take 9 ds
               in (digits_val k * 10 ^ (9 - length k), dropWhile is_digit (d # r))
          else (0, s)
      | _ \<Rightarrow> (0, s))"

definition valid_date :: "int \<Rightarrow> int \<Rightarrow> int \<Rightarrow> bool" where
  "valid_date y m d \<longleftrightarrow> 1 \<le> m \<and> m \<le> 12 \<and> 1 \<le> d \<and> d \<le> days_in_month y m"

definition valid_clock :: "int \<Rightarrow> int \<Rightarrow> int \<Rightarrow> bool" where
  "valid_clock h mi s \<longleftrightarrow> h < 24 \<and> mi < 60 \<and> s < 60"

text \<open>\<open>time.Parse(''20060102T150405Z'', s)\<close>.\<close>

definition parse_amz_date :: "string \<Rightarrow> int option" where
  "parse_amz_date s0 =
     Option.bind (take_num 4 s0) (\<lambda>(y, s1).
     Option.bind (take_num 2 s1) (\<lambda>(mo, s2).
     Option.bind (take_num 2 s2) (\<lambda>(d, s3).
     if \<not> prefix ''T'' s3 then None else
     Option.bind (take_num 2 (tl s3)) (\<lambda>(h, s4).
     Option.bind (take_num 2 s4) (\<lambda>(mi, s5).
     Option.bind (take_num 2 s5) (\<lambda>(s, s6).
     case parse_fraction s6 of (ns, s7) \<Rightarrow>
       if s7 = ''Z'' \<and> valid_date y mo d \<and> valid_clock h mi s
       then Some (mk_time y mo d h mi s ns) else None))))))"

section \<open>Durations\<close>

text \<open>\<open>t.Sub(u)\<close> saturates.\<close>

definition time_sub :: "int \<Rightarrow> int \<Rightarrow> int" where
  "time_sub t u = max min_int64 (min max_int64 (t - u))"

lemma time_sub_pos_iff: "0 < time_sub t u \<longleftrightarrow> u < t"
  by (auto simp: time_sub_def max_int64_def min_int64_def)

lemma time_sub_le: "u < t \<Longrightarrow> time_sub t u \<le> t - u"
  by (simp add: time_sub_def max_int64_def min_int64_def)

end
