(* ===== verification/World.thy ===== *)
theory World
  imports Domain Go_Sort Go_Time "HOL-Library.State_Monad"
begin

text \<open>
  Effects. Code that reads the clock, calls a provider, a cache, a database or the
  network is a state transformer over the world it acts on, in the state monad of
  \<open>HOL-Library\<close>; what lies outside the repository is a record of such transformers.
  A computation \<open>keeps\<close> a predicate when no run can break it. The HTTP data shared by
  the media components is here too.
\<close>

section \<open>Computations over a world\<close>

type_synonym ('w, 'a) eff = "('w, 'a) state"

abbreviation result :: "('w, 'a) eff \<Rightarrow> 'w \<Rightarrow> 'a" where
  "result m w \<equiv> fst (run_state m w)"

abbreviation after :: "('w, 'a) eff \<Rightarrow> 'w \<Rightarrow> 'w" where
  "after m w \<equiv> snd (run_state m w)"

abbreviation pass :: "'a \<Rightarrow> ('w, 'a) eff" where
  "pass \<equiv> State_Monad.return"

definition keeps :: "('w \<Rightarrow> bool) \<Rightarrow> ('w, 'a) eff \<Rightarrow> bool" where
  "keeps I m \<longleftrightarrow> (\<forall>w. I w \<longrightarrow> I (after m w))"

named_theorems keeps_intros

lemma keepsI: "(\<And>w. I w \<Longrightarrow> I (after m w)) \<Longrightarrow> keeps I m"
  by (simp add: keeps_def)

lemma keepsD: "\<lbrakk>keeps I m; I w\<rbrakk> \<Longrightarrow> I (after m w)"
  by (simp add: keeps_def)

lemma keeps_return [keeps_intros]: "keeps I (pass x)"
  by (simp add: keeps_def)

lemma keeps_bind [keeps_intros]:
  "\<lbrakk>keeps I m; \<And>x. keeps I (f x)\<rbrakk> \<Longrightarrow> keeps I (State_Monad.bind m f)"
  by (simp add: keeps_def split_beta)

lemma keeps_if [keeps_intros]:
  "\<lbrakk>b \<Longrightarrow> keeps I m; \<not> b \<Longrightarrow> keeps I n\<rbrakk> \<Longrightarrow> keeps I (if b then m else n)"
  by simp

lemma keeps_case_option [keeps_intros]:
  "\<lbrakk>keeps I m; \<And>x. keeps I (f x)\<rbrakk> \<Longrightarrow> keeps I (case y of None \<Rightarrow> m | Some x \<Rightarrow> f x)"
  by (cases y) auto

lemma keeps_case_sum [keeps_intros]:
  "\<lbrakk>\<And>x. keeps I (f x); \<And>x. keeps I (g x)\<rbrakk> \<Longrightarrow> keeps I (case y of Inl x \<Rightarrow> f x | Inr x \<Rightarrow> g x)"
  by (cases y) auto

lemma run_bind [simp, world_simps]:
  "run_state (State_Monad.bind m f) w = run_state (f (result m w)) (after m w)"
  by (simp add: split_beta)

declare run_state_bind [simp del]

lemma run_if [simp, world_simps]:
  "run_state (if b then m else n) w = (if b then run_state m w else run_state n w)"
  by simp

section \<open>HTTP data\<close>

type_synonym bytes = "8 word list"

text \<open>Header maps have canonical keys; \<open>Get\<close> yields the first value or the empty string.\<close>

type_synonym headers = "string \<rightharpoonup> string list"

definition header_get :: "headers \<Rightarrow> string \<Rightarrow> string" where
  "header_get h k = (case h k of Some (v # _) \<Rightarrow> v | _ \<Rightarrow> [])"

text \<open>
  A response. Its content length is -1 when the server did not announce one; reading
  the body yields the bytes or an error.
\<close>

record http_response =
  hr_status :: int
  hr_headers :: headers
  hr_content_length :: int
  hr_body :: "string + bytes"

text \<open>A media response held in memory (\<open>bufferedMediaResponse\<close>, \<open>CachedResponse\<close>).\<close>

record buffered =
  bf_status :: int
  bf_headers :: headers
  bf_body :: bytes

lemma header_get_update [simp]:
  "header_get (h(k \<mapsto> [v])) k' = (if k' = k then v else header_get h k')"
  by (simp add: header_get_def)

end
