(* ===== verification/Mem_Cache.thy ===== *)
theory Mem_Cache
  imports World
begin

text \<open>
  The in-memory cache of \<open>internal/cache/cache.go\<close>, a thin layer over the package
  \<open>ttlcache\<close>, which is not part of the repository: its three operations are the record
  \<open>ttl_ops\<close>. A cached value has Go type \<open>any\<close>; the type assertions of the services are
  case distinctions on \<open>cached\<close>. The locale \<open>ttl_store\<close> states what the services rely
  on: at one instant the cache is a map. The last section is a reference cache with
  expiry times and a clock that satisfies it.
\<close>

datatype cached =
    CHome home_feed
  | CCards "anime_card list option"
  | CSchedule "schedule_day list"
  | CIndex "string \<rightharpoonup> anime_card list"
  | CPropertyList property_list
  | CPage collection_page
  | CDetail anime_detail
  | CStream stream_result
  | CBuffered buffered
  | CBool bool

record 'w ttl_ops =
  ttl_get :: "string \<Rightarrow> ('w, cached option) eff"
  ttl_set :: "string \<Rightarrow> cached \<Rightarrow> duration \<Rightarrow> ('w, unit) eff"
  ttl_delete :: "string \<Rightarrow> ('w, unit) eff"

definition cache_get :: "'w ttl_ops \<Rightarrow> string \<Rightarrow> ('w, cached option) eff" where
  "cache_get c key =
     do { item \<leftarrow> ttl_get c key;
          case item of Some v \<Rightarrow> pass (Some v) | None \<Rightarrow> pass None }"

definition cache_set :: "'w ttl_ops \<Rightarrow> string \<Rightarrow> cached \<Rightarrow> duration \<Rightarrow> ('w, unit) eff" where
  "cache_set c key v ttl = ttl_set c key v ttl"

definition cache_delete :: "'w ttl_ops \<Rightarrow> string \<Rightarrow> ('w, unit) eff" where
  "cache_delete c key = ttl_delete c key"

lemma cache_get_eq [simp]: "cache_get c key = ttl_get c key"
  by (rule state_ext) (auto simp: cache_get_def prod_eq_iff split: option.splits)

locale ttl_store =
  fixes c :: "'w ttl_ops"
    and view :: "'w \<Rightarrow> string \<rightharpoonup> cached"
  assumes get_result: "result (ttl_get c k) w = view w k"
    and get_view: "view (after (ttl_get c k) w) = view w"
    and set_view: "0 \<le> d \<Longrightarrow> view (after (ttl_set c k v d) w) = (view w)(k \<mapsto> v)"
    and delete_view: "view (after (ttl_delete c k) w) = (view w)(k := None)"
begin

lemma get_after_set: "0 \<le> d \<Longrightarrow> result (cache_get c k) (after (cache_set c k v d) w) = Some v"
  by (simp add: cache_set_def get_result set_view)

lemma get_after_set_other:
  "\<lbrakk>0 \<le> d; k' \<noteq> k\<rbrakk> \<Longrightarrow> result (cache_get c k') (after (cache_set c k v d) w) = result (cache_get c k') w"
  by (simp add: cache_set_def get_result set_view)

lemma get_after_delete: "result (cache_get c k) (after (cache_delete c k) w) = None"
  by (simp add: cache_delete_def get_result delete_view)

end

section \<open>A reference cache\<close>

text \<open>
  Entries carry the instant at which they expire; a positive TTL is counted from the
  clock, TTL 0 takes the default of the cache, and a hit restarts the TTL of the entry.
\<close>

record ref_cache =
  rc_clock :: time
  rc_default :: duration
  rc_items :: "string \<rightharpoonup> cached \<times> duration \<times> time"

definition rc_view :: "ref_cache \<Rightarrow> string \<rightharpoonup> cached" where
  "rc_view s = (\<lambda>k. case rc_items s k of
     Some (v, d, e) \<Rightarrow> if rc_clock s < e then Some v else None | None \<Rightarrow> None)"

definition rc_ttl :: "ref_cache \<Rightarrow> duration \<Rightarrow> duration" where
  "rc_ttl s d = (if 0 < d then d else if 0 < rc_default s then rc_default s else second)"

definition rc_set :: "string \<Rightarrow> cached \<Rightarrow> duration \<Rightarrow> ref_cache \<Rightarrow> ref_cache" where
  "rc_set k v d s = s\<lparr>rc_items := (rc_items s)(k \<mapsto> (v, rc_ttl s d, rc_clock s + rc_ttl s d))\<rparr>"

definition rc_touch :: "string \<Rightarrow> ref_cache \<Rightarrow> ref_cache" where
  "rc_touch k s =
     (case rc_items s k of
        Some (v, d, e) \<Rightarrow>
          if rc_clock s < e \<and> 0 < d then s\<lparr>rc_items := (rc_items s)(k \<mapsto> (v, d, rc_clock s + d))\<rparr> else s
      | None \<Rightarrow> s)"

definition rc_delete :: "string \<Rightarrow> ref_cache \<Rightarrow> ref_cache" where
  "rc_delete k s = s\<lparr>rc_items := (rc_items s)(k := None)\<rparr>"

definition ref_cache_ops :: "ref_cache ttl_ops" where
  "ref_cache_ops =
     \<lparr>ttl_get = (\<lambda>k. State (\<lambda>s. (rc_view s k, rc_touch k s))),
      ttl_set = (\<lambda>k v d. State (\<lambda>s. ((), rc_set k v d s))),
      ttl_delete = (\<lambda>k. State (\<lambda>s. ((), rc_delete k s)))\<rparr>"

lemma rc_ttl_pos: "0 < rc_ttl s d"
  by (simp add: rc_ttl_def second_def)

lemma rc_view_touch: "rc_view (rc_touch k s) = rc_view s"
  by (auto simp: rc_view_def rc_touch_def fun_eq_iff split: option.splits)

lemma rc_view_set: "rc_view (rc_set k v d s) = (rc_view s)(k \<mapsto> v)"
  by (auto simp: rc_view_def rc_set_def fun_eq_iff rc_ttl_pos split: option.splits)

lemma rc_view_delete: "rc_view (rc_delete k s) = (rc_view s)(k := None)"
  by (auto simp: rc_view_def rc_delete_def fun_eq_iff split: option.splits)

interpretation ref_cache: ttl_store ref_cache_ops rc_view
  by unfold_locales (simp_all add: ref_cache_ops_def rc_view_touch rc_view_set rc_view_delete)

end
