(* ===== verification/Stream.thy ===== *)
theory Stream
  imports Mem_Cache
begin

text \<open>
  The stream service, \<open>internal/service/stream/service.go\<close>: from the candidates of the
  active provider it keeps the useful ones, picks the preferred stream, and caches the
  result in memory and in the database no longer than the signature of the signed URLs
  it holds is valid.
\<close>

section \<open>Signed URLs and expiry\<close>

definition signed_url_expires_at :: "string \<Rightarrow> time option" where
  "signed_url_expires_at raw_url =
     (case url_parse (trim_space raw_url) of
        None \<Rightarrow> None
      | Some parsed \<Rightarrow>
          let date_raw = trim_space (query_get (u_raw_query parsed) ''X-Amz-Date'');
              expires_raw = trim_space (query_get (u_raw_query parsed) ''X-Amz-Expires'')
          in if date_raw = [] \<or> expires_raw = [] then None
             else (case parse_amz_date date_raw of
                     None \<Rightarrow> None
                   | Some start_at \<Rightarrow>
                       (case parse_int64 expires_raw of
                          Inl _ \<Rightarrow> None
                        | Inr seconds \<Rightarrow>
                            if seconds \<le> 0 then None
                            else Some (start_at + i64 (seconds * second)))))"

text \<open>The closure \<open>consider\<close> of \<open>resultExpiresAt\<close>: the expiry so far, \<open>None\<close> while nothing was found.\<close>

definition consider_url :: "time option \<Rightarrow> string \<Rightarrow> time option" where
  "consider_url found raw_url =
     (if raw_url = [] then found
      else (case signed_url_expires_at raw_url of
              None \<Rightarrow> found
            | Some e \<Rightarrow>
                let candidate_expiry = e - 5 * minute
                in (case found of
                      None \<Rightarrow> Some candidate_expiry
                    | Some expires_at \<Rightarrow>
                        if candidate_expiry < expires_at then Some candidate_expiry else found)))"

definition result_urls :: "stream_result \<Rightarrow> string list" where
  "result_urls r =
     (case sr_preferred r of None \<Rightarrow> [] | Some p \<Rightarrow> [sc_url p]) @ map sc_url (sr_candidates r)"

definition result_expires_at :: "time \<Rightarrow> stream_result \<Rightarrow> time" where
  "result_expires_at now r =
     (case foldl consider_url None (result_urls r) of
        None \<Rightarrow> add_years 10 now
      | Some e \<Rightarrow> e)"

definition result_is_expired :: "time \<Rightarrow> stream_result \<Rightarrow> bool" where
  "result_is_expired now r = (\<not> result_expires_at now r > now)"

text \<open>\<open>later\<close> is the clock reading of \<open>time.Until\<close>, taken after \<open>now\<close>.\<close>

definition stream_memory_ttl :: "time \<Rightarrow> time \<Rightarrow> stream_result \<Rightarrow> duration \<Rightarrow> duration" where
  "stream_memory_ttl later now r fallback =
     (let expires_at = result_expires_at now r;
          until_expiry = time_sub expires_at later;
          until_expiry = (if expires_at > now then time_sub expires_at now else until_expiry)
      in if until_expiry \<le> 0 then second
         else if fallback \<le> 0 \<or> until_expiry < fallback then until_expiry
         else fallback)"

section \<open>Choosing a stream\<close>

definition by_priority :: "stream_candidate \<Rightarrow> stream_candidate \<Rightarrow> bool" where
  "by_priority a b \<longleftrightarrow> sc_priority a > sc_priority b"

definition is_mp4 :: "stream_candidate \<Rightarrow> bool" where
  "is_mp4 c \<longleftrightarrow> equal_fold (sc_container c) ''mp4''"

definition is_live :: "stream_candidate \<Rightarrow> bool" where
  "is_live c \<longleftrightarrow> sc_direct c \<and> sc_playable c"

definition candidate_key :: "stream_candidate \<Rightarrow> string" where
  "candidate_key c =
     (let key = to_lower (trim_space (sc_container c) @ ''|'' @ trim_space (sc_quality c))
      in if key = ''|'' then to_lower (sc_url c) else key)"

definition normalize_candidates :: "stream_candidate list \<Rightarrow> stream_candidate list" where
  "normalize_candidates candidates =
     (if candidates = [] then candidates
      else let sorted = stable_sort by_priority candidates;
               deduped = dedup_by candidate_key {} sorted;
               direct = filter is_live deduped
           in if direct = [] then deduped
              else let mp4 = filter is_mp4 direct
                   in if mp4 \<noteq> [] then mp4 else direct)"

definition pick_preferred_stream :: "stream_candidate list \<Rightarrow> (stream_candidate \<times> string) option" where
  "pick_preferred_stream candidates =
     (case List.find (\<lambda>c. is_live c \<and> is_mp4 c \<and> equal_fold (sc_quality c) ''720p'') candidates of
        Some c \<Rightarrow> Some (c, ''preferred_720p_direct_mp4'')
      | None \<Rightarrow>
          (case List.find (\<lambda>c. is_live c \<and> is_mp4 c) candidates of
             Some c \<Rightarrow> Some (c, ''preferred_direct_mp4'')
           | None \<Rightarrow> None))"

text \<open>
  The result of a fresh resolution from the candidates of the provider. \<open>srt\<close> is
  \<open>sort.Slice\<close>.
\<close>

definition build_result ::
  "((stream_candidate \<Rightarrow> stream_candidate \<Rightarrow> bool) \<Rightarrow> stream_candidate list \<Rightarrow> stream_candidate list)
   \<Rightarrow> string \<Rightarrow> string \<Rightarrow> stream_candidate list \<Rightarrow> stream_result" where
  "build_result srt provider_name ep raw =
     (let candidates = srt by_priority (normalize_candidates raw);
          r = \<lparr>sr_episode_id = ep, sr_preferred = None, sr_candidates = candidates,
               sr_reason = ''preferred_direct_mp4'', sr_provider = provider_name\<rparr>
      in (case pick_preferred_stream candidates of
            Some (selected, reason) \<Rightarrow> r\<lparr>sr_preferred := Some selected, sr_reason := reason\<rparr>
          | None \<Rightarrow>
              (case List.find sc_direct candidates of
                 Some selected \<Rightarrow>
                   r\<lparr>sr_preferred := Some selected, sr_reason := ''preferred_direct_fallback''\<rparr>
               | None \<Rightarrow>
                   (case candidates of
                      selected # _ \<Rightarrow>
                        r\<lparr>sr_preferred := Some selected, sr_reason := ''highest_ranked_candidate''\<rparr>
                    | [] \<Rightarrow> r))))"

section \<open>The service\<close>

text \<open>
  The database operations the service calls; an error is \<open>Inl\<close>, a missing row
  \<open>Inr None\<close>. The service runs against a clock, a provider, a cache and an optional
  store.
\<close>

record 'w stream_store =
  st_get :: "string \<Rightarrow> time \<Rightarrow> ('w, string + stream_result option) eff"
  st_upsert :: "string \<Rightarrow> stream_result \<Rightarrow> time \<Rightarrow> ('w, string option) eff"
  st_delete :: "string \<Rightarrow> ('w, string option) eff"

record 'w stream_svc =
  ss_clock :: "('w, time) eff"
  ss_provider_name :: string
  ss_candidates :: "string \<Rightarrow> ('w, string + stream_candidate list) eff"
  ss_cache :: "'w ttl_ops"
  ss_store :: "'w stream_store option"
  ss_ttl :: duration
  ss_sort :: "(stream_candidate \<Rightarrow> stream_candidate \<Rightarrow> bool)
              \<Rightarrow> stream_candidate list \<Rightarrow> stream_candidate list"

definition stream_key :: "string \<Rightarrow> string" where
  "stream_key ep = ''stream:'' @ ep"

definition from_memory :: "'w stream_svc \<Rightarrow> string \<Rightarrow> bool \<Rightarrow> time \<Rightarrow> ('w, stream_result option) eff" where
  "from_memory s key force_refresh now =
     (if force_refresh then pass None
      else do { raw \<leftarrow> cache_get (ss_cache s) key;
                case raw of
                  Some (CStream v) \<Rightarrow>
                    if \<not> result_is_expired now v then pass (Some v)
                    else do { cache_delete (ss_cache s) key; pass None }
                | _ \<Rightarrow> pass None })"

definition from_store ::
  "'w stream_svc \<Rightarrow> string \<Rightarrow> string \<Rightarrow> bool \<Rightarrow> time \<Rightarrow> ('w, stream_result option) eff" where
  "from_store s key ep force_refresh now =
     (if force_refresh then pass None
      else (case ss_store s of
              None \<Rightarrow> pass None
            | Some st \<Rightarrow>
                do { row_now \<leftarrow> ss_clock s;
                     row \<leftarrow> st_get st ep row_now;
                     case row of
                       Inr (Some v) \<Rightarrow>
                         if result_is_expired now v
                         then do { st_delete st ep; pass None }
                         else do { later \<leftarrow> ss_clock s;
                                   cache_set (ss_cache s) key (CStream v)
                                     (stream_memory_ttl later now v (ss_ttl s));
                                   pass (Some v) }
                     | _ \<Rightarrow> pass None }))"

definition persist :: "'w stream_svc \<Rightarrow> string \<Rightarrow> string \<Rightarrow> stream_result \<Rightarrow> ('w, unit) eff" where
  "persist s key ep r =
     do { now \<leftarrow> ss_clock s;
          later \<leftarrow> ss_clock s;
          cache_set (ss_cache s) key (CStream r) (stream_memory_ttl later now r (ss_ttl s));
          case ss_store s of
            None \<Rightarrow> pass ()
          | Some st \<Rightarrow> do { st_upsert st ep r (result_expires_at now r); pass () } }"

definition fresh_result :: "'w stream_svc \<Rightarrow> string \<Rightarrow> string \<Rightarrow> ('w, string + stream_result) eff" where
  "fresh_result s key ep =
     do { candidates \<leftarrow> ss_candidates s ep;
          case candidates of
            Inl err \<Rightarrow> pass (Inl err)
          | Inr cs \<Rightarrow>
              do { let r = build_result (ss_sort s) (ss_provider_name s) ep cs;
                   persist s key ep r;
                   pass (Inr r) } }"

definition resolve :: "'w stream_svc \<Rightarrow> string \<Rightarrow> bool \<Rightarrow> ('w, string + stream_result) eff" where
  "resolve s ep force_refresh =
     do { now \<leftarrow> ss_clock s;
          m \<leftarrow> from_memory s (stream_key ep) force_refresh now;
          case m of
            Some v \<Rightarrow> pass (Inr v)
          | None \<Rightarrow>
              do { d \<leftarrow> from_store s (stream_key ep) ep force_refresh now;
                   case d of
                     Some v \<Rightarrow> pass (Inr v)
                   | None \<Rightarrow> fresh_result s (stream_key ep) ep } }"

definition stream_resolve :: "'w stream_svc \<Rightarrow> string \<Rightarrow> ('w, string + stream_result) eff" where
  "stream_resolve s ep = resolve s ep False"

definition stream_refresh :: "'w stream_svc \<Rightarrow> string \<Rightarrow> ('w, string + stream_result) eff" where
  "stream_refresh s ep = resolve s ep True"

definition stream_invalidate :: "'w stream_svc \<Rightarrow> string \<Rightarrow> ('w, unit) eff" where
  "stream_invalidate s ep =
     do { cache_delete (ss_cache s) (stream_key ep);
          case ss_store s of
            None \<Rightarrow> pass ()
          | Some st \<Rightarrow> do { st_delete st ep; pass () } }"


section \<open>Expiry\<close>

text \<open>The deadlines of a list of URLs: five minutes before the end of every signature.\<close>

definition url_deadline :: "string \<Rightarrow> time option" where
  "url_deadline u = (if u = [] then None else map_option (\<lambda>e. e - 5 * minute) (signed_url_expires_at u))"

definition deadlines :: "stream_result \<Rightarrow> time set" where
  "deadlines r = {d. \<exists>u\<in>set (result_urls r). url_deadline u = Some d}"

definition earlier :: "time option \<Rightarrow> time option \<Rightarrow> time option" where
  "earlier a b =
     (case (a, b) of (None, _) \<Rightarrow> b | (_, None) \<Rightarrow> a | (Some x, Some y) \<Rightarrow> Some (min x y))"

lemma consider_url_eq: "consider_url found u = earlier found (url_deadline u)"
  by (auto simp: consider_url_def url_deadline_def earlier_def Let_def min_def split: option.splits)

lemma foldl_consider_None:
  "foldl consider_url f us = None \<longleftrightarrow> f = None \<and> (\<forall>u\<in>set us. url_deadline u = None)"
  by (induction us arbitrary: f) (auto simp: consider_url_eq earlier_def split: option.splits)

lemma foldl_consider_Some:
  "foldl consider_url f us = Some e \<Longrightarrow>
     (f = Some e \<or> (\<exists>u\<in>set us. url_deadline u = Some e))
     \<and> (\<forall>x. f = Some x \<longrightarrow> e \<le> x) \<and> (\<forall>u\<in>set us. \<forall>x. url_deadline u = Some x \<longrightarrow> e \<le> x)"
proof (induction us arbitrary: f)
  case Nil
  then show ?case by simp
next
  case (Cons u us)
  let ?f = "earlier f (url_deadline u)"
  from Cons.prems have "foldl consider_url ?f us = Some e" by (simp add: consider_url_eq [of f u])
  note IH = Cons.IH [OF this]
  have "?f = Some e \<Longrightarrow> f = Some e \<or> url_deadline u = Some e"
    by (auto simp: earlier_def min_def split: option.splits if_splits)
  with IH have "f = Some e \<or> (\<exists>v\<in>set (u # us). url_deadline v = Some e)" by auto
  moreover have "e \<le> x" if x: "f = Some x \<or> url_deadline u = Some x" for x
  proof -
    have "\<exists>y. ?f = Some y \<and> y \<le> x"
      using x by (cases f; cases "url_deadline u") (auto simp: earlier_def)
    with IH show ?thesis by auto
  qed
  ultimately show ?case using IH by simp
qed

lemma result_expires_at_cases:
  obtains (unsigned) "deadlines r = {}" "result_expires_at now r = add_years 10 now"
  | (signed) "result_expires_at now r \<in> deadlines r" "\<forall>d\<in>deadlines r. result_expires_at now r \<le> d"
proof (cases "foldl consider_url None (result_urls r)")
  case None
  then have "deadlines r = {}" by (auto simp: foldl_consider_None deadlines_def)
  moreover have "result_expires_at now r = add_years 10 now" by (simp add: result_expires_at_def None)
  ultimately show thesis by (rule unsigned)
next
  case (Some e)
  then have "result_expires_at now r = e" by (simp add: result_expires_at_def)
  with foldl_consider_Some [OF Some] show thesis
    by (intro signed) (auto simp: deadlines_def)
qed

lemma unsigned_never_expires: "deadlines r = {} \<Longrightarrow> \<not> result_is_expired now r"
proof -
  assume "deadlines r = {}"
  then have "result_expires_at now r = add_years 10 now"
    by (cases r now rule: result_expires_at_cases) auto
  moreover have "now + int 10 * 365 * day_ns \<le> add_years (int 10) now" by (rule add_years_later)
  ultimately show ?thesis by (simp add: result_is_expired_def day_ns_def second_def)
qed

lemma expired_iff: "result_is_expired now r \<longleftrightarrow> (\<exists>d\<in>deadlines r. d \<le> now)"
proof (cases r now rule: result_expires_at_cases)
  case unsigned
  then show ?thesis using unsigned_never_expires by auto
next
  case signed
  then show ?thesis unfolding result_is_expired_def by (meson not_less order_trans)
qed

lemma expired_mono: "\<lbrakk>result_is_expired now r; now \<le> later\<rbrakk> \<Longrightarrow> result_is_expired later r"
  by (auto simp: expired_iff intro: order_trans)

lemma memory_ttl_pos: "0 < stream_memory_ttl later now r fallback"
  by (auto simp: stream_memory_ttl_def Let_def second_def)

lemma memory_ttl_bound:
  assumes "now \<le> later"
  shows "stream_memory_ttl later now r fallback = second
    \<or> now + stream_memory_ttl later now r fallback \<le> result_expires_at now r"
proof (cases "result_expires_at now r > now")
  case True
  let ?u = "time_sub (result_expires_at now r) now"
  have "now + ?u \<le> result_expires_at now r" using time_sub_le [OF True] by simp
  then show ?thesis using True by (auto simp: stream_memory_ttl_def Let_def)
next
  case False
  with assms have "\<not> 0 < time_sub (result_expires_at now r) later"
    by (simp add: time_sub_pos_iff)
  with False show ?thesis by (simp add: stream_memory_ttl_def Let_def)
qed

lemma memory_ttl_fallback: "0 < fallback \<Longrightarrow> stream_memory_ttl later now r fallback \<le> max second fallback"
  by (auto simp: stream_memory_ttl_def Let_def)

section \<open>Candidates\<close>

interpretation prio: weak_order by_priority
  by unfold_locales (auto simp: by_priority_def)

lemma normalize_cases:
  obtains (none) "normalize_candidates cs = dedup_by candidate_key {} (stable_sort by_priority cs)"
      "\<forall>c\<in>set (normalize_candidates cs). \<not> is_live c"
  | (mp4) "normalize_candidates cs =
        filter is_mp4 (filter is_live (dedup_by candidate_key {} (stable_sort by_priority cs)))"
      "normalize_candidates cs \<noteq> []"
  | (direct) "normalize_candidates cs =
        filter is_live (dedup_by candidate_key {} (stable_sort by_priority cs))"
      "normalize_candidates cs \<noteq> []" "\<forall>c\<in>set (normalize_candidates cs). \<not> is_mp4 c"
proof -
  let ?d = "dedup_by candidate_key {} (stable_sort by_priority cs)"
  show thesis
  proof (cases "filter is_live ?d = []")
    case True
    then have "normalize_candidates cs = ?d" by (simp add: normalize_candidates_def Let_def)
    with True show thesis by (intro none) (auto simp: filter_empty_conv)
  next
    case False
    then have ne: "cs \<noteq> []" by auto
    show thesis
    proof (cases "filter is_mp4 (filter is_live ?d) = []")
      case True
      with False ne have "normalize_candidates cs = filter is_live ?d"
        by (simp only: normalize_candidates_def Let_def if_False if_True simp_thms)
      with True False show thesis by (intro direct) (auto simp: filter_empty_conv)
    next
      case mp: False
      with False ne have "normalize_candidates cs = filter is_mp4 (filter is_live ?d)"
        by (simp only: normalize_candidates_def Let_def if_False if_True simp_thms)
      with mp show thesis by (intro mp4) auto
    qed
  qed
qed

lemma normalize_subseq:
  "subseq (normalize_candidates cs) (dedup_by candidate_key {} (stable_sort by_priority cs))"
  by (cases cs rule: normalize_cases)
     (auto intro: subseq_order.trans)

lemma normalize_set: "set (normalize_candidates cs) \<subseteq> set cs"
  using subseq_set [OF normalize_subseq] dedup_by_set [of candidate_key "{}" "stable_sort by_priority cs"]
  by fastforce

lemma normalize_ordered: "ordered_by by_priority (normalize_candidates cs)"
proof -
  have "ordered_by by_priority (dedup_by candidate_key {} (stable_sort by_priority cs))"
    by (rule ordered_by_subseq [OF dedup_by_subseq prio.ordered_stable_sort])
  with normalize_subseq show ?thesis by (rule ordered_by_subseq)
qed

lemma normalize_distinct: "distinct (map candidate_key (normalize_candidates cs))"
  using subseq_distinct [OF subseq_map [OF normalize_subseq] dedup_by_distinct] .

lemma normalize_Nil [simp]: "normalize_candidates cs = [] \<longleftrightarrow> cs = []"
proof
  assume e: "normalize_candidates cs = []"
  have "dedup_by candidate_key {} (stable_sort by_priority cs) = []"
    using e by (cases cs rule: normalize_cases) auto
  then have "candidate_key ` set cs = {}"
    using dedup_by_keys [of candidate_key "{}" "stable_sort by_priority cs"] by simp
  then show "cs = []" by simp
qed (simp add: normalize_candidates_def)

lemma normalize_class:
  "(\<forall>c\<in>set (normalize_candidates cs). is_live c \<and> is_mp4 c)
   \<or> (\<forall>c\<in>set (normalize_candidates cs). is_live c \<and> \<not> is_mp4 c)
   \<or> (\<forall>c\<in>set (normalize_candidates cs). \<not> is_live c)"
  by (cases cs rule: normalize_cases) auto

text \<open>What is kept is the best candidate of its container and quality.\<close>

lemma dedup_sorted_best:
  assumes "c \<in> set (dedup_by candidate_key {} (stable_sort by_priority cs))"
    and "d \<in> set cs" and "candidate_key d = candidate_key c"
  shows "sc_priority d \<le> sc_priority c"
proof -
  from assms(1) have "List.find (\<lambda>y. candidate_key y = candidate_key c) (stable_sort by_priority cs) = Some c"
    by (rule dedup_by_first)
  then have "\<not> by_priority d c"
    using assms(2,3) prio.find_least [OF prio.ordered_stable_sort] by simp
  then show ?thesis by (simp add: by_priority_def)
qed

lemma normalize_best:
  assumes "c \<in> set (normalize_candidates cs)" and "d \<in> set cs" and "candidate_key d = candidate_key c"
  shows "sc_priority d \<le> sc_priority c"
  using assms subseq_set [OF normalize_subseq] by (blast intro: dedup_sorted_best)

lemma dedup_sorted_rep:
  "d \<in> set cs \<Longrightarrow> \<exists>c\<in>set (dedup_by candidate_key {} (stable_sort by_priority cs)).
     candidate_key c = candidate_key d"
  using dedup_by_keys [of candidate_key "{}" "stable_sort by_priority cs"] by (simp add: set_eq_iff image_iff) metis

text \<open>
  A live candidate is lost when one that is not live, of the same container and quality,
  has at least its priority. Where priorities put live candidates first, a live
  candidate in the input means that only live ones remain.
\<close>

definition live_first :: "stream_candidate list \<Rightarrow> bool" where
  "live_first cs \<longleftrightarrow> (\<forall>c\<in>set cs. \<forall>d\<in>set cs.
     is_live c \<and> \<not> is_live d \<and> candidate_key c = candidate_key d \<longrightarrow> sc_priority d < sc_priority c)"

lemma normalize_keeps_live:
  assumes "live_first cs" and "c \<in> set cs" and "is_live c"
  shows "\<forall>d\<in>set (normalize_candidates cs). is_live d"
proof -
  let ?d = "dedup_by candidate_key {} (stable_sort by_priority cs)"
  obtain d where d: "d \<in> set ?d" "candidate_key d = candidate_key c"
    using dedup_sorted_rep [OF assms(2)] by blast
  moreover have "d \<in> set cs" using d(1) dedup_by_set by fastforce
  ultimately have "is_live d"
    using dedup_sorted_best [OF d(1) assms(2)] assms unfolding live_first_def
    by (metis not_less)
  with d(1) show ?thesis by (cases cs rule: normalize_cases) auto
qed

section \<open>The preferred stream\<close>

text \<open>Rank of a candidate: live 720p MP4, live MP4, direct, other.\<close>

definition stream_rank :: "stream_candidate \<Rightarrow> nat" where
  "stream_rank c =
     (if is_live c \<and> is_mp4 c then (if equal_fold (sc_quality c) ''720p'' then 3 else 2)
      else if sc_direct c then 1 else 0)"

definition reason_of :: "stream_candidate \<Rightarrow> string" where
  "reason_of c =
     (if stream_rank c = 3 then ''preferred_720p_direct_mp4''
      else if stream_rank c = 2 then ''preferred_direct_mp4''
      else if stream_rank c = 1 then ''preferred_direct_fallback''
      else ''highest_ranked_candidate'')"

definition best_stream :: "stream_candidate list \<Rightarrow> stream_candidate option" where
  "best_stream cs =
     (case List.find (\<lambda>c. stream_rank c = 3) cs of Some c \<Rightarrow> Some c | None \<Rightarrow>
      (case List.find (\<lambda>c. stream_rank c = 2) cs of Some c \<Rightarrow> Some c | None \<Rightarrow>
       (case List.find (\<lambda>c. stream_rank c = 1) cs of Some c \<Rightarrow> Some c | None \<Rightarrow>
        (case cs of [] \<Rightarrow> None | c # _ \<Rightarrow> Some c))))"

lemma rank_le_3: "stream_rank c \<le> 3"
  by (simp add: stream_rank_def)

lemma best_stream_None [simp]: "best_stream cs = None \<longleftrightarrow> cs = []"
  by (auto simp: best_stream_def split: option.splits list.splits)

lemma best_stream_mem: "best_stream cs = Some p \<Longrightarrow> p \<in> set cs"
  by (auto simp: best_stream_def split: option.splits list.splits dest: find_SomeD)

lemma best_stream_best:
  assumes "best_stream cs = Some p" and "ordered_by by_priority cs" and "c \<in> set cs"
  shows "stream_rank c < stream_rank p \<or> stream_rank c = stream_rank p \<and> sc_priority c \<le> sc_priority p"
proof -
  have best: "sc_priority c \<le> sc_priority p"
    if "List.find (\<lambda>c. stream_rank c = k) cs = Some p" "stream_rank c = k" for k
    using prio.find_least [OF assms(2) that(1) assms(3)] that(2) by (simp add: by_priority_def)
  have rank: "stream_rank p = k" if "List.find (\<lambda>c. stream_rank c = k) cs = Some p" for k
    using find_SomeD [OF that] by simp
  consider (r3) "List.find (\<lambda>c. stream_rank c = 3) cs = Some p"
    | (r2) "\<forall>x\<in>set cs. stream_rank x \<noteq> 3" "List.find (\<lambda>c. stream_rank c = 2) cs = Some p"
    | (r1) "\<forall>x\<in>set cs. stream_rank x \<noteq> 3 \<and> stream_rank x \<noteq> 2"
        "List.find (\<lambda>c. stream_rank c = 1) cs = Some p"
    | (r0) "\<forall>x\<in>set cs. stream_rank x \<noteq> 3 \<and> stream_rank x \<noteq> 2 \<and> stream_rank x \<noteq> 1"
        "\<exists>t. cs = p # t"
    using assms(1) by (auto simp: best_stream_def find_None split: option.splits list.splits)
  then show ?thesis
  proof cases
    case r3
    then show ?thesis using best rank rank_le_3 [of c] by (cases "stream_rank c = 3") force+
  next
    case r2
    moreover from this have "stream_rank c < 2 \<or> stream_rank c = 2" using assms(3) rank_le_3 [of c] by force
    ultimately show ?thesis using best rank by auto
  next
    case r1
    moreover from this have "stream_rank c < 1 \<or> stream_rank c = 1" using assms(3) rank_le_3 [of c]
      by (metis One_nat_def le_neq_implies_less less_Suc_eq_le numeral_2_eq_2 numeral_3_eq_3)
    ultimately show ?thesis using best rank by auto
  next
    case r0
    then obtain t where t: "cs = p # t" by blast
    have z: "stream_rank x = 0" if "x \<in> set cs" for x
      using r0(1) that rank_le_3 [of x]
      by (metis One_nat_def le_neq_implies_less less_Suc_eq_le numeral_2_eq_2 numeral_3_eq_3 less_one)
    have "stream_rank c = 0" "stream_rank p = 0" using z [OF assms(3)] z [of p] t by simp_all
    moreover have "sc_priority c \<le> sc_priority p"
      using assms(2,3) t by (auto simp: by_priority_def not_less)
    ultimately show ?thesis by simp
  qed
qed

lemma build_result_eq:
  "build_result srt pn ep raw =
     (let cs = srt by_priority (normalize_candidates raw)
      in \<lparr>sr_episode_id = ep, sr_preferred = best_stream cs, sr_candidates = cs,
          sr_reason = (case best_stream cs of None \<Rightarrow> ''preferred_direct_mp4'' | Some p \<Rightarrow> reason_of p),
          sr_provider = pn\<rparr>)"
proof -
  define cs where "cs = srt by_priority (normalize_candidates raw)"
  have r3: "(\<lambda>c. is_live c \<and> is_mp4 c \<and> equal_fold (sc_quality c) ''720p'') = (\<lambda>c. stream_rank c = 3)"
    by (auto simp: stream_rank_def fun_eq_iff)
  have r2: "List.find (\<lambda>c. is_live c \<and> is_mp4 c) cs = List.find (\<lambda>c. stream_rank c = 2) cs"
    if "List.find (\<lambda>c. stream_rank c = 3) cs = None"
    using that by (intro find_cong_set) (auto simp: find_None stream_rank_def)
  have r1: "List.find sc_direct cs = List.find (\<lambda>c. stream_rank c = 1) cs"
    if "List.find (\<lambda>c. stream_rank c = 3) cs = None" "List.find (\<lambda>c. stream_rank c = 2) cs = None"
    using that by (intro find_cong_set) (auto simp: find_None stream_rank_def split: if_splits)
  note unf = build_result_def cs_def [symmetric] Let_def pick_preferred_stream_def r3
  show ?thesis
  proof (cases "List.find (\<lambda>c. stream_rank c = 3) cs")
    case (Some p)
    then show ?thesis using find_SomeD [OF Some] by (simp add: unf best_stream_def reason_of_def)
  next
    case n3: None
    show ?thesis
    proof (cases "List.find (\<lambda>c. stream_rank c = 2) cs")
      case (Some p)
      then show ?thesis using find_SomeD [OF Some]
        by (simp add: unf n3 r2 best_stream_def reason_of_def)
    next
      case n2: None
      show ?thesis
      proof (cases "List.find (\<lambda>c. stream_rank c = 1) cs")
        case (Some p)
        then show ?thesis using find_SomeD [OF Some]
          by (simp add: unf n3 r2 n2 r1 best_stream_def reason_of_def)
      next
        case n1: None
        have b: "best_stream cs = (case cs of [] \<Rightarrow> None | c # _ \<Rightarrow> Some c)"
          using n1 by (simp add: best_stream_def n3 n2)
        have "stream_rank c = 0" if "cs = c # t" for c t
          using n3 n2 n1 that by (auto simp: stream_rank_def split: if_splits)
        then show ?thesis using n1
          by (simp add: unf n3 r2 n2 r1 b reason_of_def split: list.split)
      qed
    qed
  qed
qed

section \<open>The service\<close>

lemma from_memory_unexpired:
  "result (from_memory s key force now) w = Some v \<Longrightarrow> \<not> force \<and> \<not> result_is_expired now v"
  by (auto simp: from_memory_def split: option.splits cached.splits if_splits)

lemma from_store_unexpired:
  "result (from_store s key ep force now) w = Some v \<Longrightarrow> \<not> force \<and> \<not> result_is_expired now v"
  by (auto simp: from_store_def split: option.splits sum.splits if_splits)

lemma fresh_result_Inr:
  "result (fresh_result s key ep) w = Inr v \<Longrightarrow>
     \<exists>cs. result (ss_candidates s ep) w = Inr cs \<and> v = build_result (ss_sort s) (ss_provider_name s) ep cs"
  by (auto simp: fresh_result_def Let_def split: sum.splits)

lemma fresh_result_error:
  "result (ss_candidates s ep) w = Inl err \<Longrightarrow>
     run_state (fresh_result s key ep) w = (Inl err, after (ss_candidates s ep) w)"
  by (simp add: fresh_result_def)

lemma resolve_Inr:
  assumes "result (resolve s ep force) w = Inr v"
  shows "\<not> force \<and> \<not> result_is_expired (result (ss_clock s) w) v
    \<or> (\<exists>w1 cs. result (ss_candidates s ep) w1 = Inr cs
          \<and> v = build_result (ss_sort s) (ss_provider_name s) ep cs)"
  using assms
  by (auto simp: resolve_def dest!: from_memory_unexpired from_store_unexpired fresh_result_Inr
      split: option.splits)

lemma refresh_eq:
  "stream_refresh s ep = do { now \<leftarrow> ss_clock s; fresh_result s (stream_key ep) ep }"
  by (rule state_ext) (simp add: stream_refresh_def resolve_def from_memory_def from_store_def)

text \<open>
  What a sequence of calls relies on: the cache is a map at every instant, and neither
  the clock nor the database touches it.
\<close>

locale stream_world = ttl_store "ss_cache s" view
  for s :: "'w stream_svc" and view :: "'w \<Rightarrow> string \<rightharpoonup> cached" +
  assumes clock_view: "view (after (ss_clock s) w) = view w"
    and upsert_view: "ss_store s = Some st \<Longrightarrow> view (after (st_upsert st ep r e) w) = view w"
    and delete_row_view: "ss_store s = Some st \<Longrightarrow> view (after (st_delete st ep) w) = view w"
begin

lemma persist_view:
  "view (after (persist s key ep r) w) = (view w)(key \<mapsto> CStream r)"
  by (auto simp: persist_def cache_set_def set_view clock_view upsert_view
      less_imp_le [OF memory_ttl_pos] split: option.splits)

lemma invalidate_view:
  "view (after (stream_invalidate s ep) w) = (view w)(stream_key ep := None)"
  by (auto simp: stream_invalidate_def cache_delete_def delete_view delete_row_view
      split: option.splits)

lemma fresh_then_cached:
  assumes "result (fresh_result s key ep) w = Inr v"
  shows "view (after (fresh_result s key ep) w) key = Some (CStream v)"
  using assms by (auto simp: fresh_result_def Let_def persist_view split: sum.splits)

lemma cached_hit:
  assumes "view w (stream_key ep) = Some (CStream v)"
    and "\<not> result_is_expired (result (ss_clock s) w) v"
  shows "result (resolve s ep False) w = Inr v"
  using assms
  by (simp add: resolve_def from_memory_def Let_def get_result clock_view)

lemma refresh_then_resolve:
  assumes "result (stream_refresh s ep) w = Inr v"
    and "\<not> result_is_expired (result (ss_clock s) (after (stream_refresh s ep) w)) v"
  shows "result (stream_resolve s ep) (after (stream_refresh s ep) w) = Inr v"
proof -
  have "view (after (stream_refresh s ep) w) (stream_key ep) = Some (CStream v)"
    using assms(1) by (simp add: refresh_eq fresh_then_cached)
  then show ?thesis unfolding stream_resolve_def using assms(2) by (rule cached_hit)
qed

lemma invalidate_forgets:
  "result (from_memory s (stream_key ep) force now) (after (stream_invalidate s ep) w) = None"
  by (simp add: from_memory_def get_result invalidate_view)

end

text \<open>
  A reference service: the reference cache, a constant list of candidates, no database.
\<close>

definition ref_stream_svc :: "string + stream_candidate list \<Rightarrow> ref_cache stream_svc" where
  "ref_stream_svc cs =
     \<lparr>ss_clock = State (\<lambda>w. (rc_clock w, w)), ss_provider_name = ''ref'',
      ss_candidates = (\<lambda>_. pass cs), ss_cache = ref_cache_ops, ss_store = None,
      ss_ttl = 3600 * second, ss_sort = stable_sort\<rparr>"

interpretation ref_stream: stream_world "ref_stream_svc cs" rc_view for cs
  unfolding stream_world_def stream_world_axioms_def
  by (simp add: ref_stream_svc_def ref_cache.ttl_store_axioms)

section \<open>Properties\<close>

definition sample_candidate :: "string \<Rightarrow> string \<Rightarrow> string \<Rightarrow> bool \<Rightarrow> int \<Rightarrow> stream_candidate" where
  "sample_candidate u container quality direct prio =
     \<lparr>sc_url = u, sc_container = container, sc_quality = quality, sc_codec = [],
      sc_direct = direct, sc_playable = direct, sc_priority = prio, sc_label = []\<rparr>"

text \<open>
  The candidates that survive normalisation are candidates of the provider, at most
  one per container and quality, in descending priority; some survive whenever there are
  any; and they are all live MP4 streams, or all live streams none of which is MP4, or
  none is live.
\<close>

theorem normalize_candidates_sound:
  "set (normalize_candidates cs) \<subseteq> set cs
   \<and> distinct (map candidate_key (normalize_candidates cs))
   \<and> ordered_by by_priority (normalize_candidates cs)
   \<and> (normalize_candidates cs = [] \<longleftrightarrow> cs = [])
   \<and> (list_all (\<lambda>c. is_live c \<and> is_mp4 c) (normalize_candidates cs)
      \<or> list_all (\<lambda>c. is_live c \<and> \<not> is_mp4 c) (normalize_candidates cs)
      \<or> list_all (\<lambda>c. \<not> is_live c) (normalize_candidates cs))"
  using normalize_class [of cs]
  by (simp add: normalize_set normalize_distinct normalize_ordered list_all_iff)

text \<open>
  C23. A fresh result prefers a stream whenever the provider offers any candidate; the
  preferred stream is one of the candidates returned to the client, no other candidate
  is of a better class (live 720p MP4, live MP4, direct, other) or of the same class
  with a higher priority, and the reason given to the client names its class.
\<close>

theorem preferred_stream_best:
  assumes "slice_sort srt" and "raw \<noteq> []"
  shows "\<exists>p. sr_preferred (build_result srt pn ep raw) = Some p
    \<and> p \<in> set (sr_candidates (build_result srt pn ep raw)) \<and> p \<in> set raw
    \<and> sr_reason (build_result srt pn ep raw) = reason_of p
    \<and> (\<forall>c\<in>set (sr_candidates (build_result srt pn ep raw)).
         stream_rank c < stream_rank p
         \<or> stream_rank c = stream_rank p \<and> sc_priority c \<le> sc_priority p)"
proof -
  note srt = slice_sort.sort_ordered [OF assms(1) prio.weak_order_axioms]
    slice_sort.sort_set [OF assms(1) prio.weak_order_axioms]
    slice_sort.sort_Nil [OF assms(1) prio.weak_order_axioms]
  let ?cs = "srt by_priority (normalize_candidates raw)"
  have "?cs \<noteq> []" using assms(2) by (simp add: srt(3))
  then obtain p where p: "best_stream ?cs = Some p" by (cases "best_stream ?cs") auto
  then have "p \<in> set ?cs" by (rule best_stream_mem)
  moreover from this have "p \<in> set raw" using normalize_set by (auto simp: srt(2))
  ultimately show ?thesis
    using best_stream_best [OF p srt(1)] by (simp add: build_result_eq Let_def p)
qed

theorem preferred_stream_best_witness:
  "sr_preferred (build_result stable_sort ''p'' ''e''
     [sample_candidate ''u1'' ''mp4'' ''480p'' True 160, sample_candidate ''u2'' ''MP4'' ''720p'' True 150])
   = Some (sample_candidate ''u2'' ''MP4'' ''720p'' True 150)"
proof -
  let ?raw = "[sample_candidate ''u1'' ''mp4'' ''480p'' True 160, sample_candidate ''u2'' ''MP4'' ''720p'' True 150]"
  have ranks: "stream_rank (sample_candidate ''u1'' ''mp4'' ''480p'' True 160) = 2"
    "stream_rank (sample_candidate ''u2'' ''MP4'' ''720p'' True 150) = 3" by code_simp+
  have cs: "set (sr_candidates (build_result stable_sort ''p'' ''e'' ?raw)) = set ?raw" by code_simp
  obtain p where "sr_preferred (build_result stable_sort ''p'' ''e'' ?raw) = Some p" "p \<in> set ?raw"
    "\<forall>c\<in>set (sr_candidates (build_result stable_sort ''p'' ''e'' ?raw)).
         stream_rank c < stream_rank p \<or> stream_rank c = stream_rank p \<and> sc_priority c \<le> sc_priority p"
    using preferred_stream_best [OF stable.slice_sort_axioms, of ?raw "''p''" "''e''"] by auto
  then show ?thesis unfolding cs using ranks by auto
qed

text \<open>
  What is put in the memory cache never outlives its signed URLs: the TTL is
  positive, at most the configured TTL (or the floor of one second), and ends no later
  than five minutes before the first signature expires unless it is that floor.
\<close>

theorem memory_ttl_within_signature:
  assumes "now \<le> later" and "0 < fallback"
  shows "0 < stream_memory_ttl later now r fallback
    \<and> stream_memory_ttl later now r fallback \<le> max second fallback
    \<and> (second < stream_memory_ttl later now r fallback
         \<longrightarrow> (\<forall>d\<in>deadlines r. now + stream_memory_ttl later now r fallback \<le> d))"
proof -
  let ?t = "stream_memory_ttl later now r fallback"
  have "\<forall>d\<in>deadlines r. now + ?t \<le> d" if "second < ?t"
    using memory_ttl_bound [OF assms(1), of r fallback] that
    by (cases r now rule: result_expires_at_cases) force+
  with memory_ttl_pos memory_ttl_fallback [OF assms(2)] show ?thesis by blast
qed

definition sample_result :: "string \<Rightarrow> stream_result" where
  "sample_result u =
     \<lparr>sr_episode_id = ''e'', sr_preferred = None,
      sr_candidates = [sample_candidate u ''mp4'' ''720p'' True 150],
      sr_reason = [], sr_provider = []\<rparr>"

theorem memory_ttl_within_signature_witness:
  "stream_memory_ttl (1704067200 * second) (1704067200 * second)
     (sample_result ''https://a.my.id/v.mp4?X-Amz-Date=20240101T000000Z&X-Amz-Expires=3600'')
     (21600 * second) = 3300 * second"
proof -
  let ?r = "sample_result ''https://a.my.id/v.mp4?X-Amz-Date=20240101T000000Z&X-Amz-Expires=3600''"
  let ?t = "stream_memory_ttl (1704067200 * second) (1704067200 * second) ?r (21600 * second)"
  have t: "?t = 3300 * second" by code_simp
  have "0 < 21600 * second" by (simp add: second_def)
  then show ?thesis
    using memory_ttl_within_signature [OF order_refl, of "21600 * second" "1704067200 * second" ?r] t
    by blast
qed






end
