(* ===== verification/Blob_Stores.thy ===== *)
theory Blob_Stores
  imports World
begin

text \<open>
  The blob stores of \<open>internal/mediacache\<close>: the file system, an S3 bucket, and the two
  in tiers. The operating system and the S3 client are records of operations; the locale
  \<open>blob_map\<close> states what the media cache relies on, and each store is shown to provide
  it from the laws of what it is built on.
\<close>

record 'w blob_store =
  bl_put :: "string \<Rightarrow> bytes \<Rightarrow> ('w, string option) eff"
  bl_get :: "string \<Rightarrow> ('w, string + bytes) eff"

text \<open>
  On the keys that are \<open>ok\<close> the store is a map: a successful write is read back, and no
  operation disturbs another key. A failed write leaves its own key in any state.
\<close>

locale blob_map =
  fixes bl :: "'w blob_store"
    and bv :: "'w \<Rightarrow> string \<rightharpoonup> bytes"
    and ok :: "string \<Rightarrow> bool"
  assumes get_hit: "\<lbrakk>ok k; bv w k = Some b\<rbrakk> \<Longrightarrow> result (bl_get bl k) w = Inr b"
    and get_miss: "\<lbrakk>ok k; bv w k = None\<rbrakk> \<Longrightarrow> \<exists>e. result (bl_get bl k) w = Inl e"
    and get_view: "\<lbrakk>ok k; ok k'\<rbrakk> \<Longrightarrow> bv (after (bl_get bl k) w) k' = bv w k'"
    and put_ok: "\<lbrakk>ok k; result (bl_put bl k b) w = None\<rbrakk> \<Longrightarrow> bv (after (bl_put bl k b) w) k = Some b"
    and put_other: "\<lbrakk>ok k; ok k'; k' \<noteq> k\<rbrakk> \<Longrightarrow> bv (after (bl_put bl k b) w) k' = bv w k'"
begin

lemma get_Inr_iff: "ok k \<Longrightarrow> result (bl_get bl k) w = Inr b \<longleftrightarrow> bv w k = Some b"
  using get_hit [of k w] get_miss [of k w] by (cases "bv w k") auto

lemma get_after_put:
  "\<lbrakk>ok k; result (bl_put bl k b) w = None\<rbrakk> \<Longrightarrow>
     result (bl_get bl k) (after (bl_put bl k b) w) = Inr b"
  by (simp add: get_hit put_ok)

end

section \<open>The file system\<close>

record 'w os_files =
  os_mkdir_all :: "string \<Rightarrow> ('w, string option) eff"
  os_write_file :: "string \<Rightarrow> bytes \<Rightarrow> ('w, string option) eff"
  os_read_file :: "string \<Rightarrow> ('w, string + bytes) eff"

definition fs_path :: "string \<Rightarrow> string \<Rightarrow> string" where
  "fs_path base_dir key = path_join base_dir key"

definition path_dir :: "string \<Rightarrow> string" where
  "path_dir p =
     path_clean (case cut_last CHR ''/'' p of None \<Rightarrow> [] | Some (d, _) \<Rightarrow> d @ ''/'')"

definition fs_put :: "'w os_files \<Rightarrow> string \<Rightarrow> string \<Rightarrow> bytes \<Rightarrow> ('w, string option) eff" where
  "fs_put os base_dir key body =
     do { let target_path = fs_path base_dir key;
          made \<leftarrow> os_mkdir_all os (path_dir target_path);
          case made of
            Some err \<Rightarrow> pass (Some err)
          | None \<Rightarrow> os_write_file os target_path body }"

definition fs_get :: "'w os_files \<Rightarrow> string \<Rightarrow> string \<Rightarrow> ('w, string + bytes) eff" where
  "fs_get os base_dir key =
     do { body \<leftarrow> os_read_file os (fs_path base_dir key);
          case body of
            Inl err \<Rightarrow> pass (Inl (''read blob '' @ key @ '': '' @ err))
          | Inr b \<Rightarrow> pass (Inr b) }"

definition fs_blobs :: "'w os_files \<Rightarrow> string \<Rightarrow> 'w blob_store" where
  "fs_blobs os base_dir = \<lparr>bl_put = fs_put os base_dir, bl_get = fs_get os base_dir\<rparr>"

locale file_system =
  fixes os :: "'w os_files"
    and fv :: "'w \<Rightarrow> string \<rightharpoonup> bytes"
  assumes read_hit: "fv w p = Some b \<Longrightarrow> result (os_read_file os p) w = Inr b"
    and read_miss: "fv w p = None \<Longrightarrow> \<exists>e. result (os_read_file os p) w = Inl e"
    and read_view: "fv (after (os_read_file os p) w) = fv w"
    and mkdir_view: "fv (after (os_mkdir_all os p) w) = fv w"
    and write_ok: "result (os_write_file os p b) w = None \<Longrightarrow> fv (after (os_write_file os p b) w) p = Some b"
    and write_other: "p' \<noteq> p \<Longrightarrow> fv (after (os_write_file os p b) w) p' = fv w p'"
begin

lemma fs_get_hit: "fv w (fs_path base k) = Some b \<Longrightarrow> result (fs_get os base k) w = Inr b"
  by (simp add: fs_get_def read_hit)

lemma fs_get_miss: "fv w (fs_path base k) = None \<Longrightarrow> \<exists>e. result (fs_get os base k) w = Inl e"
  using read_miss [of w "fs_path base k"] by (auto simp: fs_get_def)

lemma fs_get_view: "fv (after (fs_get os base k) w) = fv w"
  by (auto simp: fs_get_def read_view split: sum.split)

lemma fs_put_ok:
  "result (fs_put os base k b) w = None \<Longrightarrow> fv (after (fs_put os base k b) w) (fs_path base k) = Some b"
  by (auto simp: fs_put_def write_ok Let_def split: option.splits)

lemma fs_put_sep:
  "fs_path base k \<noteq> fs_path base k' \<Longrightarrow>
     fv (after (fs_put os base k b) w) (fs_path base k') = fv w (fs_path base k')"
  by (auto simp: fs_put_def write_other mkdir_view Let_def split: option.splits)

end

text \<open>Proper keys get distinct paths, so that the files below the base directory are a map of blobs.\<close>

lemma fs_path_inj:
  "\<lbrakk>proper_path k; proper_path k'; k' \<noteq> k\<rbrakk> \<Longrightarrow> fs_path base k \<noteq> fs_path base k'"
  using path_join_inj unfolding fs_path_def by metis

sublocale file_system \<subseteq> fs: blob_map "fs_blobs os base" "\<lambda>w k. fv w (fs_path base k)" proper_path
  by unfold_locales
    (auto simp: fs_blobs_def fs_get_hit fs_get_view fs_put_ok fs_put_sep fs_path_inj dest: fs_get_miss)

section \<open>S3\<close>

record s3_config =
  s3_endpoint_url :: string
  s3_access_key :: string
  s3_secret_key :: string
  s3_bucket_name :: string
  s3_region :: string
  s3_force_path :: bool
  s3_auto_create :: bool

text \<open>The object of \<open>GetObject\<close> is read to its end, which may fail.\<close>

record 'w s3_client =
  s3_put_object :: "string \<Rightarrow> string \<Rightarrow> bytes \<Rightarrow> string \<Rightarrow> ('w, string option) eff"
  s3_get_object :: "string \<Rightarrow> string \<Rightarrow> ('w, string + (string + bytes)) eff"
  s3_head_bucket :: "string \<Rightarrow> ('w, string option) eff"
  s3_create_bucket :: "string \<Rightarrow> ('w, string option) eff"

record 'w s3_store =
  ss3_bucket :: string
  ss3_client :: "'w s3_client option"

definition new_s3_store ::
  "s3_config \<Rightarrow> (s3_config \<Rightarrow> ('w, string + 'w s3_client) eff) \<Rightarrow> ('w, string + 'w s3_store) eff" where
  "new_s3_store cfg factory =
     (if trim_space (s3_bucket_name cfg) = [] then pass (Inl ''dobject bucket is required'')
      else do { made \<leftarrow> factory cfg;
                case made of
                  Inl err \<Rightarrow> pass (Inl err)
                | Inr client \<Rightarrow>
                    let store = \<lparr>ss3_bucket = s3_bucket_name cfg, ss3_client = Some client\<rparr>
                    in if s3_auto_create cfg
                       then do { there \<leftarrow> s3_head_bucket client (s3_bucket_name cfg);
                                 case there of
                                   None \<Rightarrow> pass (Inr store)
                                 | Some _ \<Rightarrow>
                                     do { created \<leftarrow> s3_create_bucket client (s3_bucket_name cfg);
                                          case created of
                                            Some create_err \<Rightarrow> pass (Inl create_err)
                                          | None \<Rightarrow> pass (Inr store) } }
                       else pass (Inr store) })"

definition s3_put :: "'w s3_store option \<Rightarrow> string \<Rightarrow> bytes \<Rightarrow> ('w, string option) eff" where
  "s3_put s key body =
     (case Option.bind s (\<lambda>t. map_option (Pair t) (ss3_client t)) of
        None \<Rightarrow> pass (Some ''s3 store is not configured'')
      | Some (t, client) \<Rightarrow> s3_put_object client (ss3_bucket t) key body ''application/octet-stream'')"

definition s3_get :: "'w s3_store option \<Rightarrow> string \<Rightarrow> ('w, string + bytes) eff" where
  "s3_get s key =
     (case Option.bind s (\<lambda>t. map_option (Pair t) (ss3_client t)) of
        None \<Rightarrow> pass (Inl ''s3 store is not configured'')
      | Some (t, client) \<Rightarrow>
          do { reader \<leftarrow> s3_get_object client (ss3_bucket t) key;
               case reader of
                 Inl err \<Rightarrow> pass (Inl err)
               | Inr (Inl err) \<Rightarrow> pass (Inl err)
               | Inr (Inr body) \<Rightarrow> pass (Inr body) })"

definition s3_blobs :: "'w s3_store option \<Rightarrow> 'w blob_store" where
  "s3_blobs s = \<lparr>bl_put = s3_put s, bl_get = s3_get s\<rparr>"

locale s3_objects =
  fixes client :: "'w s3_client"
    and ov :: "'w \<Rightarrow> string \<Rightarrow> string \<rightharpoonup> bytes"
  assumes object_hit: "ov w bucket k = Some b \<Longrightarrow> result (s3_get_object client bucket k) w = Inr (Inr b)"
    and object_miss: "ov w bucket k = None \<Longrightarrow> \<exists>e. result (s3_get_object client bucket k) w = Inl e"
    and object_view: "ov (after (s3_get_object client bucket k) w) = ov w"
    and put_object: "result (s3_put_object client bucket k b t) w = None \<Longrightarrow>
      ov (after (s3_put_object client bucket k b t) w) bucket k = Some b"
    and put_object_other: "k' \<noteq> k \<Longrightarrow>
      ov (after (s3_put_object client bucket k b t) w) bucket k' = ov w bucket k'"
begin

lemma s3_get_eq:
  "result (s3_get (Some \<lparr>ss3_bucket = bucket, ss3_client = Some client\<rparr>) k) w =
     (case result (s3_get_object client bucket k) w of
        Inr (Inr b) \<Rightarrow> Inr b | Inr (Inl e) \<Rightarrow> Inl e | Inl e \<Rightarrow> Inl e)"
  by (auto simp: s3_get_def split: sum.split)

lemma s3_get_view:
  "ov (after (s3_get (Some \<lparr>ss3_bucket = bucket, ss3_client = Some client\<rparr>) k) w) = ov w"
  by (auto simp: s3_get_def object_view split: sum.split)

end

sublocale s3_objects \<subseteq> s3: blob_map
    "s3_blobs (Some \<lparr>ss3_bucket = bucket, ss3_client = Some client\<rparr>)" "\<lambda>w. ov w bucket" "\<lambda>k. True"
proof (unfold_locales, goal_cases)
  case (2 k w)
  then show ?case using object_miss [OF 2(2)] by (auto simp: s3_blobs_def s3_get_eq)
qed (simp_all add: s3_blobs_def s3_get_eq object_hit s3_get_view s3_put_def put_object put_object_other)

section \<open>Tiers\<close>

record 'w tiered_store =
  ti_local :: "'w blob_store option"
  ti_remote :: "'w blob_store option"

text \<open>The write to the local store after the remote one succeeded; its error is dropped.\<close>

definition local_copy :: "'w blob_store option \<Rightarrow> string \<Rightarrow> bytes \<Rightarrow> ('w, unit) eff" where
  "local_copy l key body =
     (case l of None \<Rightarrow> pass () | Some bl \<Rightarrow> do { bl_put bl key body; pass () })"

definition tiered_put :: "'w tiered_store option \<Rightarrow> string \<Rightarrow> bytes \<Rightarrow> ('w, string option) eff" where
  "tiered_put s key body =
     (case s of
        None \<Rightarrow> pass None
      | Some t \<Rightarrow>
          (case ti_remote t of
             None \<Rightarrow> do { local_copy (ti_local t) key body; pass None }
           | Some r \<Rightarrow>
               do { err \<leftarrow> bl_put r key body;
                    case err of
                      Some e \<Rightarrow> pass (Some e)
                    | None \<Rightarrow> do { local_copy (ti_local t) key body; pass None } }))"

definition local_hit :: "'w blob_store option \<Rightarrow> string \<Rightarrow> ('w, bytes option) eff" where
  "local_hit l key =
     (case l of
        None \<Rightarrow> pass None
      | Some bl \<Rightarrow> do { body \<leftarrow> bl_get bl key;
                        case body of Inr b \<Rightarrow> pass (Some b) | Inl _ \<Rightarrow> pass None })"

text \<open>A nil body is the empty list of bytes.\<close>

definition tiered_get :: "'w tiered_store option \<Rightarrow> string \<Rightarrow> ('w, string + bytes) eff" where
  "tiered_get s key =
     (case s of
        None \<Rightarrow> pass (Inr [])
      | Some t \<Rightarrow>
          do { hit \<leftarrow> local_hit (ti_local t) key;
               case hit of
                 Some b \<Rightarrow> pass (Inr b)
               | None \<Rightarrow>
                   (case ti_remote t of
                      None \<Rightarrow> pass (Inr [])
                    | Some r \<Rightarrow>
                        do { body \<leftarrow> bl_get r key;
                             case body of
                               Inl err \<Rightarrow> pass (Inl err)
                             | Inr b \<Rightarrow> do { local_copy (ti_local t) key b; pass (Inr b) } }) })"

definition tiered_blobs :: "'w tiered_store option \<Rightarrow> 'w blob_store" where
  "tiered_blobs s = \<lparr>bl_put = tiered_put s, bl_get = tiered_get s\<rparr>"

text \<open>
  Two stores that do not disturb each other, the local one never failing a write, make a
  tiered store that is a map again: the local blob if there is one, else the remote one.
\<close>

definition tier_view :: "('w \<Rightarrow> string \<rightharpoonup> bytes) \<Rightarrow> ('w \<Rightarrow> string \<rightharpoonup> bytes) \<Rightarrow> 'w \<Rightarrow> string \<rightharpoonup> bytes" where
  "tier_view lv rv w k = (case lv w k of Some b \<Rightarrow> Some b | None \<Rightarrow> rv w k)"

locale tiered_pair =
  loc: blob_map l lv lok + rem: blob_map r rv rok
  for l r :: "'w blob_store" and lv rv lok rok +
  assumes put_local: "rv (after (bl_put l k b) w) = rv w"
    and get_local: "rv (after (bl_get l k) w) = rv w"
    and put_remote: "lv (after (bl_put r k b) w) = lv w"
    and get_remote: "lv (after (bl_get r k) w) = lv w"
    and local_put_ok: "lok k \<Longrightarrow> result (bl_put l k b) w = None"
begin

lemma local_hit_result: "lok k \<Longrightarrow> result (local_hit (Some l) k) w = lv w k"
  using loc.get_hit [of k w] loc.get_miss [of k w]
  by (cases "lv w k") (auto simp: local_hit_def split: sum.split)

lemma local_hit_views:
  "\<lbrakk>lok k; lok k'\<rbrakk> \<Longrightarrow> lv (after (local_hit (Some l) k) w) k' = lv w k'"
  "rv (after (local_hit (Some l) k) w) = rv w"
  by (auto simp: local_hit_def loc.get_view get_local split: sum.split)

lemma local_copy_views:
  "\<lbrakk>lok k; lok k'\<rbrakk> \<Longrightarrow> lv (after (local_copy (Some l) k b) w) k' = (if k' = k then Some b else lv w k')"
  "rv (after (local_copy (Some l) k b) w) = rv w"
  using loc.put_ok [OF _ local_put_ok] loc.put_other
  by (auto simp: local_copy_def put_local)

lemma tiered_get_result:
  "lok k \<Longrightarrow> result (tiered_get (Some \<lparr>ti_local = Some l, ti_remote = Some r\<rparr>) k) w =
     (case lv w k of
        Some b \<Rightarrow> Inr b
      | None \<Rightarrow> result (bl_get r k) (after (local_hit (Some l) k) w))"
  by (auto simp: tiered_get_def local_hit_result split: option.split sum.split)

lemma tiered_get_views:
  "\<lbrakk>lok k; rok k; lok k'; rok k'\<rbrakk> \<Longrightarrow>
     tier_view lv rv (after (tiered_get (Some \<lparr>ti_local = Some l, ti_remote = Some r\<rparr>) k) w) k'
       = tier_view lv rv w k'"
  using rem.get_Inr_iff [of k "after (local_hit (Some l) k) w"]
  by (auto simp: tiered_get_def tier_view_def local_hit_result local_hit_views
      local_copy_views get_remote rem.get_view split: option.split sum.split)

lemma tiered_put_ok:
  "\<lbrakk>lok k; result (tiered_put (Some \<lparr>ti_local = Some l, ti_remote = Some r\<rparr>) k b) w = None\<rbrakk> \<Longrightarrow>
     tier_view lv rv (after (tiered_put (Some \<lparr>ti_local = Some l, ti_remote = Some r\<rparr>) k b) w) k = Some b"
  by (auto simp: tiered_put_def tier_view_def local_copy_views split: option.splits)

lemma tiered_put_other:
  "\<lbrakk>lok k; rok k; lok k'; rok k'; k' \<noteq> k\<rbrakk> \<Longrightarrow>
     tier_view lv rv (after (tiered_put (Some \<lparr>ti_local = Some l, ti_remote = Some r\<rparr>) k b) w) k'
       = tier_view lv rv w k'"
  by (auto simp: tiered_put_def tier_view_def local_copy_views put_remote rem.put_other split: option.splits)

lemma tiered_get_miss:
  assumes "lok k" and "rok k" and "tier_view lv rv w k = None"
  shows "\<exists>e. result (tiered_get (Some \<lparr>ti_local = Some l, ti_remote = Some r\<rparr>) k) w = Inl e"
proof -
  from assms have "lv w k = None" "rv w k = None" by (auto simp: tier_view_def split: option.splits)
  then show ?thesis using assms rem.get_miss by (simp add: tiered_get_result local_hit_views)
qed

end

sublocale tiered_pair \<subseteq> tier: blob_map "tiered_blobs (Some \<lparr>ti_local = Some l, ti_remote = Some r\<rparr>)"
    "tier_view lv rv" "\<lambda>k. lok k \<and> rok k"
proof (unfold_locales, goal_cases)
  case (1 k w b)
  then show ?case
    by (auto simp: tiered_blobs_def tiered_get_result tier_view_def local_hit_views rem.get_hit
        split: option.splits)
qed (use tiered_get_miss tiered_get_views tiered_put_ok tiered_put_other in \<open>simp_all add: tiered_blobs_def\<close>)

context tiered_pair
begin

lemma tier_is_map:
  "blob_map (tiered_blobs (Some \<lparr>ti_local = Some l, ti_remote = Some r\<rparr>))
    (tier_view lv rv) (\<lambda>k. lok k \<and> rok k)"
  by (rule tier.blob_map_axioms)

end

section \<open>A reference disk and bucket\<close>

record ref_disk =
  rd_files :: "string \<rightharpoonup> bytes"
  rd_objects :: "string \<Rightarrow> string \<rightharpoonup> bytes"

definition ref_os :: "'a ref_disk_scheme os_files" where
  "ref_os =
     \<lparr>os_mkdir_all = (\<lambda>p. pass None),
      os_write_file = (\<lambda>p b. State (\<lambda>s. (None, s\<lparr>rd_files := (rd_files s)(p \<mapsto> b)\<rparr>))),
      os_read_file = (\<lambda>p. State (\<lambda>s. (case rd_files s p of Some b \<Rightarrow> Inr b | None \<Rightarrow> Inl ''no such file'', s)))\<rparr>"

definition ref_s3 :: "'a ref_disk_scheme s3_client" where
  "ref_s3 =
     \<lparr>s3_put_object = (\<lambda>bucket k b t. State (\<lambda>s.
        (None, s\<lparr>rd_objects := (rd_objects s)(bucket := (rd_objects s bucket)(k \<mapsto> b))\<rparr>))),
      s3_get_object = (\<lambda>bucket k. State (\<lambda>s.
        (case rd_objects s bucket k of Some b \<Rightarrow> Inr (Inr b) | None \<Rightarrow> Inl ''NoSuchKey'', s))),
      s3_head_bucket = (\<lambda>bucket. pass None), s3_create_bucket = (\<lambda>bucket. pass None)\<rparr>"

interpretation ref_files: file_system ref_os rd_files
  by unfold_locales (auto simp: ref_os_def)

interpretation ref_bucket: s3_objects ref_s3 rd_objects
  by unfold_locales (auto simp: ref_s3_def)

definition ref_local :: "'a ref_disk_scheme blob_store" where
  "ref_local = fs_blobs ref_os ''data''"

definition ref_remote :: "'a ref_disk_scheme blob_store" where
  "ref_remote = s3_blobs (Some \<lparr>ss3_bucket = ''b'', ss3_client = Some ref_s3\<rparr>)"

interpretation ref_tiers: tiered_pair ref_local ref_remote
    "\<lambda>s k. rd_files s (fs_path ''data'' k)" "\<lambda>s. rd_objects s ''b''" proper_path "\<lambda>k. True"
  unfolding ref_local_def ref_remote_def
  by unfold_locales
    (auto simp: ref_os_def ref_s3_def fs_blobs_def fs_put_def fs_get_def s3_blobs_def
      s3_put_def s3_get_def Let_def fun_eq_iff split: option.splits)

end
