(* ===== verification/Go_Sha1.thy ===== *)
theory Go_Sha1
  imports Go_Strings
begin

text \<open>
  Go's \<open>sha1.Sum\<close> followed by \<open>hex.EncodeToString\<close>, which name the cached chunks:
  the hash of FIPS 180-4 on 32-bit words, and the lower-case hexadecimal digits of a
  byte string.
\<close>

unbundle bit_operations_syntax

type_synonym u32 = "32 word"

fun words_of :: "int list \<Rightarrow> u32 list" where
  "words_of (a # b # c # d # bs) =
     word_of_int (((a * 256 + b) * 256 + c) * 256 + d) # words_of bs"
| "words_of _ = []"

definition be_bytes :: "nat \<Rightarrow> int \<Rightarrow> int list" where
  "be_bytes k n = map (\<lambda>i. n div 256 ^ i mod 256) (rev [0..<k])"

definition sha1_pad :: "int list \<Rightarrow> int list" where
  "sha1_pad m =
     m @ [128] @ replicate ((119 - length m mod 64) mod 64) 0 @ be_bytes 8 (8 * int (length m))"

definition rotl :: "nat \<Rightarrow> u32 \<Rightarrow> u32" where
  "rotl n w = push_bit n w OR drop_bit (32 - n) w"

text \<open>The message schedule, newest word first.\<close>

fun extend_rev :: "nat \<Rightarrow> u32 list \<Rightarrow> u32 list" where
  "extend_rev 0 ws = ws"
| "extend_rev (Suc n) ws =
     extend_rev n (rotl 1 (ws ! 2 XOR ws ! 7 XOR ws ! 13 XOR ws ! 15) # ws)"

definition sha1_f :: "nat \<Rightarrow> u32 \<Rightarrow> u32 \<Rightarrow> u32 \<Rightarrow> u32" where
  "sha1_f t b c d =
     (if t < 20 then (b AND c) OR (NOT b AND d)
      else if t < 40 then b XOR c XOR d
      else if t < 60 then (b AND c) OR (b AND d) OR (c AND d)
      else b XOR c XOR d)"

definition sha1_k :: "nat \<Rightarrow> u32" where
  "sha1_k t = (if t < 20 then 0x5A827999 else if t < 40 then 0x6ED9EBA1
               else if t < 60 then 0x8F1BBCDC else 0xCA62C1D6)"

type_synonym sha1_state = "u32 \<times> u32 \<times> u32 \<times> u32 \<times> u32"

fun sha1_rounds :: "nat \<Rightarrow> u32 list \<Rightarrow> sha1_state \<Rightarrow> sha1_state" where
  "sha1_rounds t [] s = s"
| "sha1_rounds t (w # ws) (a, b, c, d, e) =
     sha1_rounds (Suc t) ws
       (rotl 5 a + sha1_f t b c d + e + sha1_k t + w, a, rotl 30 b, c, d)"

definition sha1_block :: "u32 list \<Rightarrow> sha1_state \<Rightarrow> sha1_state" where
  "sha1_block ws h =
     (case (h, sha1_rounds 0 (rev (extend_rev 64 (rev ws))) h) of
        ((a, b, c, d, e), (a', b', c', d', e')) \<Rightarrow> (a + a', b + b', c + c', d + d', e + e'))"

fun sha1_fuel :: "nat \<Rightarrow> u32 list \<Rightarrow> sha1_state \<Rightarrow> sha1_state" where
  "sha1_fuel 0 ws h = h"
| "sha1_fuel (Suc n) ws h = sha1_fuel n (drop 16 ws) (sha1_block (take 16 ws) h)"

definition sha1_init :: sha1_state where
  "sha1_init = (0x67452301, 0xEFCDAB89, 0x98BADCFE, 0x10325476, 0xC3D2E1F0)"

definition hex_digit :: "int \<Rightarrow> char" where
  "hex_digit n = ''0123456789abcdef'' ! nat n"

definition hex_byte :: "int \<Rightarrow> string" where
  "hex_byte n = [hex_digit (n div 16 mod 16), hex_digit (n mod 16)]"

definition hex_word :: "u32 \<Rightarrow> string" where
  "hex_word w = concat (map hex_byte (be_bytes 4 (uint w)))"

definition sha1_hex :: "string \<Rightarrow> string" where
  "sha1_hex s =
     (let ws = words_of (sha1_pad (map of_char s))
      in case sha1_fuel (length ws div 16) ws sha1_init of
           (a, b, c, d, e) \<Rightarrow> hex_word a @ hex_word b @ hex_word c @ hex_word d @ hex_word e)"

lemma be_bytes_length: "length (be_bytes k n) = k"
  by (simp add: be_bytes_def)

lemma concat_hex_length: "length (concat (map hex_byte bs)) = 2 * length bs"
  by (induction bs) (simp_all add: hex_byte_def)

lemma hex_word_length: "length (hex_word w) = 8"
  by (simp add: hex_word_def concat_hex_length be_bytes_length)

lemma sha1_hex_words:
  obtains a b c d e where
    "sha1_hex s = hex_word a @ hex_word b @ hex_word c @ hex_word d @ hex_word e"
proof -
  let ?ws = "words_of (sha1_pad (map of_char s))"
  obtain a b c d e where "sha1_fuel (length ?ws div 16) ?ws sha1_init = (a, b, c, d, e)"
    by (rule prod_cases5)
  then have "sha1_hex s = hex_word a @ hex_word b @ hex_word c @ hex_word d @ hex_word e"
    unfolding sha1_hex_def Let_def by (simp only: prod.case)
  then show thesis by (rule that)
qed

lemma sha1_hex_length: "length (sha1_hex s) = 40"
  by (rule sha1_hex_words [of s]) (simp add: hex_word_length)

lemma hex_digit_set: "\<lbrakk>0 \<le> n; n < 16\<rbrakk> \<Longrightarrow> hex_digit n \<in> set ''0123456789abcdef''"
  unfolding hex_digit_def by (rule nth_mem) simp

lemma hex_byte_set: "set (hex_byte n) \<subseteq> set ''0123456789abcdef''"
  using hex_digit_set [of "n div 16 mod 16"] hex_digit_set [of "n mod 16"]
  unfolding hex_byte_def by (simp only: list.set empty_subsetI insert_subset)

lemma concat_hex_set: "set (concat (map hex_byte bs)) \<subseteq> set ''0123456789abcdef''"
  using hex_byte_set by (auto simp del: list.set)

lemma hex_word_set: "set (hex_word w) \<subseteq> set ''0123456789abcdef''"
  unfolding hex_word_def by (rule concat_hex_set)

lemma sha1_hex_set: "set (sha1_hex s) \<subseteq> set ''0123456789abcdef''"
  by (rule sha1_hex_words [of s]) (simp only: set_append Un_least hex_word_set)

end
