(* ===== verification/Media_Cache.thy ===== *)
theory Media_Cache
  imports Blob_Stores Go_Sha1
begin

text \<open>
  The startup media cache, \<open>internal/mediacache/service.go\<close>: the first and last bytes of
  a video are kept as two blobs with a metadata row, and answer range requests without
  going to the origin. The metadata store, the blob store and the fetcher are interfaces;
  a store that may be nil is an option. The contexts and their timeouts are not
  modelled: a fetch that times out is a fetch that returns an error.
\<close>

section \<open>Keys, ranges and responses\<close>

definition blob_key :: "string \<Rightarrow> string \<Rightarrow> string \<Rightarrow> string" where
  "blob_key ep source_url suf =
     ''startup-media/'' @ ep @ ''/'' @ sha1_hex (ep @ ''|'' @ source_url @ ''|'' @ suf) @ ''.bin''"

definition source_key :: "string \<Rightarrow> string" where
  "source_key raw_url =
     (case url_parse (trim_space raw_url) of
        None \<Rightarrow> trim_space raw_url
      | Some parsed \<Rightarrow>
          let filename = trim_space (path_base (u_path parsed))
          in if filename \<noteq> [] \<and> filename \<noteq> ''.'' \<and> filename \<noteq> ''/'' then to_lower filename
             else to_lower (trim_space (u_path parsed)))"

datatype range_error =
    UnsupportedRange | InvalidRange | InvalidSuffix | InvalidOpen | InvalidBounded
  | BadNumber num_error

definition parse_suffix :: "string \<Rightarrow> int \<Rightarrow> range_error + (int \<times> int \<times> bool)" where
  "parse_suffix p content_len =
     (case parse_int64 p of
        Inl _ \<Rightarrow> Inl InvalidSuffix
      | Inr len \<Rightarrow> if len \<le> 0 \<or> content_len < len then Inl InvalidSuffix
                   else Inr (content_len - len, content_len - 1, False))"

definition parse_open :: "string \<Rightarrow> int \<Rightarrow> range_error + (int \<times> int \<times> bool)" where
  "parse_open p content_len =
     (case parse_int64 p of
        Inl _ \<Rightarrow> Inl InvalidOpen
      | Inr start \<Rightarrow> if start < 0 \<or> content_len \<le> start then Inl InvalidOpen
                     else Inr (start, content_len - 1, True))"

definition parse_bounded :: "string \<Rightarrow> string \<Rightarrow> int \<Rightarrow> range_error + (int \<times> int \<times> bool)" where
  "parse_bounded p q content_len =
     (case parse_int64 p of
        Inl err \<Rightarrow> Inl (BadNumber err)
      | Inr start \<Rightarrow>
          (case parse_int64 q of
             Inl err \<Rightarrow> Inl (BadNumber err)
           | Inr end \<Rightarrow> if start < 0 \<or> end < start \<or> content_len \<le> end then Inl InvalidBounded
                        else Inr (start, end, False)))"

definition parse_range :: "string \<Rightarrow> int \<Rightarrow> range_error + (int \<times> int \<times> bool)" where
  "parse_range header content_len =
     (if \<not> prefix ''bytes='' (trim_space header) then Inl UnsupportedRange
      else (case split_n2 CHR ''-'' (trim_prefix (trim_space header) ''bytes='') of
              [p0, p1] \<Rightarrow>
                if p0 = [] then parse_suffix p1 content_len
                else if p1 = [] then parse_open p0 content_len
                else parse_bounded p0 p1 content_len
            | _ \<Rightarrow> Inl InvalidRange))"

definition total_length_from_response :: "http_response option \<Rightarrow> int" where
  "total_length_from_response resp =
     (case resp of
        None \<Rightarrow> 0
      | Some r \<Rightarrow>
          let content_range = trim_space (header_get (hr_headers r) ''Content-Range'');
              announced = (if hr_content_length r > 0 then hr_content_length r else 0)
          in if content_range = [] then announced
             else (case split_char CHR ''/'' content_range of
                     [_, p1] \<Rightarrow> (case parse_int64 (trim_space p1) of Inr content_len \<Rightarrow> content_len | Inl _ \<Rightarrow> announced)
                   | _ \<Rightarrow> announced))"

definition read_all_and_close :: "http_response option \<Rightarrow> string + bytes" where
  "read_all_and_close resp =
     (case resp of None \<Rightarrow> Inl ''empty response body'' | Some r \<Rightarrow> hr_body r)"

text \<open>
  The outcome of serving a range: the slice expression may panic, the request may not be
  served from the cache, a store may fail.
\<close>

datatype serve = Panic | Miss | ServeError string | Served buffered

definition cached_headers :: "startup_entry \<Rightarrow> int \<Rightarrow> int \<Rightarrow> int \<Rightarrow> headers" where
  "cached_headers entry len start end =
     Map.empty(
       ''Accept-Ranges'' \<mapsto> [''bytes''],
       ''Content-Type'' \<mapsto> [se_content_type entry],
       ''Content-Length'' \<mapsto> [itoa len],
       ''Content-Range'' \<mapsto> [''bytes '' @ itoa start @ ''-'' @ itoa end @ ''/'' @ itoa (se_content_length entry)],
       ''Cache-Control'' \<mapsto> [''public, max-age=31536000''])"

definition build_cached_partial_response ::
  "startup_entry \<Rightarrow> bytes \<Rightarrow> int \<Rightarrow> int \<Rightarrow> int \<Rightarrow> serve" where
  "build_cached_partial_response entry blob start end blob_base =
     (let local_start = i64 (start - blob_base);
          local_end = i64 (i64 (end - blob_base) + 1)
      in case slice blob local_start local_end of
           None \<Rightarrow> Panic
         | Some body \<Rightarrow>
             Served \<lparr>bf_status = 206, bf_headers = cached_headers entry (int (length body)) start end,
                     bf_body = body\<rparr>)"

section \<open>The service\<close>

record 'w metadata_store =
  md_get :: "string \<Rightarrow> ('w, string + startup_entry option) eff"
  md_upsert :: "startup_entry \<Rightarrow> ('w, string option) eff"

type_synonym 'w fetcher = "string \<Rightarrow> string \<Rightarrow> ('w, string + http_response option) eff"

record 'w media_svc =
  ms_store :: "'w metadata_store option"
  ms_blobs :: "'w blob_store option"
  ms_fetcher :: "'w fetcher option"
  ms_head :: int
  ms_tail :: int

definition same_source :: "startup_entry \<Rightarrow> string \<Rightarrow> bool" where
  "same_source entry url =
     (if se_source_key entry \<noteq> [] then se_source_key entry = source_key url
      else source_key (se_source_url entry) = source_key url)"

definition blob_there :: "'w blob_store \<Rightarrow> string \<Rightarrow> ('w, bool) eff" where
  "blob_there bl key =
     do { b \<leftarrow> bl_get bl key; pass (case b of Inl _ \<Rightarrow> False | Inr _ \<Rightarrow> True) }"

definition is_sufficiently_cached ::
  "'w metadata_store \<Rightarrow> 'w blob_store \<Rightarrow> int \<Rightarrow> int \<Rightarrow> string \<Rightarrow> string \<Rightarrow> ('w, bool) eff" where
  "is_sufficiently_cached st bl head_bytes tail_bytes ep url =
     do { row \<leftarrow> md_get st ep;
          case row of
            Inr (Some entry) \<Rightarrow>
              if \<not> same_source entry url then pass False
              else if se_head_key entry = [] \<or> se_head_bytes entry < head_bytes then pass False
              else do { head \<leftarrow> blob_there bl (se_head_key entry);
                        if \<not> head then pass False
                        else if tail_bytes > 0
                        then (if se_tail_key entry = [] \<or> se_tail_bytes entry < tail_bytes then pass False
                              else blob_there bl (se_tail_key entry))
                        else pass True }
          | _ \<Rightarrow> pass False }"

definition entry_of ::
  "string \<Rightarrow> stream_candidate \<Rightarrow> http_response option \<Rightarrow> bytes \<Rightarrow> startup_entry" where
  "entry_of ep c resp head_body =
     (let announced = total_length_from_response resp;
          content_length = (if announced \<le> 0 then int (length head_body) else announced);
          given = (case resp of None \<Rightarrow> [] | Some r \<Rightarrow> trim_space (header_get (hr_headers r) ''Content-Type''))
      in \<lparr>se_episode_id = ep, se_source_url = sc_url c, se_source_key = source_key (sc_url c),
          se_container = sc_container c, se_quality = sc_quality c,
          se_content_type = (if given = [] then ''video/mp4'' else given),
          se_content_length = content_length,
          se_head_key = blob_key ep (sc_url c) ''head'', se_head_bytes = int (length head_body),
          se_tail_key = [], se_tail_bytes = 0\<rparr>)"

text \<open>The entry with its tail, when there is one to fetch and every step of it succeeds.\<close>

definition with_tail ::
  "'w blob_store \<Rightarrow> 'w fetcher \<Rightarrow> int \<Rightarrow> startup_entry \<Rightarrow> ('w, startup_entry) eff" where
  "with_tail bl fetch tail_bytes entry =
     (let content_length = se_content_length entry;
          tail_start = max 0 (i64 (content_length - tail_bytes))
      in if tail_bytes > 0 \<and> content_length > 0 \<and> tail_start > 0 \<and> tail_start \<ge> se_head_bytes entry
         then do { resp \<leftarrow> fetch (se_source_url entry)
                     (''bytes='' @ itoa tail_start @ ''-'' @ itoa (content_length - 1));
                   case resp of
                     Inl _ \<Rightarrow> pass entry
                   | Inr r \<Rightarrow>
                       (case read_all_and_close r of
                          Inl _ \<Rightarrow> pass entry
                        | Inr tail_body \<Rightarrow>
                            if tail_body = [] then pass entry
                            else do { let tail_key = blob_key (se_episode_id entry) (se_source_url entry) ''tail'';
                                      err \<leftarrow> bl_put bl tail_key tail_body;
                                      pass (if err = None
                                            then entry\<lparr>se_tail_key := tail_key,
                                                       se_tail_bytes := int (length tail_body)\<rparr>
                                            else entry) }) }
         else pass entry)"

definition prewarm_fetch ::
  "'w metadata_store \<Rightarrow> 'w blob_store \<Rightarrow> 'w fetcher \<Rightarrow> int \<Rightarrow> int \<Rightarrow> string \<Rightarrow> stream_candidate
   \<Rightarrow> ('w, string option) eff" where
  "prewarm_fetch st bl fetch head_bytes tail_bytes ep c =
     do { let head_end = max 0 (i64 (head_bytes - 1));
          resp \<leftarrow> fetch (sc_url c) (''bytes=0-'' @ itoa head_end);
          case resp of
            Inl err \<Rightarrow> pass (Some err)
          | Inr r \<Rightarrow>
              (case read_all_and_close r of
                 Inl err \<Rightarrow> pass (Some err)
               | Inr head_body \<Rightarrow>
                   do { put_err \<leftarrow> bl_put bl (blob_key ep (sc_url c) ''head'') head_body;
                        case put_err of
                          Some err \<Rightarrow> pass (Some err)
                        | None \<Rightarrow>
                            do { entry \<leftarrow> with_tail bl fetch tail_bytes (entry_of ep c r head_body);
                                 md_upsert st entry } }) }"

definition prewarm :: "'w media_svc option \<Rightarrow> string \<Rightarrow> stream_candidate \<Rightarrow> ('w, string option) eff" where
  "prewarm svc ep c =
     (case svc of
        None \<Rightarrow> pass None
      | Some s \<Rightarrow>
          (case (ms_store s, ms_blobs s, ms_fetcher s) of
             (Some st, Some bl, Some fetch) \<Rightarrow>
               if trim_space ep = [] \<or> trim_space (sc_url c) = []
               then pass (Some ''episode id and candidate url are required'')
               else do { cached \<leftarrow> is_sufficiently_cached st bl (ms_head s) (ms_tail s) ep (sc_url c);
                         if cached then pass None
                         else prewarm_fetch st bl fetch (ms_head s) (ms_tail s) ep c }
           | _ \<Rightarrow> pass None))"

text \<open>The blob of an entry, cut to the range; \<open>blob_base\<close> is its offset in the file.\<close>

definition serve_blob ::
  "'w blob_store \<Rightarrow> startup_entry \<Rightarrow> string \<Rightarrow> int \<Rightarrow> int \<Rightarrow> int \<Rightarrow> ('w, serve) eff" where
  "serve_blob bl entry key start end blob_base =
     do { body \<leftarrow> bl_get bl key;
          pass (case body of
                  Inl err \<Rightarrow> ServeError err
                | Inr b \<Rightarrow> build_cached_partial_response entry b start end blob_base) }"

definition serve_entry :: "'w blob_store \<Rightarrow> startup_entry \<Rightarrow> string \<Rightarrow> ('w, serve) eff" where
  "serve_entry bl entry range_header =
     (case parse_range range_header (se_content_length entry) of
        Inl _ \<Rightarrow> pass Miss
      | Inr (start, end0, open_ended) \<Rightarrow>
          let end = (if open_ended \<and> start \<ge> 0 \<and> start < se_head_bytes entry
                     then se_head_bytes entry - 1 else end0);
              tail_start = i64 (se_content_length entry - se_tail_bytes entry)
          in if start \<ge> 0 \<and> end < se_head_bytes entry
             then serve_blob bl entry (se_head_key entry) start end 0
             else if se_tail_key entry \<noteq> [] \<and> se_tail_bytes entry > 0 \<and> start \<ge> tail_start
                     \<and> end < se_content_length entry
             then serve_blob bl entry (se_tail_key entry) start end tail_start
             else pass Miss)"

definition other_source :: "startup_entry \<Rightarrow> string \<Rightarrow> bool" where
  "other_source entry url =
     (if se_source_key entry \<noteq> [] then se_source_key entry \<noteq> source_key url
      else source_key (se_source_url entry) \<noteq> source_key url \<and> se_source_url entry \<noteq> url)"

definition try_serve_range ::
  "'w media_svc option \<Rightarrow> string \<Rightarrow> string \<Rightarrow> string \<Rightarrow> ('w, serve) eff" where
  "try_serve_range svc ep source_url range_header =
     (case svc of
        None \<Rightarrow> pass Miss
      | Some s \<Rightarrow>
          (case (ms_store s, ms_blobs s) of
             (Some st, Some bl) \<Rightarrow>
               if trim_space range_header = [] \<or> trim_space ep = [] then pass Miss
               else do { row \<leftarrow> md_get st ep;
                         case row of
                           Inl err \<Rightarrow> pass (ServeError err)
                         | Inr None \<Rightarrow> pass Miss
                         | Inr (Some entry) \<Rightarrow>
                             if se_content_length entry \<le> 0 then pass Miss
                             else if other_source entry source_url then pass Miss
                             else serve_entry bl entry range_header }
           | _ \<Rightarrow> pass Miss))"

section \<open>Ranges\<close>

lemma parse_range_bounds:
  "parse_range h n = Inr (a, b, op) \<Longrightarrow> 0 \<le> a \<and> a \<le> b \<and> b < n \<and> (op \<longrightarrow> b = n - 1)"
  by (auto simp: parse_range_def parse_suffix_def parse_open_def parse_bounded_def
      split: if_splits list.splits sum.splits)

lemma itoa_ends: "0 \<le> n \<Longrightarrow> itoa n \<noteq> [] \<and> CHR ''-'' \<notin> set (itoa n) \<and> list_all plain_char (itoa n)"
  using itoa_no_dash itoa_plain by auto

lemma parse_range_print:
  assumes "0 \<le> a" "a \<le> b" "b < n" "b \<le> max_int64"
  shows "parse_range (''bytes='' @ itoa a @ ''-'' @ itoa b) n = Inr (a, b, False)"
proof -
  have pl: "list_all plain_char (''bytes='' @ itoa a @ ''-'' @ itoa b)"
    using itoa_ends [of a] itoa_ends [of b] assms by (simp add: plain_char_def)
  have sp: "split_n2 CHR ''-'' (itoa a @ ''-'' @ itoa b) = [itoa a, itoa b]"
    using itoa_ends [of a] assms by (simp add: split_n2_def)
  have "parse_int64 (itoa a) = Inr a" "parse_int64 (itoa b) = Inr b"
    using assms by (simp_all add: min_int64_def)
  then show ?thesis
    using all_plain_trim_space [OF pl] sp itoa_ends [of a] itoa_ends [of b] assms
    by (simp add: parse_range_def parse_bounded_def trim_prefix_def)
qed

section \<open>Serving an entry\<close>

text \<open>
  An entry describes a file when its blobs hold at least the announced first and last
  bytes of it. An exact part is the answer to a range request an origin holding the file
  would give.
\<close>

definition describes :: "(string \<rightharpoonup> bytes) \<Rightarrow> startup_entry \<Rightarrow> bytes \<Rightarrow> bool" where
  "describes bv e f \<longleftrightarrow>
     se_content_length e = int (length f)
     \<and> (\<exists>h. bv (se_head_key e) = Some h \<and> se_head_bytes e \<le> int (length h) \<and> prefix h f)
     \<and> (se_tail_key e \<noteq> [] \<longrightarrow>
          (\<exists>t. bv (se_tail_key e) = Some t \<and> se_tail_bytes e = int (length t) \<and> suffix t f))"

definition exact_part :: "bytes \<Rightarrow> string \<Rightarrow> int \<Rightarrow> int \<Rightarrow> buffered" where
  "exact_part f content_type a b =
     \<lparr>bf_status = 206,
      bf_headers = Map.empty(
        ''Accept-Ranges'' \<mapsto> [''bytes''],
        ''Content-Type'' \<mapsto> [content_type],
        ''Content-Length'' \<mapsto> [itoa (b - a + 1)],
        ''Content-Range'' \<mapsto> [''bytes '' @ itoa a @ ''-'' @ itoa b @ ''/'' @ itoa (int (length f))],
        ''Cache-Control'' \<mapsto> [''public, max-age=31536000'']),
      bf_body = take (nat (b - a + 1)) (drop (nat a) f)\<rparr>"

lemma build_part:
  assumes "slice blob (a - base) (b - base + 1) = Some (take (nat (b - a + 1)) (drop (nat a) f))"
    and "0 \<le> base" "base \<le> a" "a \<le> b" "b < int (length f)" "int (length f) \<le> max_int64"
    and "se_content_length e = int (length f)"
  shows "build_cached_partial_response e blob a b base = Served (exact_part f (se_content_type e) a b)"
proof -
  have "i64 (a - base) = a - base" "i64 (b - base) = b - base" "i64 (b - base + 1) = b - base + 1"
    using assms by (auto simp: max_int64_def intro!: i64_small)
  moreover have "length (take (nat (b - a + 1)) (drop (nat a) f)) = nat (b - a + 1)"
    using assms by auto
  ultimately show ?thesis using assms
    by (simp add: build_cached_partial_response_def exact_part_def cached_headers_def Let_def)
qed

lemma slice_prefix:
  assumes "prefix h f" "0 \<le> a" "a \<le> b" "b < int (length h)"
  shows "slice h a (b + 1) = Some (take (nat (b - a + 1)) (drop (nat a) f))"
proof -
  from assms(1) obtain r where "f = h @ r" by (auto simp: prefix_def)
  with assms show ?thesis by (simp add: slice_def algebra_simps nat_le_iff)
qed

lemma slice_suffix:
  assumes "suffix t f" "int (length f) - int (length t) \<le> a" "a \<le> b" "b < int (length f)"
  shows "slice t (a - (int (length f) - int (length t))) (b - (int (length f) - int (length t)) + 1)
    = Some (take (nat (b - a + 1)) (drop (nat a) f))"
proof -
  from assms(1) obtain p where f: "f = p @ t" by (auto simp: suffix_def)
  then have "nat a - length p = nat (a - int (length p))" "length p \<le> nat a" using assms by auto
  with f assms show ?thesis by (simp add: slice_def algebra_simps)
qed

context blob_map
begin

text \<open>What the head and the tail of an entry that describes the file serve.\<close>

lemma serve_head_exact:
  assumes "describes (bv w) e f" "int (length f) \<le> max_int64" "ok (se_head_key e)"
    and "0 \<le> a" "a \<le> b" "b < se_head_bytes e"
  shows "result (serve_blob bl e (se_head_key e) a b 0) w = Served (exact_part f (se_content_type e) a b)"
proof -
  from assms(1) obtain h where h: "bv w (se_head_key e) = Some h" "se_head_bytes e \<le> int (length h)" "prefix h f"
    and len: "se_content_length e = int (length f)"
    by (auto simp: describes_def)
  have "length h \<le> length f" using h(3) by (rule prefix_length_le)
  then have "build_cached_partial_response e h a b 0 = Served (exact_part f (se_content_type e) a b)"
    using slice_prefix [OF h(3), of a b] h len assms by (intro build_part) auto
  then show ?thesis using h(1) get_hit [OF assms(3)] by (simp add: serve_blob_def)
qed

lemma serve_tail_exact:
  assumes "describes (bv w) e f" "int (length f) \<le> max_int64" "se_tail_key e \<noteq> []" "ok (se_tail_key e)"
    and "i64 (se_content_length e - se_tail_bytes e) \<le> a" "a \<le> b" "b < int (length f)"
  shows "result (serve_blob bl e (se_tail_key e) a b (i64 (se_content_length e - se_tail_bytes e))) w
    = Served (exact_part f (se_content_type e) a b)"
proof -
  from assms(1,3) obtain t where t: "bv w (se_tail_key e) = Some t" "se_tail_bytes e = int (length t)" "suffix t f"
    and len: "se_content_length e = int (length f)"
    by (auto simp: describes_def)
  have l: "length t \<le> length f" using t(3) by (rule suffix_length_le)
  then have i: "i64 (se_content_length e - se_tail_bytes e) = int (length f) - int (length t)"
    using t(2) len assms(2) by (auto simp: max_int64_def intro!: i64_small)
  have "build_cached_partial_response e t a b (int (length f) - int (length t))
      = Served (exact_part f (se_content_type e) a b)"
    using slice_suffix [OF t(3), of a b] t(2) len assms i l by (intro build_part) auto
  then show ?thesis using t(1) get_hit [OF assms(4)] i by (simp add: serve_blob_def)
qed

text \<open>
  From an entry that describes the file, every answer is the exact part the header asks
  for; an open range may be cut short at the end of the head.
\<close>

lemma serve_entry_exact:
  assumes d: "describes (bv w) e f" and l: "int (length f) \<le> max_int64"
    and "ok (se_head_key e)" and "se_tail_key e \<noteq> [] \<Longrightarrow> ok (se_tail_key e)"
  shows "result (serve_entry bl e hdr) w = Miss
    \<or> (\<exists>a b b' op. parse_range hdr (int (length f)) = Inr (a, b', op) \<and> 0 \<le> a \<and> a \<le> b \<and> b \<le> b'
         \<and> b' < int (length f) \<and> (op \<or> b = b')
         \<and> result (serve_entry bl e hdr) w = Served (exact_part f (se_content_type e) a b))"
proof (cases "parse_range hdr (int (length f))")
  case (Inl x)
  then show ?thesis using assms by (simp add: serve_entry_def describes_def)
next
  case (Inr abo)
  obtain a b' op where p: "parse_range hdr (int (length f)) = Inr (a, b', op)"
    using Inr by (cases abo) auto
  note bounds = parse_range_bounds [OF p]
  define b where "b = (if op \<and> a \<ge> 0 \<and> a < se_head_bytes e then se_head_bytes e - 1 else b')"
  have "se_head_bytes e \<le> int (length f)"
    using d prefix_length_le by (fastforce simp: describes_def)
  then have b: "a \<le> b" "b \<le> b'" "op \<or> b = b'" using bounds by (auto simp: b_def)
  have eq: "result (serve_entry bl e hdr) w =
      (if b < se_head_bytes e then result (serve_blob bl e (se_head_key e) a b 0) w
       else if se_tail_key e \<noteq> [] \<and> se_tail_bytes e > 0 \<and> a \<ge> i64 (se_content_length e - se_tail_bytes e)
       then result (serve_blob bl e (se_tail_key e) a b (i64 (se_content_length e - se_tail_bytes e))) w
       else Miss)"
    using bounds b d p unfolding serve_entry_def by (auto simp: describes_def b_def Let_def)
  have "result (serve_entry bl e hdr) w \<in> {Miss, Served (exact_part f (se_content_type e) a b)}"
    unfolding eq using serve_head_exact [OF d l assms(3)] serve_tail_exact [OF d l _ assms(4)] bounds b by simp
  then show ?thesis using p bounds b by blast
qed

end

section \<open>Prewarming\<close>

text \<open>
  A metadata store is a map from episodes to entries; a query may fail but never answers
  wrongly, and a live one does not fail.
\<close>

locale metadata_map =
  fixes md :: "'w metadata_store"
    and mv :: "'w \<Rightarrow> string \<rightharpoonup> startup_entry"
  assumes md_get_sound: "result (md_get md k) w = Inr r \<Longrightarrow> r = mv w k"
    and md_get_view: "mv (after (md_get md k) w) = mv w"
    and md_upsert_ok: "result (md_upsert md e) w = None \<Longrightarrow> mv (after (md_upsert md e) w) = (mv w)(se_episode_id e \<mapsto> e)"
    and md_upsert_other: "k \<noteq> se_episode_id e \<Longrightarrow> mv (after (md_upsert md e) w) k = mv w k"

locale metadata_live = metadata_map +
  assumes md_live: "\<exists>r. result (md_get md k) w = Inr r"
begin

lemma md_get_result: "result (md_get md k) w = Inr (mv w k)"
  using md_live [of k w] md_get_sound by fastforce

end

text \<open>
  An honest origin of a file: it answers a byte range with the bytes of the file in that
  range, cut at its end, and announces the length of the file.
\<close>

definition honest_reply :: "bytes \<Rightarrow> int \<Rightarrow> int \<Rightarrow> http_response \<Rightarrow> bool" where
  "honest_reply f a b r \<longleftrightarrow>
     hr_body r = Inr (take (nat (b - a + 1)) (drop (nat a) f))
     \<and> total_length_from_response (Some r) = int (length f)"

definition honest_origin :: "'w fetcher \<Rightarrow> string \<Rightarrow> bytes \<Rightarrow> bool" where
  "honest_origin fetch u f \<longleftrightarrow>
     (\<forall>w a b. 0 \<le> a \<and> a \<le> b \<and> b < max_int64 \<and> a < int (length f) \<longrightarrow>
        (\<exists>r. result (fetch u (''bytes='' @ itoa a @ ''-'' @ itoa b)) w = Inr (Some r) \<and> honest_reply f a b r))"

text \<open>The stores do not disturb each other, and fetching disturbs neither.\<close>

locale media_world = metadata_map md mv + blob_map bl bv ok
  for md :: "'w metadata_store" and mv and bl :: "'w blob_store" and bv ok +
  fixes fetch :: "'w fetcher"
  assumes md_get_bv: "bv (after (md_get md k) w) = bv w"
    and md_upsert_bv: "bv (after (md_upsert md e) w) = bv w"
    and bl_get_mv: "mv (after (bl_get bl k) w) = mv w"
    and bl_put_mv: "mv (after (bl_put bl k b) w) = mv w"
    and fetch_mv: "mv (after (fetch u h) w) = mv w"
    and fetch_bv: "bv (after (fetch u h) w) = bv w"
begin

text \<open>What the entry stored by a prewarm looks like, and the blobs it leaves.\<close>

definition head_ready :: "'w \<Rightarrow> string \<Rightarrow> string \<Rightarrow> bytes \<Rightarrow> startup_entry \<Rightarrow> bool" where
  "head_ready w ep u h e \<longleftrightarrow>
     se_episode_id e = ep \<and> se_source_url e = u \<and> se_source_key e = source_key u
     \<and> se_head_key e = blob_key ep u ''head'' \<and> se_head_bytes e = int (length h)
     \<and> bv w (se_head_key e) = Some h"

lemma with_tail_mv: "mv (after (with_tail bl fetch t e) w) = mv w"
  by (auto simp: with_tail_def Let_def fetch_mv bl_put_mv split: sum.split)

lemma with_tail_keeps_head:
  assumes "head_ready w ep u h e" and "t \<le> 0 \<or> blob_key ep u ''tail'' \<noteq> blob_key ep u ''head''"
    and "\<And>suf. ok (blob_key ep u suf)"
  shows "head_ready (after (with_tail bl fetch t e) w) ep u h (result (with_tail bl fetch t e) w)"
  using assms
  by (auto simp: with_tail_def head_ready_def Let_def fetch_bv put_other split: sum.split)

lemma with_tail_same:
  "se_content_length (result (with_tail bl fetch t e) w) = se_content_length e"
  "se_content_type (result (with_tail bl fetch t e) w) = se_content_type e"
  by (auto simp: with_tail_def Let_def split: sum.split)

text \<open>The tail is the end of the file.\<close>

lemma tail_reply_suffix:
  assumes "honest_reply f a (int (length f) - 1) r" and "0 \<le> a"
  shows "\<exists>tb. hr_body r = Inr tb \<and> suffix tb f"
proof -
  have "take (nat (int (length f) - 1 - a + 1)) (drop (nat a) f) = drop (nat a) f"
    using assms(2) by simp
  then show ?thesis using assms(1) by (auto simp: honest_reply_def intro: suffix_drop)
qed

lemma with_tail_tail:
  assumes "head_ready w ep u h e" and "honest_origin fetch u f"
    and len: "se_content_length e = int (length f)" "int (length f) \<le> max_int64" and "in_int64 t"
    and "se_tail_key e = []" and "ok (blob_key ep u ''tail'')"
  shows "se_tail_key (result (with_tail bl fetch t e) w) \<noteq> [] \<Longrightarrow>
    \<exists>tb. bv (after (with_tail bl fetch t e) w) (se_tail_key (result (with_tail bl fetch t e) w)) = Some tb
      \<and> se_tail_bytes (result (with_tail bl fetch t e) w) = int (length tb) \<and> suffix tb f
      \<and> se_tail_key (result (with_tail bl fetch t e) w) = blob_key ep u ''tail''"
proof -
  assume tail: "se_tail_key (result (with_tail bl fetch t e) w) \<noteq> []"
  let ?a = "max 0 (i64 (int (length f) - t))"
  let ?h = "''bytes='' @ itoa ?a @ ''-'' @ itoa (int (length f) - 1)"
  have u: "se_source_url e = u" "se_episode_id e = ep" using assms(1) by (auto simp: head_ready_def)
  have g: "t > 0 \<and> int (length f) > 0 \<and> ?a > 0 \<and> ?a \<ge> se_head_bytes e"
    using tail assms(6) by (auto simp: with_tail_def len Let_def split: if_splits)
  then have "i64 (int (length f) - t) = int (length f) - t"
    using len assms(5) by (auto simp: max_int64_def min_int64_def intro!: i64_small)
  with g len have "0 \<le> ?a" "?a \<le> int (length f) - 1" "int (length f) - 1 < max_int64" by auto
  then obtain r where r: "result (fetch u ?h) w = Inr (Some r)" "honest_reply f ?a (int (length f) - 1) r"
    using assms(2) unfolding honest_origin_def by fastforce
  then obtain tb where tb: "hr_body r = Inr tb" "suffix tb f"
    using tail_reply_suffix \<open>0 \<le> ?a\<close> by blast
  show ?thesis using g tail tb assms(6,7) r(1)
    by (auto simp: with_tail_def len u Let_def read_all_and_close_def put_ok split: if_splits)
qed

lemma with_tail_guard:
  assumes "se_tail_key e = []" and "se_tail_key (result (with_tail bl fetch t e) w) \<noteq> []"
    and "se_content_length e = int n" and "int n \<le> max_int64" and "in_int64 t"
  shows "0 < t \<and> se_head_bytes (result (with_tail bl fetch t e) w) \<le> int n - t"
proof -
  have "t > 0 \<and> int n > 0 \<and> max 0 (i64 (int n - t)) > 0 \<and> max 0 (i64 (int n - t)) \<ge> se_head_bytes e"
    using assms by (auto simp: with_tail_def Let_def split: if_splits)
  moreover from this have "i64 (int n - t) = int n - t"
    using assms(4,5) by (intro i64_small) (auto simp: max_int64_def)
  moreover have "se_head_bytes (result (with_tail bl fetch t e) w) = se_head_bytes e"
    by (auto simp: with_tail_def Let_def split: sum.split)
  ultimately show ?thesis by auto
qed

text \<open>What is run once the origin has answered.\<close>

lemma prewarm_fetch_run:
  assumes "result (fetch (sc_url c) (''bytes=0-'' @ itoa (max 0 (i64 (hb - 1))))) w = Inr (Some r)" and "hr_body r = Inr h"
    and "w1 = after (fetch (sc_url c) (''bytes=0-'' @ itoa (max 0 (i64 (hb - 1))))) w"
    and "put = bl_put bl (blob_key ep (sc_url c) ''head'') h" and "next = with_tail bl fetch tb (entry_of ep c (Some r) h)"
  shows "run_state (prewarm_fetch md bl fetch hb tb ep c) w =
    (if result put w1 = None then run_state (md_upsert md (result next (after put w1))) (after next (after put w1))
     else (result put w1, after put w1))"
  unfolding prewarm_fetch_def Let_def assms(3-5)
  by (simp only: run_bind assms(1) read_all_and_close_def option.case sum.case assms(2))
    (simp add: prod_eq_iff split: option.split)

text \<open>
  A prewarm that succeeds leaves an entry that describes the file, and its head is the
  requested number of bytes or the whole file.
\<close>

lemma prewarm_fetch_describes:
  assumes "result (prewarm_fetch md bl fetch hb tb ep c) w = None"
    and "honest_origin fetch (sc_url c) f" and "f \<noteq> []" and "int (length f) \<le> max_int64"
    and "0 \<le> hb" "hb \<le> max_int64" "in_int64 tb"
    and "tb \<le> 0 \<or> blob_key ep (sc_url c) ''tail'' \<noteq> blob_key ep (sc_url c) ''head''"
    and ok: "\<And>suf. ok (blob_key ep (sc_url c) suf)"
  shows "\<exists>e. mv (after (prewarm_fetch md bl fetch hb tb ep c) w) ep = Some e
    \<and> describes (bv (after (prewarm_fetch md bl fetch hb tb ep c) w)) e f
    \<and> se_head_bytes e = min (max 1 hb) (int (length f)) \<and> se_source_key e = source_key (sc_url c)
    \<and> se_source_url e = sc_url c \<and> se_head_key e = blob_key ep (sc_url c) ''head''
    \<and> (se_tail_key e \<noteq> [] \<longrightarrow> se_tail_key e = blob_key ep (sc_url c) ''tail''
          \<and> 0 < tb \<and> se_head_bytes e \<le> int (length f) - tb)"
proof -
  let ?u = "sc_url c" and ?b = "max 0 (hb - 1)"
  let ?h = "''bytes=0-'' @ itoa ?b"
  have i: "i64 (hb - 1) = hb - 1" using assms(5,6) by (intro i64_small) (auto simp: max_int64_def)
  have bnd: "0 \<le> ?b" "?b < max_int64" using assms(6) by (auto simp: max_int64_def)
  have zero: "''bytes=0-'' @ itoa ?b = ''bytes='' @ itoa 0 @ ''-'' @ itoa ?b" by code_simp
  obtain r where r: "result (fetch ?u ?h) w = Inr (Some r)" "honest_reply f 0 ?b r"
    using assms(2,3) bnd unfolding honest_origin_def zero by fastforce
  define h where "h = take (nat (?b + 1)) f"
  have body: "hr_body r = Inr h" "total_length_from_response (Some r) = int (length f)"
    using r(2) by (simp_all add: honest_reply_def h_def)
  let ?k = "blob_key ep ?u ''head''"
  let ?w1 = "after (fetch ?u ?h) w"
  let ?w2 = "after (bl_put bl ?k h) ?w1"
  define e0 where "e0 = entry_of ep c (Some r) h"
  define e where "e = result (with_tail bl fetch tb e0) ?w2"
  let ?w3 = "after (with_tail bl fetch tb e0) ?w2"
  note run = prewarm_fetch_run [of c hb, unfolded i, OF r(1) body(1) refl refl refl, of tb ep,
    folded e0_def, folded e_def]
  with assms(1) have put: "result (bl_put bl ?k h) ?w1 = None"
    and ups: "result (md_upsert md e) ?w3 = None"
    by (auto split: if_splits)
  have e0: "head_ready ?w2 ep ?u h e0" "se_content_length e0 = int (length f)" "se_tail_key e0 = []"
    using put_ok [OF ok put] assms(3)
    by (auto simp: head_ready_def e0_def entry_of_def body Let_def)
  have e: "head_ready ?w3 ep ?u h e" "se_content_length e = int (length f)"
    unfolding e_def using with_tail_keeps_head [OF e0(1) assms(8) ok] e0(2) by (auto simp: with_tail_same)
  have tail: "\<exists>t. bv ?w3 (se_tail_key e) = Some t \<and> se_tail_bytes e = int (length t) \<and> suffix t f
      \<and> se_tail_key e = blob_key ep ?u ''tail''" if "se_tail_key e \<noteq> []"
    using with_tail_tail [OF e0(1) assms(2) e0(2) assms(4,7) e0(3) ok] that unfolding e_def by blast
  have guard: "0 < tb \<and> se_head_bytes e \<le> int (length f) - tb" if "se_tail_key e \<noteq> []"
    using with_tail_guard [OF e0(3) _ e0(2) assms(4,7)] that unfolding e_def by blast
  have h: "prefix h f" "int (length h) = min (max 1 hb) (int (length f))"
    by (auto simp: h_def take_is_prefix)
  have w: "mv (after (prewarm_fetch md bl fetch hb tb ep c) w) = (mv ?w3)(ep \<mapsto> e)"
    "bv (after (prewarm_fetch md bl fetch hb tb ep c) w) = bv ?w3"
    using run put md_upsert_ok [OF ups] md_upsert_bv e(1) by (auto simp: head_ready_def)
  have "describes (bv ?w3) e f" unfolding describes_def using e h(1) tail by (auto simp: head_ready_def)
  then show ?thesis unfolding w using e h(2) tail guard by (auto simp: head_ready_def)
qed

text \<open>Looking whether an episode is cached changes nothing that can be observed.\<close>

lemma blob_there_views:
  "\<lbrakk>ok k; ok k'\<rbrakk> \<Longrightarrow> bv (after (blob_there bl k) w) k' = bv w k'"
  "mv (after (blob_there bl k) w) = mv w"
  by (simp_all add: blob_there_def get_view bl_get_mv)

lemma is_sufficiently_cached_mv: "mv (after (is_sufficiently_cached md bl hb tb ep u) w) = mv w"
  by (auto simp: is_sufficiently_cached_def md_get_view blob_there_views split: sum.split option.split)

lemma is_sufficiently_cached_False:
  assumes "\<And>e. mv w ep = Some e \<Longrightarrow> \<not> same_source e u \<or> se_head_key e = [] \<or> se_head_bytes e < hb
      \<or> (0 < tb \<and> (se_tail_key e = [] \<or> se_tail_bytes e < tb))"
  shows "\<not> result (is_sufficiently_cached md bl hb tb ep u) w"
proof (cases "result (md_get md ep) w")
  case (Inl err)
  then show ?thesis by (simp add: is_sufficiently_cached_def)
next
  case (Inr r)
  then have "r = mv w ep" by (rule md_get_sound)
  with Inr assms show ?thesis by (auto simp: is_sufficiently_cached_def split: option.split)
qed

lemma prewarm_run:
  assumes "ms_store s = Some md" "ms_blobs s = Some bl" "ms_fetcher s = Some fetch"
    and "trim_space ep \<noteq> []" "trim_space (sc_url c) \<noteq> []"
    and "\<not> result (is_sufficiently_cached md bl (ms_head s) (ms_tail s) ep (sc_url c)) w"
  shows "run_state (prewarm (Some s) ep c) w =
    run_state (prewarm_fetch md bl fetch (ms_head s) (ms_tail s) ep c)
      (after (is_sufficiently_cached md bl (ms_head s) (ms_tail s) ep (sc_url c)) w)"
  using assms by (simp add: prewarm_def)

text \<open>Where nothing but exact parts of the file can be served.\<close>

lemma try_serve_exact:
  assumes svc: "ms_store s = Some md" "ms_blobs s = Some bl"
    and "\<And>e. mv w ep = Some e \<Longrightarrow> describes (bv w) e f \<and> ok (se_head_key e)
           \<and> (se_tail_key e \<noteq> [] \<longrightarrow> ok (se_tail_key e))"
    and "int (length f) \<le> max_int64"
    and "result (try_serve_range (Some s) ep u hdr) w = res"
  shows "res = Miss \<or> (\<exists>err. res = ServeError err)
    \<or> (\<exists>ct a b b' op. res = Served (exact_part f ct a b) \<and> parse_range hdr (int (length f)) = Inr (a, b', op)
         \<and> 0 \<le> a \<and> a \<le> b \<and> b \<le> b' \<and> b' < int (length f) \<and> (op \<or> b = b'))"
proof (cases "result (md_get md ep) w")
  case (Inl err)
  then show ?thesis using assms(1,2,5) by (auto simp: try_serve_range_def split: if_splits)
next
  case (Inr r)
  then have r: "r = mv w ep" by (rule md_get_sound)
  show ?thesis
  proof (cases "mv w ep")
    case None
    then show ?thesis using assms(1,2,5) Inr r by (auto simp: try_serve_range_def split: if_splits)
  next
    case (Some e)
    let ?w = "after (md_get md ep) w"
    have "describes (bv ?w) e f" "ok (se_head_key e)" "se_tail_key e \<noteq> [] \<Longrightarrow> ok (se_tail_key e)"
      using assms(3) [OF Some] by (simp_all add: md_get_bv)
    from serve_entry_exact [OF this(1) assms(4) this(2,3), of hdr]
    have "result (serve_entry bl e hdr) ?w = Miss \<or> (\<exists>a b b' op. parse_range hdr (int (length f)) = Inr (a, b', op)
        \<and> 0 \<le> a \<and> a \<le> b \<and> b \<le> b' \<and> b' < int (length f) \<and> (op \<or> b = b')
        \<and> result (serve_entry bl e hdr) ?w = Served (exact_part f (se_content_type e) a b))" .
    moreover have "res = Miss \<or> res = result (serve_entry bl e hdr) ?w"
      using assms(5) svc Inr r Some by (auto simp: try_serve_range_def split: if_splits)
    ultimately show ?thesis by metis
  qed
qed

end

lemma serve_entry_head:
  assumes "blob_map bl bv ok" and "describes (bv w) e f" and "int (length f) \<le> max_int64"
    and "ok (se_head_key e)" and "0 \<le> a" "a \<le> b" "b < se_head_bytes e"
  shows "result (serve_entry bl e (''bytes='' @ itoa a @ ''-'' @ itoa b)) w
    = Served (exact_part f (se_content_type e) a b)"
proof -
  from assms(2) obtain h where h: "bv w (se_head_key e) = Some h" "se_head_bytes e \<le> int (length h)" "prefix h f"
    and len: "se_content_length e = int (length f)"
    by (auto simp: describes_def)
  have "length h \<le> length f" using h(3) by (rule prefix_length_le)
  then have b: "b < int (length f)" "b \<le> max_int64" using assms(3,7) h(2) by auto
  have "build_cached_partial_response e h a b 0 = Served (exact_part f (se_content_type e) a b)"
    using slice_prefix [OF h(3) assms(5,6)] assms h(2) len b by (intro build_part) auto
  moreover have "parse_range (''bytes='' @ itoa a @ ''-'' @ itoa b) (int (length f)) = Inr (a, b, False)"
    using assms(5,6) b by (rule parse_range_print)
  ultimately show ?thesis using assms(5,7) h(1) blob_map.get_hit [OF assms(1,4)]
    unfolding serve_entry_def len by (simp add: serve_blob_def)
qed

end
