(* ===== verification/Media_Props.thy ===== *)
theory Media_Props
  imports Media_Cache
begin

text \<open>
  What the startup media cache promises: whatever is served from it is what the origin
  would send, a prewarm followed by a request for the start of the file is a hit, and
  rotating the signature of a URL does not lose the entry. A reference world with a disk,
  rows and an origin satisfies every assumption.
\<close>

section \<open>Keys\<close>

lemma blob_key_elems:
  "split_char CHR ''/'' (blob_key ep u suf) =
     ''startup-media'' # split_char CHR ''/'' ep @ [sha1_hex (ep @ ''|'' @ u @ ''|'' @ suf) @ ''.bin'']"
proof -
  let ?h = "sha1_hex (ep @ ''|'' @ u @ ''|'' @ suf) @ ''.bin''"
  have h: "CHR ''/'' \<notin> set ?h"
    using sha1_hex_set [of "ep @ ''|'' @ u @ ''|'' @ suf"] by auto
  then have "split_char CHR ''/'' (''startup-media'' @ CHR ''/'' # ep @ CHR ''/'' # ?h) =
      split_char CHR ''/'' ''startup-media'' @ split_char CHR ''/'' ep @ [?h]"
    by (simp only: split_char_append split_char_single [OF h])
  moreover have "split_char CHR ''/'' ''startup-media'' = [''startup-media'']" by code_simp
  ultimately show ?thesis by (simp add: blob_key_def)
qed

lemma blob_key_proper: "proper_path ep \<Longrightarrow> proper_path (blob_key ep u suf)"
proof -
  assume "proper_path ep"
  have "length (sha1_hex x @ ''.bin'') = 44" for x by (simp add: sha1_hex_length)
  then have "proper_elem (sha1_hex x @ ''.bin'')" for x
    by (auto simp: proper_elem_def append_eq_Cons_conv)
  with \<open>proper_path ep\<close> show ?thesis
    unfolding proper_path_def blob_key_elems by (simp add: proper_elem_def)
qed

lemma itoa_digits: "0 \<le> n \<Longrightarrow> list_all is_digit (itoa n)"
  using nat_digits_digit by (simp add: itoa_def)

section \<open>A hit after a prewarm\<close>

locale media_live_world = media_world + metadata_live md mv
begin

lemma prewarm_then_head:
  assumes svc: "ms_store s = Some md" "ms_blobs s = Some bl" "ms_fetcher s = Some fetch"
    and args: "trim_space ep \<noteq> []" "trim_space (sc_url c) \<noteq> []"
    and cold: "\<not> result (is_sufficiently_cached md bl (ms_head s) (ms_tail s) ep (sc_url c)) w"
    and fin: "result (prewarm (Some s) ep c) w = None"
    and origin: "honest_origin fetch (sc_url c) f" "f \<noteq> []" "int (length f) \<le> max_int64"
    and bounds: "0 \<le> ms_head s" "ms_head s \<le> max_int64" "in_int64 (ms_tail s)"
    and keys: "ms_tail s \<le> 0 \<or> blob_key ep (sc_url c) ''tail'' \<noteq> blob_key ep (sc_url c) ''head''"
      "\<And>suf. ok (blob_key ep (sc_url c) suf)"
    and same: "source_key u = source_key (sc_url c)"
    and req: "0 \<le> a" "a \<le> b" "b < min (max 1 (ms_head s)) (int (length f))"
  shows "\<exists>ct. result (try_serve_range (Some s) ep u (''bytes='' @ itoa a @ ''-'' @ itoa b))
      (after (prewarm (Some s) ep c) w) = Served (exact_part f ct a b)"
proof -
  let ?pre = "after (is_sufficiently_cached md bl (ms_head s) (ms_tail s) ep (sc_url c)) w"
  let ?w = "after (prewarm (Some s) ep c) w"
  let ?hdr = "''bytes='' @ itoa a @ ''-'' @ itoa b"
  note run = prewarm_run [OF svc args cold]
  have d: "result (prewarm_fetch md bl fetch (ms_head s) (ms_tail s) ep c) ?pre = None"
    using fin run by simp
  obtain e where e: "mv ?w ep = Some e" "describes (bv ?w) e f"
      "se_head_bytes e = min (max 1 (ms_head s)) (int (length f))" "se_source_key e = source_key (sc_url c)"
      "se_source_url e = sc_url c" "se_head_key e = blob_key ep (sc_url c) ''head''"
    using prewarm_fetch_describes [OF d origin bounds keys] run by auto
  let ?w' = "after (md_get md ep) ?w"
  have "se_content_length e = int (length f)" using e(2) by (simp add: describes_def)
  then have pos: "0 < se_content_length e" using origin(2) by simp
  have so: "\<not> other_source e u" using e(4,5) same by (simp add: other_source_def)
  have "trim_space ?hdr \<noteq> []"
    using all_plain_trim_space [of ?hdr] itoa_plain by (simp add: plain_char_def)
  then have "result (try_serve_range (Some s) ep u ?hdr) ?w = result (serve_entry bl e ?hdr) ?w'"
    using svc args(1) md_get_result [of ep ?w] e(1) pos so by (simp add: try_serve_range_def)
  also have "\<dots> = Served (exact_part f (se_content_type e) a b)"
    using e(2,3,6) keys(2) origin(3) req
    by (intro serve_entry_head [OF blob_map_axioms]) (simp_all add: md_get_bv)
  finally show ?thesis by blast
qed

end

context media_world
begin

text \<open>
  Media shorter than the head and the tail together never counts as cached: either the
  head stays below its size or there is no tail.
\<close>

lemma short_media_cold:
  assumes svc: "ms_store s = Some md" "ms_blobs s = Some bl" "ms_fetcher s = Some fetch"
    and args: "trim_space ep \<noteq> []" "trim_space (sc_url c) \<noteq> []"
    and first: "mv w ep = None"
    and fin: "result (prewarm (Some s) ep c) w = None"
    and origin: "honest_origin fetch (sc_url c) f" "f \<noteq> []" "int (length f) \<le> max_int64"
    and bounds: "1 \<le> ms_head s" "ms_head s \<le> max_int64" "0 \<le> ms_tail s" "ms_tail s \<le> max_int64"
    and keys: "ms_tail s \<le> 0 \<or> blob_key ep (sc_url c) ''tail'' \<noteq> blob_key ep (sc_url c) ''head''"
      "\<And>suf. ok (blob_key ep (sc_url c) suf)"
    and short: "int (length f) < ms_head s + ms_tail s"
  shows "\<not> result (is_sufficiently_cached md bl (ms_head s) (ms_tail s) ep (sc_url c))
      (after (prewarm (Some s) ep c) w)"
proof -
  let ?pre = "after (is_sufficiently_cached md bl (ms_head s) (ms_tail s) ep (sc_url c)) w"
  have cold: "\<not> result (is_sufficiently_cached md bl (ms_head s) (ms_tail s) ep (sc_url c)) w"
    by (rule is_sufficiently_cached_False) (simp add: first)
  note run = prewarm_run [OF svc args cold]
  have d: "result (prewarm_fetch md bl fetch (ms_head s) (ms_tail s) ep c) ?pre = None"
    using fin run by simp
  have "0 \<le> ms_head s" "in_int64 (ms_tail s)" using bounds by (auto simp: min_int64_def)
  from prewarm_fetch_describes [OF d origin this(1) bounds(2) this(2) keys] run
  obtain e where e: "mv (after (prewarm (Some s) ep c) w) ep = Some e"
      "se_head_bytes e = min (max 1 (ms_head s)) (int (length f))"
      "se_tail_key e \<noteq> [] \<longrightarrow> 0 < ms_tail s \<and> se_head_bytes e \<le> int (length f) - ms_tail s"
    by auto
  show ?thesis
    by (rule is_sufficiently_cached_False) (use e short bounds in \<open>auto simp: min_def max_def split: if_splits\<close>)
qed

end

section \<open>A reference world\<close>

record ref_media = ref_disk +
  rm_rows :: "string \<rightharpoonup> startup_entry"

definition ref_rows :: "ref_media metadata_store" where
  "ref_rows =
     \<lparr>md_get = (\<lambda>k. State (\<lambda>s. (Inr (rm_rows s k), s))),
      md_upsert = (\<lambda>e. State (\<lambda>s. (None, s\<lparr>rm_rows := (rm_rows s)(se_episode_id e \<mapsto> e)\<rparr>)))\<rparr>"

definition ref_reply :: "bytes \<Rightarrow> int \<Rightarrow> int \<Rightarrow> http_response" where
  "ref_reply f a b =
     \<lparr>hr_status = 206,
      hr_headers = Map.empty(''Content-Range'' \<mapsto>
        [''bytes '' @ itoa a @ ''-'' @ itoa b @ ''/'' @ itoa (int (length f))]),
      hr_content_length = -1, hr_body = Inr (take (nat (b - a + 1)) (drop (nat a) f))\<rparr>"

definition ref_origin :: "bytes \<Rightarrow> 'w fetcher" where
  "ref_origin f u h =
     (case parse_range h max_int64 of
        Inl _ \<Rightarrow> pass (Inl ''bad range'')
      | Inr (a, b, _) \<Rightarrow> pass (Inr (Some (ref_reply f a b))))"

lemma ref_reply_length:
  assumes "int (length f) \<le> max_int64" and "0 \<le> a"  "0 \<le> b"
  shows "total_length_from_response (Some (ref_reply f a b)) = int (length f)"
proof -
  let ?p = "''bytes '' @ itoa a @ ''-'' @ itoa b" and ?n = "itoa (int (length f))"
  have n: "CHR ''/'' \<notin> set (itoa k)" if "0 \<le> k" for k
    using itoa_digits [of k] that by (auto simp: list_all_iff is_digit_def)
  have "split_char CHR ''/'' (?p @ CHR ''/'' # ?n) = split_char CHR ''/'' ?p @ split_char CHR ''/'' ?n"
    by (rule split_char_append)
  moreover have "split_char CHR ''/'' ?p = [?p]"
    by (rule split_char_single) (use n [of a] n [of b] assms in auto)
  moreover have "split_char CHR ''/'' ?n = [?n]"
    by (rule split_char_single) (use n [of "int (length f)"] in auto)
  moreover have "is_trimmed (?p @ CHR ''/'' # ?n)"
    by (rule plain_trimmed) (use itoa_plain [of "int (length f)"] in \<open>auto simp: plain_char_def list_all_iff\<close>)
  ultimately show ?thesis using assms(1) all_plain_trim_space [OF itoa_plain [of "int (length f)"]]
    by (simp add: total_length_from_response_def ref_reply_def trim_space_id Let_def min_int64_def)
qed

lemma ref_origin_honest: "int (length f) \<le> max_int64 \<Longrightarrow> honest_origin (ref_origin f) u f"
  unfolding honest_origin_def ref_origin_def honest_reply_def
proof (intro allI impI, elim conjE)
  fix a b and w :: "'c" assume a: "int (length f) \<le> max_int64" "0 \<le> a" "a \<le> b" "b < max_int64"
  then have "parse_range (''bytes='' @ itoa a @ ''-'' @ itoa b) max_int64 = Inr (a, b, False)"
    by (intro parse_range_print) auto
  then show "\<exists>r. result (case parse_range (''bytes='' @ itoa a @ ''-'' @ itoa b) max_int64 of
        Inl _ \<Rightarrow> pass (Inl ''bad range'') | Inr (a, b, _) \<Rightarrow> pass (Inr (Some (ref_reply f a b)))) w
        = Inr (Some r)
      \<and> hr_body r = Inr (take (nat (b - a + 1)) (drop (nat a) f))
      \<and> total_length_from_response (Some r) = int (length f)"
    using ref_reply_length [of f a b] a by (simp only: sum.case prod.case) (simp add: ref_reply_def)
qed

interpretation ref_media: media_live_world ref_rows rm_rows ref_local
    "\<lambda>s k. rd_files s (fs_path ''data'' k)" proper_path "ref_origin f"
  by unfold_locales
    (auto simp: ref_rows_def ref_local_def ref_origin_def fs_blobs_def fs_put_def fs_get_def ref_os_def
      fs_path_inj Let_def split: sum.split prod.split option.splits)

definition ref_media_svc :: "bytes \<Rightarrow> int \<Rightarrow> int \<Rightarrow> ref_media media_svc" where
  "ref_media_svc f h t =
     \<lparr>ms_store = Some ref_rows, ms_blobs = Some ref_local, ms_fetcher = Some (ref_origin f),
      ms_head = h, ms_tail = t\<rparr>"

definition empty_media :: ref_media where
  "empty_media = \<lparr>rd_files = Map.empty, rd_objects = (\<lambda>_. Map.empty), rm_rows = Map.empty\<rparr>"

definition sample_source :: stream_candidate where
  "sample_source =
     \<lparr>sc_url = ''https://a.my.id/v.mp4'', sc_container = ''mp4'', sc_quality = ''720p'', sc_codec = [],
      sc_direct = True, sc_playable = True, sc_priority = 150, sc_label = []\<rparr>"

lemma ref_prewarm_ok: "result (prewarm (Some (ref_media_svc f 2 0)) ''e'' sample_source) empty_media = None"
proof -
  have "trim_space ''e'' \<noteq> []" "trim_space (sc_url sample_source) \<noteq> []" by code_simp+
  moreover have "i64 (2 - 1) = 1" by (simp add: i64_def)
  moreover have "''bytes=0-'' @ itoa 1 = ''bytes=0-1''" by code_simp
  moreover have "parse_range ''bytes=0-1'' max_int64 = Inr (0, 1, False)" by code_simp
  ultimately show ?thesis
    by (simp add: prewarm_def ref_media_svc_def is_sufficiently_cached_def ref_rows_def empty_media_def
        prewarm_fetch_def Let_def ref_origin_def read_all_and_close_def ref_reply_def with_tail_def
        ref_local_def fs_blobs_def fs_put_def ref_os_def)
qed

section \<open>Properties\<close>

text \<open>
  C1. Range requests are answered from the cache with exactly the bytes of the file: if the
  row of the episode, should there be one, describes the file, then the request is not
  served, or a store failed, or the answer is the exact part the range asks for with the
  matching \<open>Content-Range\<close>; an open range may stop at the end of the cached head. The
  slice expression never panics.
\<close>

theorem media_serve_exact:
  assumes "media_world md mv bl bv ok fetch"
    and "ms_store s = Some md" and "ms_blobs s = Some bl"
    and "\<And>e. mv w ep = Some e \<Longrightarrow> describes (bv w) e f \<and> ok (se_head_key e)
           \<and> (se_tail_key e \<noteq> [] \<longrightarrow> ok (se_tail_key e))"
    and "int (length f) \<le> max_int64"
  shows "result (try_serve_range (Some s) ep u hdr) w = Miss
    \<or> (\<exists>err. result (try_serve_range (Some s) ep u hdr) w = ServeError err)
    \<or> (\<exists>ct a b b' op. result (try_serve_range (Some s) ep u hdr) w = Served (exact_part f ct a b)
         \<and> parse_range hdr (int (length f)) = Inr (a, b', op)
         \<and> 0 \<le> a \<and> a \<le> b \<and> b \<le> b' \<and> b' < int (length f) \<and> (op \<or> b = b'))"
  by (rule media_world.try_serve_exact [OF assms(1-3) _ assms(5) refl]) (rule assms(4))

definition sample_entry :: startup_entry where
  "sample_entry =
     \<lparr>se_episode_id = ''e'', se_source_url = ''https://a.my.id/v.mp4'', se_source_key = ''v.mp4'',
      se_container = ''mp4'', se_quality = ''720p'', se_content_type = ''video/mp4'',
      se_content_length = 5, se_head_key = ''h'', se_head_bytes = 2, se_tail_key = ''t'', se_tail_bytes = 1\<rparr>"

definition warm_media :: ref_media where
  "warm_media =
     \<lparr>rd_files = [''data/h'' \<mapsto> [1, 2], ''data/t'' \<mapsto> [5]], rd_objects = (\<lambda>_. Map.empty),
      rm_rows = [''e'' \<mapsto> sample_entry]\<rparr>"

theorem media_serve_exact_witness:
  "\<exists>ct. result (try_serve_range (Some (ref_media_svc [1, 2, 3, 4, 5] 2 1)) ''e''
        ''https://a.my.id/v.mp4?X=1'' ''bytes=4-'') warm_media
      = Served (exact_part [1, 2, 3, 4, 5] ct 4 4)"
proof -
  let ?r = "result (try_serve_range (Some (ref_media_svc [1, 2, 3, 4, 5] 2 1)) ''e''
      ''https://a.my.id/v.mp4?X=1'' ''bytes=4-'') warm_media"
  have key: "fs_path ''data'' ''h'' = ''data/h''" "fs_path ''data'' ''t'' = ''data/t''"
    "proper_path ''h''" "proper_path ''t''" by code_simp+
  have "media_world ref_rows rm_rows (ref_local :: ref_media blob_store)
      (\<lambda>s k. rd_files s (fs_path ''data'' k)) proper_path (ref_origin [1, 2, 3, 4, 5])"
    by (rule ref_media.media_world_axioms)
  note exact = media_serve_exact [OF this]
  have "describes (\<lambda>k. rd_files warm_media (fs_path ''data'' k)) sample_entry [1, 2, 3, 4, 5]"
    by (auto simp: describes_def sample_entry_def warm_media_def key suffix_def)
  then have "?r = Miss \<or> (\<exists>err. ?r = ServeError err)
      \<or> (\<exists>ct a b b' op. ?r = Served (exact_part [1, 2, 3, 4, 5] ct a b)
         \<and> parse_range ''bytes=4-'' (int (length [1, 2, 3, 4, 5::8 word])) = Inr (a, b', op)
         \<and> 0 \<le> a \<and> a \<le> b \<and> b \<le> b' \<and> b' < int (length [1, 2, 3, 4, 5::8 word]) \<and> (op \<or> b = b'))"
    by (intro exact) (auto simp: ref_media_svc_def warm_media_def sample_entry_def key max_int64_def)
  moreover have g: "trim_space ''bytes=4-'' \<noteq> []" "trim_space ''e'' \<noteq> []"
    "source_key ''https://a.my.id/v.mp4?X=1'' = ''v.mp4''" "parse_range ''bytes=4-'' 5 = Inr (4, 4, True)"
    by code_simp+
  have "\<exists>x. ?r = Served x"
    by (simp add: try_serve_range_def ref_media_svc_def ref_rows_def warm_media_def g)
      (simp add: sample_entry_def other_source_def g serve_entry_def i64_def serve_blob_def ref_local_def
        fs_blobs_def fs_get_def ref_os_def key build_cached_partial_response_def slice_def cached_headers_def)
  moreover have "int (length [1, 2, 3, 4, 5::8 word]) = 5" by simp
  ultimately show ?thesis using g(4) by (elim disjE exE conjE) auto
qed

text \<open>
  C2. A successful prewarm makes the start of the file a hit: when an honest origin of the
  file was asked and the call reported no error, every bounded range inside the head is
  then served with exactly its bytes, also under another URL with the same source key.
\<close>

theorem prewarm_then_hit:
  assumes "media_live_world md mv bl bv ok fetch"
    and "ms_store s = Some md" "ms_blobs s = Some bl" "ms_fetcher s = Some fetch"
    and "trim_space ep \<noteq> []" "trim_space (sc_url c) \<noteq> []"
    and "\<not> result (is_sufficiently_cached md bl (ms_head s) (ms_tail s) ep (sc_url c)) w"
    and "result (prewarm (Some s) ep c) w = None"
    and "honest_origin fetch (sc_url c) f" "f \<noteq> []" "int (length f) \<le> max_int64"
    and "0 \<le> ms_head s" "ms_head s \<le> max_int64" "in_int64 (ms_tail s)"
    and "ms_tail s \<le> 0 \<or> blob_key ep (sc_url c) ''tail'' \<noteq> blob_key ep (sc_url c) ''head''"
      "\<And>suf. ok (blob_key ep (sc_url c) suf)"
    and "source_key u = source_key (sc_url c)"
    and "0 \<le> a" "a \<le> b" "b < min (max 1 (ms_head s)) (int (length f))"
  shows "\<exists>ct. result (try_serve_range (Some s) ep u (''bytes='' @ itoa a @ ''-'' @ itoa b))
      (after (prewarm (Some s) ep c) w) = Served (exact_part f ct a b)"
  by (rule media_live_world.prewarm_then_head [OF assms])

theorem prewarm_then_hit_witness:
  "\<exists>ct. result (try_serve_range (Some (ref_media_svc [7, 8, 9] 2 0)) ''e''
        ''https://a.my.id/v.mp4?X-Amz-Date=1'' ''bytes=0-1'')
      (after (prewarm (Some (ref_media_svc [7, 8, 9] 2 0)) ''e'' sample_source) empty_media)
    = Served (exact_part [7, 8, 9] ct 0 1)"
proof -
  let ?s = "ref_media_svc [7, 8, 9] 2 0"
  have hdr: "''bytes='' @ itoa 0 @ ''-'' @ itoa 1 = ''bytes=0-1''" by code_simp
  have args: "trim_space ''e'' \<noteq> []" "trim_space (sc_url sample_source) \<noteq> []"
    "source_key ''https://a.my.id/v.mp4?X-Amz-Date=1'' = source_key (sc_url sample_source)"
    "proper_path ''e''" by code_simp+
  have cold: "\<not> result (is_sufficiently_cached ref_rows ref_local 2 0 ''e'' (sc_url sample_source)) empty_media"
    by (simp add: is_sufficiently_cached_def ref_rows_def empty_media_def)
  have "\<exists>ct. result (try_serve_range (Some ?s) ''e'' ''https://a.my.id/v.mp4?X-Amz-Date=1''
        (''bytes='' @ itoa 0 @ ''-'' @ itoa 1))
      (after (prewarm (Some ?s) ''e'' sample_source) empty_media) = Served (exact_part [7, 8, 9] ct 0 1)"
    by (rule prewarm_then_hit [OF ref_media.media_live_world_axioms [of "[7, 8, 9]"]])
      (use args cold ref_prewarm_ok in
        \<open>auto simp: ref_media_svc_def max_int64_def min_int64_def blob_key_proper ref_origin_honest\<close>)
  then show ?thesis unfolding hdr .
qed

text \<open>
  Media shorter than the configured head and tail together is never recognised as
  cached: after a successful prewarm of an episode that had no entry,
  \<open>isSufficientlyCached\<close> answers no, so that every further prewarm downloads it again.
\<close>

theorem short_media_never_cached:
  assumes "media_world md mv bl bv ok fetch"
    and "ms_store s = Some md" "ms_blobs s = Some bl" "ms_fetcher s = Some fetch"
    and "trim_space ep \<noteq> []" "trim_space (sc_url c) \<noteq> []"
    and "mv w ep = None"
    and "result (prewarm (Some s) ep c) w = None"
    and "honest_origin fetch (sc_url c) f" "f \<noteq> []" "int (length f) \<le> max_int64"
    and "1 \<le> ms_head s" "ms_head s \<le> max_int64" "0 \<le> ms_tail s" "ms_tail s \<le> max_int64"
    and "ms_tail s \<le> 0 \<or> blob_key ep (sc_url c) ''tail'' \<noteq> blob_key ep (sc_url c) ''head''"
      "\<And>suf. ok (blob_key ep (sc_url c) suf)"
    and "int (length f) < ms_head s + ms_tail s"
  shows "\<not> result (is_sufficiently_cached md bl (ms_head s) (ms_tail s) ep (sc_url c))
      (after (prewarm (Some s) ep c) w)"
  by (rule media_world.short_media_cold [OF assms])

theorem short_media_never_cached_witness:
  "\<not> result (is_sufficiently_cached ref_rows ref_local 2 0 ''e'' (sc_url sample_source))
      (after (prewarm (Some (ref_media_svc [7] 2 0)) ''e'' sample_source) empty_media)"
proof -
  let ?s = "ref_media_svc [7] 2 0"
  have args: "trim_space ''e'' \<noteq> []" "trim_space (sc_url sample_source) \<noteq> []" "proper_path ''e''" by code_simp+
  have "\<not> result (is_sufficiently_cached ref_rows ref_local (ms_head ?s) (ms_tail ?s) ''e'' (sc_url sample_source))
      (after (prewarm (Some ?s) ''e'' sample_source) empty_media)"
    by (rule short_media_never_cached [OF ref_media.media_world_axioms [of "[7]"], where f = "[7]"])
      (use args ref_prewarm_ok in
        \<open>auto simp: ref_media_svc_def empty_media_def max_int64_def min_int64_def blob_key_proper ref_origin_honest\<close>)
  then show ?thesis by (simp add: ref_media_svc_def)
qed

text \<open>
  C11. Range headers: an accepted header denotes a non-empty interval of the file, an open
  one reaching its end, and every interval inside the file, printed the way a client
  prints it, is accepted as it is.
\<close>

theorem parse_range_correct:
  "(\<forall>hdr a b op. parse_range hdr n = Inr (a, b, op) \<longrightarrow> 0 \<le> a \<and> a \<le> b \<and> b < n \<and> (op \<longrightarrow> b = n - 1))
   \<and> (\<forall>a b. 0 \<le> a \<and> a \<le> b \<and> b < n \<and> b \<le> max_int64 \<longrightarrow>
        parse_range (''bytes='' @ itoa a @ ''-'' @ itoa b) n = Inr (a, b, False))"
  using parse_range_bounds parse_range_print by metis

theorem parse_range_correct_witness:
  "parse_range (''bytes='' @ itoa 3 @ ''-'' @ itoa 10) 11 = Inr (3, 10, False)"
  using parse_range_correct [of 11] by (simp add: max_int64_def)

text \<open>
  The key that ties a cached file to its source ignores the query string: two signed
  URLs of one object have the same source key, so that a rotated signature still hits.
\<close>

theorem source_key_ignores_signature:
  assumes "CHR ''?'' \<notin> set p" "CHR ''#'' \<notin> set p" "CHR ''#'' \<notin> set q" "\<not> list_ex is_ctl q"
    and "is_trimmed p" "is_trimmed (p @ CHR ''?'' # q)" and "url_parse p \<noteq> None"
    and "p \<noteq> ''*''"
  shows "source_key (p @ CHR ''?'' # q) = source_key p"
proof -
  from url_parse_query_path(1) [OF assms(1-4) assms(8)] assms(7) obtain u v where
    "url_parse (p @ CHR ''?'' # q) = Some u" "url_parse p = Some v" "u_path u = u_path v"
    by (auto simp: map_option_case split: option.splits)
  then show ?thesis using assms(5,6) by (simp add: source_key_def trim_space_id Let_def)
qed

theorem source_key_ignores_signature_witness:
  "source_key (''https://a.my.id/d/V.mp4'' @ CHR ''?'' # ''X-Amz-Date=1&X-Amz-Expires=2'')
     = source_key ''https://a.my.id/d/V.mp4''"
  by (rule source_key_ignores_signature; code_simp)

text \<open>
  On disk the chunks of an episode stay below the base directory and apart from each
  other, when no element of the episode identifier is empty, \<open>.\<close> or \<open>..\<close>.
\<close>

theorem blob_files_confined:
  assumes "proper_path ep" and "proper_path ep'"
  shows "(\<exists>name. length name = 44 \<and> fs_path base (blob_key ep u suf) =
      (if prefix ''/'' base then ''/'' else [])
        @ join ''/'' (base_elems base @ ''startup-media'' # split_char CHR ''/'' ep @ [name]))
    \<and> (fs_path base (blob_key ep' u' suf') = fs_path base (blob_key ep u suf)
         \<longleftrightarrow> blob_key ep' u' suf' = blob_key ep u suf)"
proof -
  note k = blob_key_proper [OF assms(1), of u suf] blob_key_proper [OF assms(2), of u' suf']
  have "length (sha1_hex (ep @ ''|'' @ u @ ''|'' @ suf) @ ''.bin'') = 44" by (simp add: sha1_hex_length)
  moreover have "fs_path base (blob_key ep u suf) = (if prefix ''/'' base then ''/'' else [])
      @ join ''/'' (base_elems base @ ''startup-media'' # split_char CHR ''/'' ep
          @ [sha1_hex (ep @ ''|'' @ u @ ''|'' @ suf) @ ''.bin''])"
    unfolding fs_path_def path_join_proper [OF k(1)] blob_key_elems by (rule refl)
  moreover have "fs_path base (blob_key ep' u' suf') = fs_path base (blob_key ep u suf)
      \<longleftrightarrow> blob_key ep' u' suf' = blob_key ep u suf"
    using path_join_inj [OF k(2,1), of base] by (auto simp: fs_path_def)
  ultimately show ?thesis by blast
qed

theorem blob_files_confined_witness:
  "fs_path ''data/cache'' (blob_key ''kuramanime:12/naruto/1'' ''https://a.my.id/v.mp4'' ''head'')
     = fs_path ''data/cache'' (blob_key ''kuramanime:12/naruto/1'' ''https://a.my.id/v.mp4'' ''tail'')
   \<longleftrightarrow> blob_key ''kuramanime:12/naruto/1'' ''https://a.my.id/v.mp4'' ''head'' = blob_key ''kuramanime:12/naruto/1'' ''https://a.my.id/v.mp4'' ''tail''"
proof -
  have "proper_path ''kuramanime:12/naruto/1''" by code_simp
  from blob_files_confined [OF this this] show ?thesis by blast
qed

text \<open>
  An episode identifier with \<open>..\<close> in it leaves the base directory: the identifier goes
  into the path of the chunk unescaped.
\<close>

theorem blob_path_escapes:
  "fs_path ''data/cache'' (blob_key ''p:x/../../../../tmp'' u suf)
     = ''tmp/'' @ sha1_hex (''p:x/../../../../tmp|'' @ u @ ''|'' @ suf) @ ''.bin''"
proof -
  let ?k = "blob_key ''p:x/../../../../tmp'' u suf"
  let ?h = "sha1_hex (''p:x/../../../../tmp'' @ ''|'' @ u @ ''|'' @ suf) @ ''.bin''"
  have "length ?h = 44" by (simp add: sha1_hex_length)
  then have h: "list_all proper_elem [?h]" by (auto simp: proper_elem_def)
  have e: "split_char CHR ''/'' ?k =
      [''startup-media'', ''p:x'', ''..'', ''..'', ''..'', ''..'', ''tmp''] @ [?h]"
    unfolding blob_key_elems by (simp add: split_char_append)
  have "clean_elems False [] ((split_char CHR ''/'' ''data/cache''
          @ [''startup-media'', ''p:x'', ''..'', ''..'', ''..'', ''..'', ''tmp'']) @ [?h])
      = clean_elems False [] (split_char CHR ''/'' ''data/cache''
          @ [''startup-media'', ''p:x'', ''..'', ''..'', ''..'', ''..'', ''tmp'']) @ [?h]"
    by (rule clean_elems_proper [OF h])
  also have "\<dots> = [''tmp'', ?h]" by simp
  finally have c: "clean_elems False [] (split_char CHR ''/'' (''data/cache/'' @ ?k)) = [''tmp'', ?h]"
    using split_char_append [of "CHR ''/''" "''data/cache''" ?k] e by simp
  have "?k \<noteq> []" by (simp add: blob_key_def)
  then show ?thesis using c by (simp add: fs_path_def path_join_def path_clean_def Let_def)
qed

text \<open>
  C10. A tiered store is a blob store like the two it is made of: over a local store whose
  writes do not fail and a remote store that is independent of it, a successful write is
  read back, a miss in both tiers is an error, and reading, which copies remote blobs to
  the local tier, changes nothing that can be observed.
\<close>

theorem tiered_store_refines:
  assumes "tiered_pair l r lv rv lok rok"
  shows "blob_map (tiered_blobs (Some \<lparr>ti_local = Some l, ti_remote = Some r\<rparr>))
    (tier_view lv rv) (\<lambda>k. lok k \<and> rok k)"
  by (rule tiered_pair.tier_is_map [OF assms])

theorem tiered_store_refines_witness:
  "blob_map (tiered_blobs (Some \<lparr>ti_local = Some (ref_local :: ref_media blob_store), ti_remote = Some ref_remote\<rparr>))
    (tier_view (\<lambda>s k. rd_files s (fs_path ''data'' k)) (\<lambda>s. rd_objects s ''b'')) (\<lambda>k. proper_path k \<and> True)"
  by (rule tiered_store_refines [OF ref_tiers.tiered_pair_axioms])

definition full_disk :: "bytes \<Rightarrow> 'w blob_store" where
  "full_disk old = \<lparr>bl_put = (\<lambda>k b. pass (Some ''no space left on device'')), bl_get = (\<lambda>k. pass (Inr old))\<rparr>"

text \<open>
  When the local write fails, a tiered \<open>Put\<close> still reports success and an older local
  blob of the key keeps being served instead of what was written.
\<close>

theorem tiered_put_stale_local:
  "result (tiered_put (Some \<lparr>ti_local = Some (full_disk old), ti_remote = Some ref_remote\<rparr>) k new) w = None
   \<and> result (tiered_get (Some \<lparr>ti_local = Some (full_disk old), ti_remote = Some ref_remote\<rparr>) k)
       (after (tiered_put (Some \<lparr>ti_local = Some (full_disk old), ti_remote = Some ref_remote\<rparr>) k new) w)
     = Inr old"
  by (simp add: tiered_put_def tiered_get_def full_disk_def ref_remote_def s3_blobs_def s3_put_def
      ref_s3_def local_copy_def local_hit_def)

end
