(* ===== verification/Postgres.thy ===== *)
theory Postgres
  imports Stream Media_Cache
begin

text \<open>
  The store of \<open>internal/store/postgres/store.go\<close>. The object-relational mapper gorm and
  the database behind it are not part of the repository: a table is a record of the
  queries the store makes, and the locale \<open>gorm_table\<close> states their documented meaning.
  A payload column holds the JSON text of a value, or a text that does not decode.
\<close>

section \<open>Tables\<close>

record base_row =
  row_id :: int
  row_created :: time
  row_updated :: time

datatype db_error = RecordNotFound | DbError string

record ('w, 'r) table =
  tb_first :: "('r \<Rightarrow> bool) \<Rightarrow> ('w, db_error + 'r) eff"
  tb_create :: "'r \<Rightarrow> ('w, string + 'r) eff"
  tb_save :: "'r \<Rightarrow> ('w, string option) eff"
  tb_delete :: "('r \<Rightarrow> bool) \<Rightarrow> ('w, string option) eff"
  tb_find_by_updated_desc :: "('r \<Rightarrow> bool) \<Rightarrow> ('w, string + 'r list) eff"

definition same_data :: "'a base_row_scheme \<Rightarrow> 'a base_row_scheme \<Rightarrow> bool" where
  "same_data r r' \<longleftrightarrow> base_row.more r = base_row.more r'"

definition update_row :: "'a base_row_scheme \<Rightarrow> 'a base_row_scheme list \<Rightarrow> 'a base_row_scheme list" where
  "update_row r rows = map (\<lambda>x. if row_id x = row_id r then r else x) rows"

text \<open>
  Rows are in the order of their primary keys, which are distinct and not 0. \<open>First\<close>
  yields the first match; \<open>Create\<close>, and \<open>Save\<close> of a row with key 0, add a row with a
  fresh key and time stamps; \<open>Save\<close> of another row updates the row with its key. A query
  that fails changes nothing.
\<close>

locale gorm_table =
  fixes tb :: "('w, 'a base_row_scheme) table"
    and tv :: "'w \<Rightarrow> 'a base_row_scheme list"
  assumes ids: "distinct (map row_id (tv w))" "0 \<notin> row_id ` set (tv w)"
    and first_view: "tv (after (tb_first tb P) w) = tv w"
    and first_found: "result (tb_first tb P) w = Inr r \<Longrightarrow> List.find P (tv w) = Some r"
    and first_missing: "result (tb_first tb P) w = Inl RecordNotFound \<Longrightarrow> List.find P (tv w) = None"
    and create_ok: "result (tb_create tb r) w = Inr r' \<Longrightarrow>
      tv (after (tb_create tb r) w) = tv w @ [r'] \<and> same_data r r'"
    and create_fail: "result (tb_create tb r) w = Inl e \<Longrightarrow> tv (after (tb_create tb r) w) = tv w"
    and save_new: "\<lbrakk>row_id r = 0; result (tb_save tb r) w = None\<rbrakk> \<Longrightarrow>
      \<exists>r'. tv (after (tb_save tb r) w) = tv w @ [r'] \<and> same_data r r'"
    and save_old: "\<lbrakk>row_id r \<in> row_id ` set (tv w); result (tb_save tb r) w = None\<rbrakk> \<Longrightarrow>
      \<exists>r'. tv (after (tb_save tb r) w) = update_row r' (tv w) \<and> row_id r' = row_id r \<and> same_data r r'"
    and save_fail: "result (tb_save tb r) w = Some e \<Longrightarrow> tv (after (tb_save tb r) w) = tv w"
    and delete_ok: "result (tb_delete tb P) w = None \<Longrightarrow>
      tv (after (tb_delete tb P) w) = filter (\<lambda>r. \<not> P r) (tv w)"
    and delete_fail: "result (tb_delete tb P) w = Some e \<Longrightarrow> tv (after (tb_delete tb P) w) = tv w"
    and find_ok: "result (tb_find_by_updated_desc tb P) w = Inr rs \<Longrightarrow>
      mset rs = mset (filter P (tv w)) \<and> sorted_wrt (\<lambda>a b. row_updated b \<le> row_updated a) rs"
    and find_view: "tv (after (tb_find_by_updated_desc tb P) w) = tv w"

section \<open>JSON columns\<close>

datatype 'v json = Json 'v | Malformed string

fun unmarshal :: "'v json \<Rightarrow> string + 'v" where
  "unmarshal (Json v) = Inr v"
| "unmarshal (Malformed e) = Inl e"

definition marshal :: "'v \<Rightarrow> 'v json" where
  "marshal v = Json v"

lemma unmarshal_marshal [simp]: "unmarshal (marshal v) = Inr v"
  by (simp add: marshal_def)

section \<open>Rows\<close>

record client_row = base_row +
  cl_token :: string

record watch_row = base_row +
  wr_client :: int
  wr_catalog :: string
  wr_title :: string
  wr_cover :: string
  wr_provider :: string

record history_row = base_row +
  hw_client :: int
  hw_catalog :: string
  hw_episode :: string
  hw_title :: string
  hw_cover :: string
  hw_provider :: string
  hw_position :: int

record stream_row = base_row +
  sw_episode :: string
  sw_payload :: "stream_result json"
  sw_expires :: time

record catalog_row = base_row +
  cr_catalog :: string
  cr_payload :: "anime_detail json"

record discovery_row = base_row +
  dr_key :: string
  dr_payload :: "cached json"

record startup_row = base_row +
  su_episode :: string
  su_payload :: "startup_entry json"

record alias_row = base_row +
  al_kind :: string
  al_internal :: string
  al_public :: string

section \<open>Queries\<close>

text \<open>
  \<open>First\<close> into a zero row: a missing record leaves the row zero, which \<open>Save\<close> then
  inserts; any other error is returned.
\<close>

definition first_or :: "('w, 'r) table \<Rightarrow> ('r \<Rightarrow> bool) \<Rightarrow> 'r \<Rightarrow> ('w, string + 'r) eff" where
  "first_or tb P zero =
     do { found \<leftarrow> tb_first tb P;
          pass (case found of
                  Inr row \<Rightarrow> Inr row
                | Inl RecordNotFound \<Rightarrow> Inr zero
                | Inl (DbError e) \<Rightarrow> Inl e) }"

definition upsert_row :: "('w, 'r) table \<Rightarrow> ('r \<Rightarrow> bool) \<Rightarrow> 'r \<Rightarrow> ('r \<Rightarrow> 'r) \<Rightarrow> ('w, string option) eff" where
  "upsert_row tb P zero fill =
     do { row \<leftarrow> first_or tb P zero;
          case row of
            Inl e \<Rightarrow> pass (Some e)
          | Inr r \<Rightarrow> tb_save tb (fill r) }"

text \<open>The payload of the first match: absent, an error, or the decoded value.\<close>

definition get_payload :: "('w, 'r) table \<Rightarrow> ('r \<Rightarrow> bool) \<Rightarrow> ('r \<Rightarrow> 'v json) \<Rightarrow> ('w, string + 'v option) eff" where
  "get_payload tb P payload =
     do { found \<leftarrow> tb_first tb P;
          pass (case found of
                  Inl RecordNotFound \<Rightarrow> Inr None
                | Inl (DbError e) \<Rightarrow> Inl e
                | Inr row \<Rightarrow> (case unmarshal (payload row) of Inl e \<Rightarrow> Inl e | Inr v \<Rightarrow> Inr (Some v))) }"

subsection \<open>Clients\<close>

definition zero_client :: client_row where
  "zero_client = \<lparr>row_id = 0, row_created = 0, row_updated = 0, cl_token = []\<rparr>"

definition ensure_client :: "('w, client_row) table \<Rightarrow> string \<Rightarrow> ('w, string + (client_row \<times> bool)) eff" where
  "ensure_client tb token =
     do { found \<leftarrow> tb_first tb (\<lambda>r. cl_token r = token);
          case found of
            Inr client \<Rightarrow> pass (Inr (client, False))
          | Inl RecordNotFound \<Rightarrow>
              do { made \<leftarrow> tb_create tb (zero_client\<lparr>cl_token := token\<rparr>);
                   pass (case made of Inl e \<Rightarrow> Inl e | Inr client \<Rightarrow> Inr (client, True)) }
          | Inl (DbError e) \<Rightarrow> pass (Inl e) }"

definition find_client :: "('w, client_row) table \<Rightarrow> string \<Rightarrow> ('w, db_error + client_row) eff" where
  "find_client tb token = tb_first tb (\<lambda>r. cl_token r = token)"

subsection \<open>Watchlists\<close>

definition zero_watch :: watch_row where
  "zero_watch = \<lparr>row_id = 0, row_created = 0, row_updated = 0, wr_client = 0, wr_catalog = [],
     wr_title = [], wr_cover = [], wr_provider = []\<rparr>"

definition of_client :: "int \<Rightarrow> string \<Rightarrow> watch_row \<Rightarrow> bool" where
  "of_client client catalog r \<longleftrightarrow> wr_client r = client \<and> wr_catalog r = catalog"

definition fill_watch :: "int \<Rightarrow> string \<Rightarrow> string \<Rightarrow> string \<Rightarrow> string \<Rightarrow> watch_row \<Rightarrow> watch_row" where
  "fill_watch client catalog title cover provider r =
     r\<lparr>wr_client := client, wr_catalog := catalog, wr_title := title, wr_cover := cover,
       wr_provider := provider\<rparr>"

definition upsert_watchlist ::
  "('w, watch_row) table \<Rightarrow> int \<Rightarrow> string \<Rightarrow> string \<Rightarrow> string \<Rightarrow> string \<Rightarrow> ('w, string option) eff" where
  "upsert_watchlist tb client catalog title cover provider =
     upsert_row tb (of_client client catalog) zero_watch (fill_watch client catalog title cover provider)"

definition delete_watchlist :: "('w, watch_row) table \<Rightarrow> int \<Rightarrow> string \<Rightarrow> ('w, string option) eff" where
  "delete_watchlist tb client catalog = tb_delete tb (of_client client catalog)"

definition list_watchlist :: "('w, watch_row) table \<Rightarrow> int \<Rightarrow> ('w, string + watch_row list) eff" where
  "list_watchlist tb client = tb_find_by_updated_desc tb (\<lambda>r. wr_client r = client)"

subsection \<open>Histories\<close>

definition zero_history :: history_row where
  "zero_history = \<lparr>row_id = 0, row_created = 0, row_updated = 0, hw_client = 0, hw_catalog = [],
     hw_episode = [], hw_title = [], hw_cover = [], hw_provider = [], hw_position = 0\<rparr>"

definition history_of :: "int \<Rightarrow> string \<Rightarrow> history_row \<Rightarrow> bool" where
  "history_of client catalog r \<longleftrightarrow> hw_client r = client \<and> hw_catalog r = catalog"

text \<open>A blank value does not overwrite what an earlier call stored.\<close>

definition keep_or :: "string \<Rightarrow> string \<Rightarrow> string" where
  "keep_or old new = (if old = [] \<or> trim_space new \<noteq> [] then new else old)"

definition fill_history ::
  "int \<Rightarrow> string \<Rightarrow> string \<Rightarrow> int \<Rightarrow> string \<Rightarrow> string \<Rightarrow> string \<Rightarrow> history_row \<Rightarrow> history_row" where
  "fill_history client catalog ep position title cover provider r =
     r\<lparr>hw_client := client, hw_catalog := catalog, hw_episode := ep,
       hw_title := keep_or (hw_title r) title, hw_cover := keep_or (hw_cover r) cover,
       hw_provider := keep_or (hw_provider r) provider, hw_position := position\<rparr>"

definition upsert_history ::
  "('w, history_row) table \<Rightarrow> int \<Rightarrow> string \<Rightarrow> string \<Rightarrow> int \<Rightarrow> string \<Rightarrow> string \<Rightarrow> string
   \<Rightarrow> ('w, string option) eff" where
  "upsert_history tb client catalog ep position title cover provider =
     upsert_row tb (history_of client catalog) zero_history
       (fill_history client catalog ep position title cover provider)"

definition delete_history :: "('w, history_row) table \<Rightarrow> int \<Rightarrow> string \<Rightarrow> ('w, string option) eff" where
  "delete_history tb client catalog = tb_delete tb (history_of client catalog)"

definition list_history :: "('w, history_row) table \<Rightarrow> int \<Rightarrow> ('w, string + history_row list) eff" where
  "list_history tb client = tb_find_by_updated_desc tb (\<lambda>r. hw_client r = client)"

subsection \<open>Caches\<close>

definition zero_stream :: stream_row where
  "zero_stream = \<lparr>row_id = 0, row_created = 0, row_updated = 0, sw_episode = [],
     sw_payload = Malformed [], sw_expires = 0\<rparr>"

definition get_stream_cache ::
  "('w, stream_row) table \<Rightarrow> string \<Rightarrow> time \<Rightarrow> ('w, string + stream_result option) eff" where
  "get_stream_cache tb ep now =
     do { found \<leftarrow> tb_first tb (\<lambda>r. sw_episode r = ep);
          case found of
            Inl RecordNotFound \<Rightarrow> pass (Inr None)
          | Inl (DbError e) \<Rightarrow> pass (Inl e)
          | Inr row \<Rightarrow>
              if \<not> sw_expires row > now
              then do { err \<leftarrow> tb_delete tb (\<lambda>r. row_id r = row_id row);
                        pass (case err of None \<Rightarrow> Inr None | Some e \<Rightarrow> Inl e) }
              else pass (case unmarshal (sw_payload row) of Inl e \<Rightarrow> Inl e | Inr v \<Rightarrow> Inr (Some v)) }"

definition fill_stream :: "string \<Rightarrow> stream_result \<Rightarrow> time \<Rightarrow> stream_row \<Rightarrow> stream_row" where
  "fill_stream ep v expires_at r = r\<lparr>sw_episode := ep, sw_payload := marshal v, sw_expires := expires_at\<rparr>"

definition upsert_stream_cache ::
  "('w, stream_row) table \<Rightarrow> string \<Rightarrow> stream_result \<Rightarrow> time \<Rightarrow> ('w, string option) eff" where
  "upsert_stream_cache tb ep v expires_at =
     upsert_row tb (\<lambda>r. sw_episode r = ep) zero_stream (fill_stream ep v expires_at)"

definition delete_stream_cache :: "('w, stream_row) table \<Rightarrow> string \<Rightarrow> ('w, string option) eff" where
  "delete_stream_cache tb ep = tb_delete tb (\<lambda>r. sw_episode r = ep)"

definition get_catalog_cache :: "('w, catalog_row) table \<Rightarrow> string \<Rightarrow> ('w, string + anime_detail option) eff" where
  "get_catalog_cache tb catalog = get_payload tb (\<lambda>r. cr_catalog r = catalog) cr_payload"

definition zero_catalog :: catalog_row where
  "zero_catalog = \<lparr>row_id = 0, row_created = 0, row_updated = 0, cr_catalog = [], cr_payload = Malformed []\<rparr>"

definition upsert_catalog_cache ::
  "('w, catalog_row) table \<Rightarrow> string \<Rightarrow> anime_detail \<Rightarrow> ('w, string option) eff" where
  "upsert_catalog_cache tb catalog detail =
     upsert_row tb (\<lambda>r. cr_catalog r = catalog) zero_catalog
       (\<lambda>r. r\<lparr>cr_catalog := catalog, cr_payload := marshal detail\<rparr>)"

definition get_discovery_cache :: "('w, discovery_row) table \<Rightarrow> string \<Rightarrow> ('w, string + cached option) eff" where
  "get_discovery_cache tb key = get_payload tb (\<lambda>r. dr_key r = key) dr_payload"

definition zero_discovery :: discovery_row where
  "zero_discovery = \<lparr>row_id = 0, row_created = 0, row_updated = 0, dr_key = [], dr_payload = Malformed []\<rparr>"

definition upsert_discovery_cache ::
  "('w, discovery_row) table \<Rightarrow> string \<Rightarrow> cached \<Rightarrow> ('w, string option) eff" where
  "upsert_discovery_cache tb key v =
     upsert_row tb (\<lambda>r. dr_key r = key) zero_discovery (\<lambda>r. r\<lparr>dr_key := key, dr_payload := marshal v\<rparr>)"

definition get_startup_media_cache :: "('w, startup_row) table \<Rightarrow> string \<Rightarrow> ('w, string + startup_entry option) eff" where
  "get_startup_media_cache tb ep = get_payload tb (\<lambda>r. su_episode r = ep) su_payload"

definition zero_startup :: startup_row where
  "zero_startup = \<lparr>row_id = 0, row_created = 0, row_updated = 0, su_episode = [], su_payload = Malformed []\<rparr>"

definition upsert_startup_media_cache :: "('w, startup_row) table \<Rightarrow> startup_entry \<Rightarrow> ('w, string option) eff" where
  "upsert_startup_media_cache tb entry =
     upsert_row tb (\<lambda>r. su_episode r = se_episode_id entry) zero_startup
       (\<lambda>r. r\<lparr>su_episode := se_episode_id entry, su_payload := marshal entry\<rparr>)"

subsection \<open>Aliases\<close>

text \<open>\<open>newUUID\<close> on the 16 bytes it draws.\<close>

definition hex_bytes :: "bytes \<Rightarrow> string" where
  "hex_bytes bs = concat (map (\<lambda>b. hex_byte (uint b)) bs)"

definition stamp_uuid :: "bytes \<Rightarrow> bytes" where
  "stamp_uuid bs =
     (let bs = bs[6 := ((bs ! 6) AND 0x0F) OR 0x40] in bs[8 := ((bs ! 8) AND 0x3F) OR 0x80])"

definition new_uuid :: "bytes \<Rightarrow> string" where
  "new_uuid random =
     (let bs = stamp_uuid random
      in hex_bytes (take 4 bs) @ ''-'' @ hex_bytes (take 2 (drop 4 bs)) @ ''-''
         @ hex_bytes (take 2 (drop 6 bs)) @ ''-'' @ hex_bytes (take 2 (drop 8 bs)) @ ''-''
         @ hex_bytes (take 6 (drop 10 bs)))"

definition zero_alias :: alias_row where
  "zero_alias = \<lparr>row_id = 0, row_created = 0, row_updated = 0, al_kind = [], al_internal = [], al_public = []\<rparr>"

definition alias_of :: "string \<Rightarrow> string \<Rightarrow> alias_row \<Rightarrow> bool" where
  "alias_of kind internal r \<longleftrightarrow> al_kind r = kind \<and> al_internal r = internal"

definition ensure_alias ::
  "('w, alias_row) table \<Rightarrow> ('w, bytes) eff \<Rightarrow> string \<Rightarrow> string \<Rightarrow> ('w, string + string) eff" where
  "ensure_alias tb random kind internal =
     do { found \<leftarrow> tb_first tb (alias_of kind internal);
          case found of
            Inr row \<Rightarrow> pass (Inr (al_public row))
          | Inl (DbError e) \<Rightarrow> pass (Inl e)
          | Inl RecordNotFound \<Rightarrow>
              do { bs \<leftarrow> random;
                   saved \<leftarrow> tb_create tb (zero_alias\<lparr>al_kind := kind, al_internal := internal,
                                                     al_public := new_uuid bs\<rparr>);
                   case saved of
                     Inr row \<Rightarrow> pass (Inr (al_public row))
                   | Inl save_err \<Rightarrow>
                       do { again \<leftarrow> tb_first tb (alias_of kind internal);
                            pass (case again of Inr row \<Rightarrow> Inr (al_public row) | Inl _ \<Rightarrow> Inl save_err) } } }"

definition resolve_alias :: "('w, alias_row) table \<Rightarrow> string \<Rightarrow> string \<Rightarrow> ('w, string + string option) eff" where
  "resolve_alias tb kind public_id =
     do { found \<leftarrow> tb_first tb (\<lambda>r. al_kind r = kind \<and> al_public r = public_id);
          pass (case found of
                  Inr row \<Rightarrow> Inr (Some (al_internal row))
                | Inl RecordNotFound \<Rightarrow> Inr None
                | Inl (DbError e) \<Rightarrow> Inl e) }"

end
