(* ===== verification/Postgres_Props.thy ===== *)
theory Postgres_Props
  imports Postgres
begin

text \<open>
  What the database store promises over any table that behaves as gorm documents: a key
  is found again with what was last stored under it and no other key is disturbed, lists
  stay free of duplicates, clients and aliases are stable. The startup table is a
  metadata store of the media cache.
\<close>

section \<open>Keyed tables\<close>

lemma find_update_row:
  assumes "distinct (map row_id rows)" and "List.find P rows = Some r0" and "row_id r = row_id r0" and "P r"
  shows "List.find P (update_row r rows) = Some r"
  using assms
proof (induction rows)
  case (Cons x xs)
  show ?case
  proof (cases "P x")
    case True
    with Cons.prems have "x = r0" by simp
    with Cons.prems show ?thesis by (simp add: update_row_def)
  next
    case False
    with Cons.prems have f: "List.find P xs = Some r0" by simp
    then have "r0 \<in> set xs" using find_SomeD by fast
    with Cons.prems have "row_id x \<noteq> row_id r" by (auto simp: image_iff)
    with False f Cons show ?thesis by (simp add: update_row_def)
  qed
qed simp

lemma find_update_row_other:
  assumes "distinct (map row_id rows)" and "r0 \<in> set rows" and "row_id r = row_id r0"
    and "\<not> Q r" "\<not> Q r0"
  shows "List.find Q (update_row r rows) = List.find Q rows"
proof -
  have "x = r0" if "x \<in> set rows" "row_id x = row_id r" for x
    using that assms(1-3) by (auto simp: distinct_map dest: inj_onD)
  then have "List.find Q (map (\<lambda>x. if row_id x = row_id r then r else x) xs) = List.find Q xs"
    if "set xs \<subseteq> set rows" for xs
    using that assms(4,5) by (induction xs) auto
  then show ?thesis by (simp add: update_row_def)
qed

lemma update_row_keys:
  assumes "distinct (map row_id rows)" and "r0 \<in> set rows" and "row_id r = row_id r0" and "key r = key r0"
  shows "map key (update_row r rows) = map key rows"
proof -
  have "x = r0" if "x \<in> set rows" "row_id x = row_id r" for x
    using that assms(1-3) by (auto simp: distinct_map dest: inj_onD)
  then show ?thesis using assms(4) by (auto simp: update_row_def)
qed

lemma find_append: "List.find P (xs @ ys) = (case List.find P xs of Some x \<Rightarrow> Some x | None \<Rightarrow> List.find P ys)"
  by (induction xs) auto

text \<open>
  A table together with a key that is part of the data of a row. An upsert of a key fills
  in the row found, or a zero row.
\<close>

locale keyed_table = gorm_table tb tv
  for tb :: "('w, 'a base_row_scheme) table" and tv +
  fixes key :: "'a base_row_scheme \<Rightarrow> 'k"
  assumes key_data: "same_data r r' \<Longrightarrow> key r = key r'"
begin

definition row_of :: "'w \<Rightarrow> 'k \<Rightarrow> 'a base_row_scheme option" where
  "row_of w k = List.find (\<lambda>r. key r = k) (tv w)"

lemma row_of_key: "row_of w k = Some r \<Longrightarrow> key r = k \<and> r \<in> set (tv w)"
  unfolding row_of_def using find_SomeD by fast

lemma first_row: "result (tb_first tb (\<lambda>r. key r = k)) w = Inr r \<Longrightarrow> row_of w k = Some r"
  unfolding row_of_def by (rule first_found)

lemma first_none: "result (tb_first tb (\<lambda>r. key r = k)) w = Inl RecordNotFound \<Longrightarrow> row_of w k = None"
  unfolding row_of_def by (rule first_missing)

lemma view_row_of: "tv w' = tv w \<Longrightarrow> row_of w' = row_of w"
  by (simp add: row_of_def fun_eq_iff)

lemma first_row_of: "row_of (after (tb_first tb P) w) = row_of w"
  by (rule view_row_of) (rule first_view)

lemma get_payload_sound:
  "result (get_payload tb (\<lambda>r. key r = k) payload) w = Inr v \<Longrightarrow>
     v = Option.bind (row_of w k) (\<lambda>r. case unmarshal (payload r) of Inr x \<Rightarrow> Some x | Inl _ \<Rightarrow> None)"
  by (auto simp: get_payload_def dest: first_row first_none split: sum.splits db_error.splits)

lemma get_payload_row_of: "row_of (after (get_payload tb P payload) w) = row_of w"
  by (simp add: get_payload_def first_row_of)

text \<open>The outcome of a successful upsert.\<close>

lemma upsert_cases:
  assumes "result (upsert_row tb (\<lambda>r. key r = k) zero fill) w = None"
    and "row_id zero = 0" and "\<And>r. row_id (fill r) = row_id r"
  obtains (insert) r' where "row_of w k = None" "same_data (fill zero) r'"
      "tv (after (upsert_row tb (\<lambda>r. key r = k) zero fill) w) = tv w @ [r']"
  | (update) r r' where "row_of w k = Some r" "same_data (fill r) r'" "row_id r' = row_id r"
      "tv (after (upsert_row tb (\<lambda>r. key r = k) zero fill) w) = update_row r' (tv w)"
proof (cases "result (tb_first tb (\<lambda>r. key r = k)) w")
  case (Inl e)
  with assms(1) have e: "e = RecordNotFound"
    by (cases e) (simp_all add: upsert_row_def first_or_def)
  let ?w = "after (tb_first tb (\<lambda>r. key r = k)) w"
  have "result (tb_save tb (fill zero)) ?w = None"
    using assms(1) Inl e by (simp add: upsert_row_def first_or_def)
  moreover have "row_id (fill zero) = 0" using assms by simp
  ultimately obtain r' where "tv (after (tb_save tb (fill zero)) ?w) = tv w @ [r']" "same_data (fill zero) r'"
    using save_new [of "fill zero" ?w] by (auto simp: first_view)
  moreover have "row_of w k = None" using Inl e first_none by simp
  ultimately show thesis using Inl e
    by (intro insert [of r']) (simp_all add: upsert_row_def first_or_def)
next
  case (Inr r)
  let ?w = "after (tb_first tb (\<lambda>r. key r = k)) w"
  have r: "row_of w k = Some r" using Inr by (rule first_row)
  then have "row_id (fill r) \<in> row_id ` set (tv ?w)" using row_of_key assms(3) by (force simp: first_view)
  moreover have "result (tb_save tb (fill r)) ?w = None"
    using assms(1) Inr by (simp add: upsert_row_def first_or_def)
  ultimately obtain r' where "tv (after (tb_save tb (fill r)) ?w) = update_row r' (tv w)"
      "row_id r' = row_id r" "same_data (fill r) r'"
    using save_old [of "fill r" ?w] assms(3) by (auto simp: first_view)
  then show thesis using Inr r
    by (intro update [of r r']) (simp_all add: upsert_row_def first_or_def)
qed

lemma upsert_row_of:
  assumes ok: "result (upsert_row tb (\<lambda>r. key r = k) zero fill) w = None"
    and fill: "row_id zero = 0" "\<And>r. row_id (fill r) = row_id r" "\<And>r. key (fill r) = k"
  shows "\<exists>r'. row_of (after (upsert_row tb (\<lambda>r. key r = k) zero fill) w) k = Some r'
    \<and> same_data (fill (case row_of w k of None \<Rightarrow> zero | Some r \<Rightarrow> r)) r'"
proof (cases rule: upsert_cases [OF ok fill(1,2), case_names insert update])
  case (insert r')
  moreover have "key r' = k" using key_data [OF insert(2)] fill(3) by simp
  ultimately show ?thesis by (simp add: row_of_def find_append)
next
  case (update r r')
  moreover have "key r' = k" using key_data [OF update(2)] fill(3) by simp
  ultimately have "row_of (after (upsert_row tb (\<lambda>r. key r = k) zero fill) w) k = Some r'"
    using find_update_row [OF ids(1) update(1) [unfolded row_of_def], of r'] by (simp add: row_of_def)
  with update show ?thesis by simp
qed

lemma upsert_row_of_other:
  assumes ok: "result (upsert_row tb (\<lambda>r. key r = k) zero fill) w = None"
    and fill: "row_id zero = 0" "\<And>r. row_id (fill r) = row_id r" "\<And>r. key (fill r) = k"
    and "k' \<noteq> k"
  shows "row_of (after (upsert_row tb (\<lambda>r. key r = k) zero fill) w) k' = row_of w k'"
proof (cases rule: upsert_cases [OF ok fill(1,2), case_names insert update])
  case (insert r')
  moreover have "key r' = k" using key_data [OF insert(2)] fill(3) by simp
  ultimately show ?thesis using \<open>k' \<noteq> k\<close> by (auto simp: row_of_def find_append split: option.split)
next
  case (update r r')
  have "key r' = k" "key r = k" "r \<in> set (tv w)"
    using key_data [OF update(2)] fill(3) row_of_key [OF update(1)] by simp_all
  then show ?thesis
    using find_update_row_other [OF ids(1), of r w r' "\<lambda>r. key r = k'"] update \<open>k' \<noteq> k\<close>
    by (simp add: row_of_def)
qed

lemma upsert_fail:
  assumes "result (upsert_row tb P zero fill) w = Some e"
  shows "tv (after (upsert_row tb P zero fill) w) = tv w"
  using assms
  by (auto simp: upsert_row_def first_or_def first_view dest: save_fail split: sum.splits db_error.splits)

text \<open>No two rows with the same key: kept by upserts and deletions.\<close>

lemma upsert_distinct:
  assumes "distinct (map key (tv w))"
    and fill: "row_id zero = 0" "\<And>r. row_id (fill r) = row_id r" "\<And>r. key (fill r) = k"
  shows "distinct (map key (tv (after (upsert_row tb (\<lambda>r. key r = k) zero fill) w)))"
proof (cases "result (upsert_row tb (\<lambda>r. key r = k) zero fill) w")
  case None
  show ?thesis
  proof (cases rule: upsert_cases [OF None fill(1,2), case_names insert update])
    case (insert r')
    moreover have "key r' = k" using key_data [OF insert(2)] fill(3) by simp
    moreover have "k \<notin> key ` set (tv w)" using insert(1) by (auto simp: row_of_def find_None)
    ultimately show ?thesis using assms(1) by simp
  next
    case (update r r')
    have "key r' = key r" "r \<in> set (tv w)"
      using key_data [OF update(2)] fill(3) row_of_key [OF update(1)] by simp_all
    then show ?thesis using update_row_keys [OF ids(1), of r w r' key] update assms(1) by simp
  qed
next
  case (Some e)
  with assms(1) upsert_fail show ?thesis by simp
qed

lemma delete_distinct:
  "distinct (map key (tv w)) \<Longrightarrow> distinct (map key (tv (after (tb_delete tb P) w)))"
  using delete_ok [of P w] delete_fail [of P w]
  by (cases "result (tb_delete tb P) w") (auto simp: distinct_map_filter)

end

lemma same_data_fields:
  "same_data c c' \<Longrightarrow> cl_token c = cl_token (c' :: client_row)"
  "same_data s s' \<Longrightarrow> sw_episode s = sw_episode (s' :: stream_row) \<and> sw_payload s = sw_payload s'
     \<and> sw_expires s = sw_expires s'"
  "same_data k k' \<Longrightarrow> cr_catalog k = cr_catalog (k' :: catalog_row) \<and> cr_payload k = cr_payload k'"
  "same_data d d' \<Longrightarrow> dr_key d = dr_key (d' :: discovery_row) \<and> dr_payload d = dr_payload d'"
  "same_data u u' \<Longrightarrow> su_episode u = su_episode (u' :: startup_row) \<and> su_payload u = su_payload u'"
  "same_data x x' \<Longrightarrow> wr_client x = wr_client (x' :: watch_row) \<and> wr_catalog x = wr_catalog x'
     \<and> wr_title x = wr_title x' \<and> wr_cover x = wr_cover x' \<and> wr_provider x = wr_provider x'"
  "same_data h h' \<Longrightarrow> hw_client h = hw_client (h' :: history_row) \<and> hw_catalog h = hw_catalog h'
     \<and> hw_episode h = hw_episode h' \<and> hw_title h = hw_title h' \<and> hw_cover h = hw_cover h'
     \<and> hw_provider h = hw_provider h' \<and> hw_position h = hw_position h'"
  "same_data a a' \<Longrightarrow> al_kind a = al_kind (a' :: alias_row) \<and> al_internal a = al_internal a'
     \<and> al_public a = al_public a'"
  by ((cases c; cases c'; simp add: same_data_def), (cases s; cases s'; simp add: same_data_def),
    (cases k; cases k'; simp add: same_data_def), (cases d; cases d'; simp add: same_data_def),
    (cases u; cases u'; simp add: same_data_def), (cases x; cases x'; simp add: same_data_def),
    (cases h; cases h'; simp add: same_data_def), (cases a; cases a'; simp add: same_data_def))

section \<open>The tables of the store\<close>

definition watch_key :: "watch_row \<Rightarrow> int \<times> string" where
  "watch_key r = (wr_client r, wr_catalog r)"

definition history_key :: "history_row \<Rightarrow> int \<times> string" where
  "history_key r = (hw_client r, hw_catalog r)"

definition alias_key :: "alias_row \<Rightarrow> string \<times> string" where
  "alias_key r = (al_kind r, al_internal r)"

lemma of_client_key: "of_client c k = (\<lambda>r. watch_key r = (c, k))"
  by (auto simp: of_client_def watch_key_def fun_eq_iff)

lemma history_of_key: "history_of c k = (\<lambda>r. history_key r = (c, k))"
  by (auto simp: history_of_def history_key_def fun_eq_iff)

lemma alias_of_key: "alias_of k i = (\<lambda>r. alias_key r = (k, i))"
  by (auto simp: alias_of_def alias_key_def fun_eq_iff)

locale watch_table = gorm_table tb tv for tb :: "('w, watch_row) table" and tv

sublocale watch_table \<subseteq> keyed_table tb tv watch_key
  by unfold_locales (simp add: watch_key_def same_data_fields)

locale history_table = gorm_table tb tv for tb :: "('w, history_row) table" and tv

sublocale history_table \<subseteq> keyed_table tb tv history_key
  by unfold_locales (simp add: history_key_def same_data_fields)

locale stream_table = gorm_table tb tv for tb :: "('w, stream_row) table" and tv

sublocale stream_table \<subseteq> keyed_table tb tv sw_episode
  by unfold_locales (simp add: same_data_fields)

locale catalog_table = gorm_table tb tv for tb :: "('w, catalog_row) table" and tv

sublocale catalog_table \<subseteq> keyed_table tb tv cr_catalog
  by unfold_locales (simp add: same_data_fields)

locale discovery_table = gorm_table tb tv for tb :: "('w, discovery_row) table" and tv

sublocale discovery_table \<subseteq> keyed_table tb tv dr_key
  by unfold_locales (simp add: same_data_fields)

locale startup_table = gorm_table tb tv for tb :: "('w, startup_row) table" and tv

sublocale startup_table \<subseteq> keyed_table tb tv su_episode
  by unfold_locales (simp add: same_data_fields)

locale client_table = gorm_table tb tv for tb :: "('w, client_row) table" and tv

sublocale client_table \<subseteq> keyed_table tb tv cl_token
  by unfold_locales (simp add: same_data_fields)

locale alias_table = gorm_table tb tv for tb :: "('w, alias_row) table" and tv

sublocale alias_table \<subseteq> keyed_table tb tv alias_key
  by unfold_locales (simp add: alias_key_def same_data_fields)

subsection \<open>Watchlists and histories\<close>

context watch_table
begin

lemma upsert_watchlist_row:
  assumes "result (upsert_watchlist tb c k t v p) w = None"
  shows "\<exists>r. row_of (after (upsert_watchlist tb c k t v p) w) (c, k) = Some r
      \<and> wr_client r = c \<and> wr_catalog r = k \<and> wr_title r = t \<and> wr_cover r = v \<and> wr_provider r = p"
    and "key' \<noteq> (c, k) \<Longrightarrow> row_of (after (upsert_watchlist tb c k t v p) w) key' = row_of w key'"
proof -
  note fill = fill_watch_def zero_watch_def watch_key_def
  from upsert_row_of [OF assms [unfolded upsert_watchlist_def of_client_key]]
  show "\<exists>r. row_of (after (upsert_watchlist tb c k t v p) w) (c, k) = Some r
      \<and> wr_client r = c \<and> wr_catalog r = k \<and> wr_title r = t \<and> wr_cover r = v \<and> wr_provider r = p"
    unfolding upsert_watchlist_def of_client_key by (force simp: fill dest: same_data_fields(6))
  show "row_of (after (upsert_watchlist tb c k t v p) w) key' = row_of w key'" if "key' \<noteq> (c, k)"
    using upsert_row_of_other [OF assms [unfolded upsert_watchlist_def of_client_key] _ _ _ that]
    unfolding upsert_watchlist_def of_client_key by (simp add: fill)
qed

lemma upsert_watchlist_distinct:
  "distinct (map watch_key (tv w)) \<Longrightarrow>
     distinct (map watch_key (tv (after (upsert_watchlist tb c k t v p) w)))"
  unfolding upsert_watchlist_def of_client_key
  by (rule upsert_distinct) (simp_all add: fill_watch_def zero_watch_def watch_key_def)

lemma delete_watchlist_distinct:
  "distinct (map watch_key (tv w)) \<Longrightarrow> distinct (map watch_key (tv (after (delete_watchlist tb c k) w)))"
  unfolding delete_watchlist_def by (rule delete_distinct)

lemma delete_watchlist_rows:
  "result (delete_watchlist tb c k) w = None \<Longrightarrow>
     tv (after (delete_watchlist tb c k) w) = filter (\<lambda>r. watch_key r \<noteq> (c, k)) (tv w)"
  unfolding delete_watchlist_def of_client_key by (rule delete_ok)

lemma list_watchlist_view: "tv (after (list_watchlist tb c) w) = tv w"
  unfolding list_watchlist_def by (rule find_view)

text \<open>
  Two upserts of a key that is not there, interleaved: both look the row up before either
  saves.
\<close>

lemma interleaved_upserts:
  assumes none: "row_of w (c, k) = None"
    and a: "result (first_or tb (of_client c k) zero_watch) w = Inr ra"
    and b: "result (first_or tb (of_client c k) zero_watch) (after (first_or tb (of_client c k) zero_watch) w) = Inr rb"
    and wb: "wb = after (first_or tb (of_client c k) zero_watch) (after (first_or tb (of_client c k) zero_watch) w)"
    and sa: "result (tb_save tb (fill_watch c k t v p ra)) wb = None"
    and sb: "result (tb_save tb (fill_watch c k t' v' p' rb)) (after (tb_save tb (fill_watch c k t v p ra)) wb) = None"
  shows "\<not> distinct (map watch_key
    (tv (after (tb_save tb (fill_watch c k t' v' p' rb)) (after (tb_save tb (fill_watch c k t v p ra)) wb))))"
proof -
  have zero: "r = zero_watch" if "result (first_or tb (of_client c k) zero_watch) x = Inr r" "row_of x (c, k) = None" for r x
    using that first_row [of "(c, k)" x] unfolding first_or_def of_client_key
    by (auto split: sum.splits db_error.splits)
  have view: "tv (after (first_or tb (of_client c k) zero_watch) x) = tv x" for x
    by (simp add: first_or_def first_view)
  have "ra = zero_watch" "rb = zero_watch"
    using zero [OF a none] zero [OF b] none view_row_of [OF view] by simp_all
  then obtain r1 r2 where r: "tv (after (tb_save tb (fill_watch c k t v p ra)) wb) = tv w @ [r1]"
      "same_data (fill_watch c k t v p ra) r1"
      "tv (after (tb_save tb (fill_watch c k t' v' p' rb)) (after (tb_save tb (fill_watch c k t v p ra)) wb))
        = (tv w @ [r1]) @ [r2]" "same_data (fill_watch c k t' v' p' rb) r2"
    using save_new [OF _ sa] save_new [OF _ sb] view wb by (auto simp: fill_watch_def zero_watch_def)
  have "watch_key r1 = (c, k)" "watch_key r2 = (c, k)"
    using r(2,4) by (auto simp: watch_key_def fill_watch_def dest: same_data_fields(6))
  then show ?thesis unfolding r(3) by simp
qed

end

context history_table
begin

lemma upsert_history_row:
  assumes "result (upsert_history tb c k ep n t v p) w = None"
  shows "\<exists>r. row_of (after (upsert_history tb c k ep n t v p) w) (c, k) = Some r
      \<and> hw_client r = c \<and> hw_catalog r = k \<and> hw_episode r = ep \<and> hw_position r = n
      \<and> hw_title r = keep_or (case row_of w (c, k) of None \<Rightarrow> [] | Some r0 \<Rightarrow> hw_title r0) t
      \<and> hw_cover r = keep_or (case row_of w (c, k) of None \<Rightarrow> [] | Some r0 \<Rightarrow> hw_cover r0) v
      \<and> hw_provider r = keep_or (case row_of w (c, k) of None \<Rightarrow> [] | Some r0 \<Rightarrow> hw_provider r0) p"
    and "key' \<noteq> (c, k) \<Longrightarrow> row_of (after (upsert_history tb c k ep n t v p) w) key' = row_of w key'"
proof -
  note fill = fill_history_def zero_history_def history_key_def
  have "\<exists>r. row_of (after (upsert_history tb c k ep n t v p) w) (c, k) = Some r
      \<and> same_data (fill_history c k ep n t v p (case row_of w (c, k) of None \<Rightarrow> zero_history | Some r \<Rightarrow> r)) r"
    using upsert_row_of [OF assms [unfolded upsert_history_def history_of_key]]
    unfolding upsert_history_def history_of_key by (simp add: fill)
  then show "\<exists>r. row_of (after (upsert_history tb c k ep n t v p) w) (c, k) = Some r
      \<and> hw_client r = c \<and> hw_catalog r = k \<and> hw_episode r = ep \<and> hw_position r = n
      \<and> hw_title r = keep_or (case row_of w (c, k) of None \<Rightarrow> [] | Some r0 \<Rightarrow> hw_title r0) t
      \<and> hw_cover r = keep_or (case row_of w (c, k) of None \<Rightarrow> [] | Some r0 \<Rightarrow> hw_cover r0) v
      \<and> hw_provider r = keep_or (case row_of w (c, k) of None \<Rightarrow> [] | Some r0 \<Rightarrow> hw_provider r0) p"
    by (cases "row_of w (c, k)") (force simp: fill dest: same_data_fields(7))+
  show "row_of (after (upsert_history tb c k ep n t v p) w) key' = row_of w key'" if "key' \<noteq> (c, k)"
    using upsert_row_of_other [OF assms [unfolded upsert_history_def history_of_key] _ _ _ that]
    unfolding upsert_history_def history_of_key by (simp add: fill)
qed

end

subsection \<open>Caches\<close>

context stream_table
begin

lemma upsert_stream_row:
  assumes "result (upsert_stream_cache tb ep v e) w = None"
  shows "\<exists>r. row_of (after (upsert_stream_cache tb ep v e) w) ep = Some r
      \<and> sw_payload r = marshal v \<and> sw_expires r = e"
    and "ep' \<noteq> ep \<Longrightarrow> row_of (after (upsert_stream_cache tb ep v e) w) ep' = row_of w ep'"
proof -
  note fill = fill_stream_def zero_stream_def
  show "\<exists>r. row_of (after (upsert_stream_cache tb ep v e) w) ep = Some r
      \<and> sw_payload r = marshal v \<and> sw_expires r = e"
    using upsert_row_of [OF assms [unfolded upsert_stream_cache_def]]
    unfolding upsert_stream_cache_def by (force simp: fill dest: same_data_fields(2))
  show "row_of (after (upsert_stream_cache tb ep v e) w) ep' = row_of w ep'" if "ep' \<noteq> ep"
    using upsert_row_of_other [OF assms [unfolded upsert_stream_cache_def] _ _ _ that]
    unfolding upsert_stream_cache_def by (simp add: fill)
qed

lemma get_stream_sound:
  "result (get_stream_cache tb ep now) w = Inr (Some v) \<Longrightarrow>
     \<exists>r. row_of w ep = Some r \<and> now < sw_expires r \<and> unmarshal (sw_payload r) = Inr v"
  by (auto simp: get_stream_cache_def dest: first_row split: sum.splits db_error.splits if_splits option.splits)

lemma get_stream_none:
  "result (get_stream_cache tb ep now) w = Inr None \<Longrightarrow>
     row_of w ep = None \<or> (\<exists>r. row_of w ep = Some r \<and> sw_expires r \<le> now)"
  by (auto simp: get_stream_cache_def dest: first_row first_none split: sum.splits db_error.splits if_splits option.splits)

text \<open>An expired row is removed by the read that finds it.\<close>

lemma get_stream_expired:
  assumes "result (get_stream_cache tb ep now) w = Inr None" and "row_of w ep = Some r"
  shows "tv (after (get_stream_cache tb ep now) w) = filter (\<lambda>x. row_id x \<noteq> row_id r) (tv w)"
proof (cases "result (tb_first tb (\<lambda>r. sw_episode r = ep)) w")
  case (Inl e)
  then show ?thesis using assms first_none by (cases e) (auto simp: get_stream_cache_def)
next
  case (Inr r')
  with assms(2) have "r' = r" using first_row by fastforce
  then show ?thesis using assms(1) Inr
    by (auto simp: get_stream_cache_def first_view delete_ok split: if_splits option.splits sum.splits)
qed

end

context catalog_table
begin

lemma catalog_roundtrip:
  assumes "result (upsert_catalog_cache tb c d) w = None"
    and "result (get_catalog_cache tb c') (after (upsert_catalog_cache tb c d) w) = Inr x"
  shows "x = (if c' = c then Some d else Option.bind (row_of w c')
      (\<lambda>r. case unmarshal (cr_payload r) of Inr x \<Rightarrow> Some x | Inl _ \<Rightarrow> None))"
proof (cases "c' = c")
  case True
  have "\<exists>r. row_of (after (upsert_catalog_cache tb c d) w) c = Some r \<and> cr_payload r = marshal d"
    using upsert_row_of [OF assms(1) [unfolded upsert_catalog_cache_def]]
    unfolding upsert_catalog_cache_def by (force simp: zero_catalog_def dest: same_data_fields(3))
  with True show ?thesis using get_payload_sound [OF assms(2) [unfolded get_catalog_cache_def]] by auto
next
  case False
  then have "row_of (after (upsert_catalog_cache tb c d) w) c' = row_of w c'"
    using upsert_row_of_other [OF assms(1) [unfolded upsert_catalog_cache_def] _ _ _ False]
    unfolding upsert_catalog_cache_def by (simp add: zero_catalog_def)
  with False show ?thesis using get_payload_sound [OF assms(2) [unfolded get_catalog_cache_def]] by simp
qed

end

context discovery_table
begin

lemma discovery_roundtrip:
  assumes "result (upsert_discovery_cache tb k v) w = None"
    and "result (get_discovery_cache tb k') (after (upsert_discovery_cache tb k v) w) = Inr x"
  shows "x = (if k' = k then Some v else Option.bind (row_of w k')
      (\<lambda>r. case unmarshal (dr_payload r) of Inr x \<Rightarrow> Some x | Inl _ \<Rightarrow> None))"
proof (cases "k' = k")
  case True
  have "\<exists>r. row_of (after (upsert_discovery_cache tb k v) w) k = Some r \<and> dr_payload r = marshal v"
    using upsert_row_of [OF assms(1) [unfolded upsert_discovery_cache_def]]
    unfolding upsert_discovery_cache_def by (force simp: zero_discovery_def dest: same_data_fields(4))
  with True show ?thesis using get_payload_sound [OF assms(2) [unfolded get_discovery_cache_def]] by auto
next
  case False
  then have "row_of (after (upsert_discovery_cache tb k v) w) k' = row_of w k'"
    using upsert_row_of_other [OF assms(1) [unfolded upsert_discovery_cache_def] _ _ _ False]
    unfolding upsert_discovery_cache_def by (simp add: zero_discovery_def)
  with False show ?thesis using get_payload_sound [OF assms(2) [unfolded get_discovery_cache_def]] by simp
qed

end

text \<open>The startup table as the metadata store of the media cache.\<close>

definition pg_metadata :: "('w, startup_row) table \<Rightarrow> 'w metadata_store" where
  "pg_metadata tb = \<lparr>md_get = get_startup_media_cache tb, md_upsert = upsert_startup_media_cache tb\<rparr>"

definition startup_view :: "('w \<Rightarrow> startup_row list) \<Rightarrow> 'w \<Rightarrow> string \<rightharpoonup> startup_entry" where
  "startup_view tv w ep =
     Option.bind (List.find (\<lambda>r. su_episode r = ep) (tv w))
       (\<lambda>r. case unmarshal (su_payload r) of Inr v \<Rightarrow> Some v | Inl _ \<Rightarrow> None)"

context startup_table
begin

lemma upsert_startup_row:
  assumes "result (upsert_startup_media_cache tb e) w = None"
  shows "startup_view tv (after (upsert_startup_media_cache tb e) w) = (startup_view tv w)(se_episode_id e \<mapsto> e)"
proof (rule ext)
  fix ep
  note unf = upsert_startup_media_cache_def
  show "startup_view tv (after (upsert_startup_media_cache tb e) w) ep
      = ((startup_view tv w)(se_episode_id e \<mapsto> e)) ep"
  proof (cases "ep = se_episode_id e")
    case True
    have "\<exists>r. row_of (after (upsert_startup_media_cache tb e) w) ep = Some r \<and> su_payload r = marshal e"
      unfolding True using upsert_row_of [OF assms [unfolded unf]]
      unfolding unf by (force simp: zero_startup_def dest: same_data_fields(5))
    with True show ?thesis by (auto simp: startup_view_def row_of_def)
  next
    case False
    then have "row_of (after (upsert_startup_media_cache tb e) w) ep = row_of w ep"
      using upsert_row_of_other [OF assms [unfolded unf] _ _ _ False]
      unfolding unf by (simp add: zero_startup_def)
    with False show ?thesis by (simp add: startup_view_def row_of_def)
  qed
qed

end

sublocale startup_table \<subseteq> metadata_map "pg_metadata tb" "startup_view tv"
proof (unfold_locales, goal_cases)
  case (1 k w r)
  then show ?case
    using get_payload_sound [of k su_payload w r]
    by (simp add: pg_metadata_def get_startup_media_cache_def startup_view_def row_of_def)
next
  case (2 k w)
  then show ?case
    using get_payload_row_of [of "\<lambda>r. su_episode r = k" su_payload w]
    by (simp add: pg_metadata_def get_startup_media_cache_def startup_view_def row_of_def fun_eq_iff)
next
  case (3 e w)
  then show ?case by (simp add: pg_metadata_def upsert_startup_row)
next
  case (4 k e w)
  show ?case
  proof (cases "result (upsert_startup_media_cache tb e) w")
    case None
    with 4 show ?thesis by (simp add: pg_metadata_def upsert_startup_row)
  next
    case (Some err)
    then have "tv (after (upsert_startup_media_cache tb e) w) = tv w"
      unfolding upsert_startup_media_cache_def by (rule upsert_fail)
    then show ?thesis by (simp add: pg_metadata_def startup_view_def)
  qed
qed

subsection \<open>Clients and aliases\<close>

context client_table
begin

lemma ensure_client_row:
  assumes "result (ensure_client tb token) w = Inr (client, created)"
  shows "cl_token client = token" "row_of (after (ensure_client tb token) w) token = Some client"
    "created \<longleftrightarrow> row_of w token = None"
proof -
  consider (found) "result (tb_first tb (\<lambda>r. cl_token r = token)) w = Inr client" "\<not> created"
    | (made) "result (tb_first tb (\<lambda>r. cl_token r = token)) w = Inl RecordNotFound" "created"
        "result (tb_create tb (zero_client\<lparr>cl_token := token\<rparr>)) (after (tb_first tb (\<lambda>r. cl_token r = token)) w) = Inr client"
    using assms by (auto simp: ensure_client_def split: sum.splits db_error.splits)
  then have "cl_token client = token \<and> row_of (after (ensure_client tb token) w) token = Some client
      \<and> (created \<longleftrightarrow> row_of w token = None)"
  proof cases
    case found
    note r = first_row [OF found(1)]
    from r row_of_key [OF r] found show ?thesis by (simp add: ensure_client_def first_row_of)
  next
    case made
    let ?w = "after (tb_first tb (\<lambda>r. cl_token r = token)) w"
    from create_ok [OF made(3)] have c: "tv (after (tb_create tb (zero_client\<lparr>cl_token := token\<rparr>)) ?w) = tv w @ [client]"
        "cl_token client = token"
      by (auto simp: first_view zero_client_def dest: same_data_fields(1))
    have n: "row_of w token = None" using made(1) by (rule first_none)
    then have "row_of (after (ensure_client tb token) w) token = Some client"
      using c made by (simp add: ensure_client_def row_of_def find_append)
    with c n made show ?thesis by simp
  qed
  then show "cl_token client = token" "row_of (after (ensure_client tb token) w) token = Some client"
    "created \<longleftrightarrow> row_of w token = None" by simp_all
qed

lemma ensure_client_again:
  assumes "result (ensure_client tb token) w = Inr (client, created)"
    and "result (ensure_client tb token) (after (ensure_client tb token) w) = Inr (client', created')"
  shows "client' = client \<and> \<not> created'"
proof -
  let ?w = "after (ensure_client tb token) w"
  note r = ensure_client_row(2) [OF assms(1)]
  have c: "\<not> created'" using ensure_client_row(3) [OF assms(2)] r by simp
  then have "result (tb_first tb (\<lambda>r. cl_token r = token)) ?w = Inr client'"
    using assms(2) by (auto simp: ensure_client_def split: sum.splits db_error.splits)
  from first_row [OF this] r c show ?thesis by simp
qed

end

context alias_table
begin

text \<open>Public identifiers are unique among the rows; the index makes \<open>Create\<close> refuse another.\<close>

lemma ensure_alias_row:
  assumes "result (ensure_alias tb random kind i) w = Inr p"
    and rnd: "\<And>w. tv (after random w) = tv w"
  shows "\<exists>r. row_of (after (ensure_alias tb random kind i) w) (kind, i) = Some r \<and> al_public r = p"
proof -
  note unf = ensure_alias_def alias_of_key
  let ?f = "tb_first tb (\<lambda>r. alias_key r = (kind, i))"
  let ?w1 = "after random (after ?f w)"
  let ?new = "zero_alias\<lparr>al_kind := kind, al_internal := i, al_public := new_uuid (result random (after ?f w))\<rparr>"
  let ?w2 = "after (tb_create tb ?new) ?w1"
  have v: "tv (after ?f x) = tv x" for x by (rule first_view)
  consider (found) r where "result ?f w = Inr r" "al_public r = p"
    | (made) r where "result ?f w = Inl RecordNotFound" "result (tb_create tb ?new) ?w1 = Inr r" "al_public r = p"
    | (raced) e r where "result ?f w = Inl RecordNotFound" "result (tb_create tb ?new) ?w1 = Inl e"
        "result ?f ?w2 = Inr r" "al_public r = p"
    using assms(1) unfolding unf by (auto split: sum.splits db_error.splits)
  then show ?thesis
  proof cases
    case found
    from first_row [OF found(1)] found show ?thesis unfolding unf by (simp add: first_row_of)
  next
    case made
    have c: "tv ?w2 = tv w @ [r]" "alias_key r = (kind, i)"
      using create_ok [OF made(2)] key_data [of ?new r]
      by (simp_all add: rnd v) (simp add: alias_key_def)
    have "row_of w (kind, i) = None" using made(1) by (rule first_none)
    then have "row_of ?w2 (kind, i) = Some r" using c by (simp add: row_of_def find_append)
    with made show ?thesis unfolding unf by simp
  next
    case raced
    from first_row [OF raced(3)] raced show ?thesis unfolding unf by (simp add: first_row_of)
  qed
qed

lemma resolve_alias_sound:
  assumes "result (resolve_alias tb kind p) w = Inr x"
    and "distinct (map al_public (tv w))" and "row_of w (kind, i) = Some r" and "al_public r = p"
  shows "x = Some i"
proof -
  have r: "al_kind r = kind" "al_internal r = i" "r \<in> set (tv w)"
    using row_of_key [OF assms(3)] by (simp_all add: alias_key_def)
  let ?P = "\<lambda>r. al_kind r = kind \<and> al_public r = p"
  obtain q where q: "List.find ?P (tv w) = Some q"
    using find_ex [of r "tv w" ?P] r assms(4) by auto
  then have "q \<in> set (tv w)" "al_public q = p" using find_SomeD by fast+
  then have "q = r" using assms(2,4) r(3) by (auto simp: distinct_map dest: inj_onD)
  with q r(2) show ?thesis using assms(1) first_found [of ?P w] first_missing [of ?P w]
    by (auto simp: resolve_alias_def split: sum.splits db_error.splits)
qed

end

text \<open>\<open>newUUID\<close> yields the canonical text of a version 4 identifier.\<close>

lemma hex_bytes_length: "length (hex_bytes bs) = 2 * length bs"
  by (induction bs) (simp_all add: hex_bytes_def hex_byte_def)

lemma stamp_length: "length (stamp_uuid bs) = length bs"
  by (simp add: stamp_uuid_def Let_def)

lemma new_uuid_length: "length random = 16 \<Longrightarrow> length (new_uuid random) = 36"
  by (simp add: new_uuid_def hex_bytes_length stamp_length Let_def)

lemma uint_high_nibble: "uint (w :: 8 word) div 16 = uint (drop_bit 4 w)"
  by (simp add: drop_bit_eq_div uint_div)

lemma version_nibble: "uint ((b AND 0x0F) OR 0x40 :: 8 word) div 16 = 4"
  unfolding uint_high_nibble by simp

lemma variant_nibble: "uint ((b AND 0x3F) OR 0x80 :: 8 word) div 16 \<in> {8, 9, 10, 11}"
proof -
  have "(x AND 3) OR 8 \<in> {8, 9, 10, 11 :: 8 word}" for x :: "8 word"
  proof -
    have "x AND 3 = take_bit 2 x" by (simp add: take_bit_eq_mask mask_eq_exp_minus_1)
    then have "uint (x AND 3) = uint x mod 4" by (simp add: take_bit_eq_mod uint_mod)
    then have "uint (x AND 3) \<in> {0, 1, 2, 3}"
      using pos_mod_bound [of 4 "uint x"] pos_mod_sign [of 4 "uint x"] by auto
    moreover have "x AND 3 = word_of_int (uint (x AND 3))" by simp
    ultimately obtain k :: int where "k \<in> {0, 1, 2, 3}" "x AND 3 = word_of_int k" by metis
    then show ?thesis by auto
  qed
  from this [of "drop_bit 4 b"] show ?thesis unfolding uint_high_nibble by auto
qed

end
