(* ===== verification/Store_Props.thy ===== *)
theory Store_Props
  imports Postgres_Props
begin

text \<open>
  A reference table whose contents satisfy the key discipline of the database by
  construction, the interpretations of the table locales on it, and the properties of the
  store.
\<close>

section \<open>A reference table\<close>

definition good_ids :: "'a base_row_scheme list \<Rightarrow> bool" where
  "good_ids xs \<longleftrightarrow> distinct (map row_id xs) \<and> list_all (\<lambda>r. 0 < row_id r) xs"

typedef 'a rows = "{xs :: 'a base_row_scheme list. good_ids xs}"
  by (rule exI [of _ "[]"]) (simp add: good_ids_def)

setup_lifting type_definition_rows

definition next_id :: "'a base_row_scheme list \<Rightarrow> int" where
  "next_id xs = fold (\<lambda>r n. max (row_id r + 1) n) xs 1"

lemma next_id_bounds:
  "m \<le> fold (\<lambda>r n. max (row_id r + 1) n) xs m"
  "r \<in> set xs \<Longrightarrow> row_id r < fold (\<lambda>r n. max (row_id r + 1) n) xs m"
proof (induction xs arbitrary: m)
  case (Cons x xs)
  {
    case 1
    show ?case using Cons.IH(1) [of "max (row_id x + 1) m"] by simp
  next
    case 2
    then show ?case using Cons.IH(1) [of "max (row_id x + 1) m"] Cons.IH(2) [of "max (row_id x + 1) m"] by auto
  }
qed simp_all

lemma next_id_fresh: "1 \<le> next_id xs" "r \<in> set xs \<Longrightarrow> row_id r < next_id xs"
  using next_id_bounds unfolding next_id_def by blast+

lift_definition rows_list :: "'a rows \<Rightarrow> 'a base_row_scheme list" is "\<lambda>xs. xs" .

lift_definition no_rows :: "'a rows" is "[]"
  by (simp add: good_ids_def)

definition stamped :: "time \<Rightarrow> 'a base_row_scheme list \<Rightarrow> 'a base_row_scheme \<Rightarrow> 'a base_row_scheme" where
  "stamped t xs r = r\<lparr>row_id := next_id xs, row_created := t, row_updated := t\<rparr>"

lemma good_add: "good_ids xs \<Longrightarrow> good_ids (xs @ [stamped t xs r])"
  using next_id_fresh(1) [of xs] next_id_fresh(2) [of _ xs]
  by (fastforce simp: good_ids_def list_all_iff stamped_def)

lemma good_update:
  assumes g: "good_ids xs"
  shows "good_ids (update_row r xs)"
proof -
  have "map row_id (update_row r xs) = map row_id xs" by (simp add: update_row_def)
  moreover have "0 < row_id x" if "x \<in> set (update_row r xs)" for x
    using that g by (auto simp: update_row_def good_ids_def list_all_iff split: if_splits)
  ultimately show ?thesis using g by (simp add: good_ids_def list_all_iff)
qed

lift_definition rows_add :: "time \<Rightarrow> 'a base_row_scheme \<Rightarrow> 'a rows \<Rightarrow> 'a rows" is
  "\<lambda>t r xs. xs @ [stamped t xs r]"
  by (rule good_add)

lift_definition rows_update :: "'a base_row_scheme \<Rightarrow> 'a rows \<Rightarrow> 'a rows" is update_row
  by (rule good_update)

lift_definition rows_delete :: "('a base_row_scheme \<Rightarrow> bool) \<Rightarrow> 'a rows \<Rightarrow> 'a rows" is
  "\<lambda>P. filter (\<lambda>r. \<not> P r)"
  by (auto simp: good_ids_def distinct_map_filter list_all_iff)

record 'a ref_db =
  rf_clock :: time
  rf_rows :: "'a rows"

definition ref_save :: "'a base_row_scheme \<Rightarrow> 'a ref_db \<Rightarrow> string option \<times> 'a ref_db" where
  "ref_save r s =
     (let t = rf_clock s + 1
      in (None, s\<lparr>rf_clock := t,
                   rf_rows := (if row_id r = 0 then rows_add t r (rf_rows s)
                               else rows_update (r\<lparr>row_updated := t\<rparr>) (rf_rows s))\<rparr>))"

definition ref_table :: "('a ref_db, 'a base_row_scheme) table" where
  "ref_table =
     \<lparr>tb_first = (\<lambda>P. State (\<lambda>s.
        (case List.find P (rows_list (rf_rows s)) of Some r \<Rightarrow> Inr r | None \<Rightarrow> Inl RecordNotFound, s))),
      tb_create = (\<lambda>r. State (\<lambda>s.
        (Inr (stamped (rf_clock s + 1) (rows_list (rf_rows s)) r),
         s\<lparr>rf_clock := rf_clock s + 1, rf_rows := rows_add (rf_clock s + 1) r (rf_rows s)\<rparr>))),
      tb_save = (\<lambda>r. State (ref_save r)),
      tb_delete = (\<lambda>P. State (\<lambda>s. (None, s\<lparr>rf_rows := rows_delete P (rf_rows s)\<rparr>))),
      tb_find_by_updated_desc = (\<lambda>P. State (\<lambda>s.
        (Inr (sort_key (\<lambda>r. - row_updated r) (filter P (rows_list (rf_rows s)))), s)))\<rparr>"

definition ref_rows_view :: "'a ref_db \<Rightarrow> 'a base_row_scheme list" where
  "ref_rows_view s = rows_list (rf_rows s)"

definition empty_db :: "'a ref_db" where
  "empty_db = \<lparr>rf_clock = 0, rf_rows = no_rows\<rparr>"

lemma rows_list_good: "good_ids (rows_list xs)"
  by transfer

lemma same_data_stamped: "same_data r (stamped t xs r)"
  by (cases r) (simp add: same_data_def stamped_def)

lemma same_data_updated: "same_data r (r\<lparr>row_updated := t\<rparr>)"
  by (cases r) (simp add: same_data_def)

lemma rows_list_simps [simp]:
  "rows_list no_rows = []"
  "rows_list (rows_add t r xs) = rows_list xs @ [stamped t (rows_list xs) r]"
  "rows_list (rows_update r xs) = update_row r (rows_list xs)"
  "rows_list (rows_delete P xs) = filter (\<lambda>r. \<not> P r) (rows_list xs)"
  by (transfer, rule refl)+

lemma sorted_wrt_sort_key_desc: "sorted_wrt (\<lambda>a b. f b \<le> f a) (sort_key (\<lambda>r. - f r :: int) xs)"
  using sorted_sort_key [of "\<lambda>r. - f r" xs] by (simp add: sorted_map)

interpretation ref_table: gorm_table ref_table ref_rows_view
proof (unfold_locales, goal_cases)
  case (1 w)
  then show ?case using rows_list_good [of "rf_rows w"] by (simp add: ref_rows_view_def good_ids_def)
next
  case (2 w)
  then show ?case using rows_list_good [of "rf_rows w"] by (auto simp: ref_rows_view_def good_ids_def list_all_iff)
next
  case (9 r w)
  then show ?case using rows_list_good [of "rf_rows w"]
    by (auto simp: ref_table_def ref_save_def ref_rows_view_def Let_def good_ids_def list_all_iff
        intro!: exI [of _ "r\<lparr>row_updated := rf_clock w + 1\<rparr>"] same_data_updated)
qed (auto simp: ref_table_def ref_save_def ref_rows_view_def Let_def same_data_stamped
    sorted_wrt_sort_key_desc split: option.splits)

interpretation ref_watch: watch_table ref_table ref_rows_view
  by unfold_locales

interpretation ref_history: history_table ref_table ref_rows_view
  by unfold_locales

interpretation ref_streams: stream_table ref_table ref_rows_view
  by unfold_locales

interpretation ref_catalogs: catalog_table ref_table ref_rows_view
  by unfold_locales

interpretation ref_discovery: discovery_table ref_table ref_rows_view
  by unfold_locales

interpretation ref_startup: startup_table ref_table ref_rows_view
  by unfold_locales

interpretation ref_clients: client_table ref_table ref_rows_view
  by unfold_locales

interpretation ref_aliases: alias_table ref_table ref_rows_view
  by unfold_locales

section \<open>Properties\<close>

text \<open>The calls the library service makes on the watchlist table.\<close>

datatype watch_op =
    WatchUpsert int string string string string
  | WatchDelete int string
  | WatchList int

fun run_watch :: "('w, watch_row) table \<Rightarrow> watch_op list \<Rightarrow> ('w, unit) eff" where
  "run_watch tb [] = pass ()"
| "run_watch tb (WatchUpsert c k t v p # ops) =
     do { upsert_watchlist tb c k t v p; run_watch tb ops }"
| "run_watch tb (WatchDelete c k # ops) = do { delete_watchlist tb c k; run_watch tb ops }"
| "run_watch tb (WatchList c # ops) = do { list_watchlist tb c; run_watch tb ops }"

context watch_table
begin

lemma run_watch_distinct:
  "distinct (map watch_key (tv w)) \<Longrightarrow> distinct (map watch_key (tv (after (run_watch tb ops) w)))"
proof (induction ops arbitrary: w)
  case (Cons op ops)
  then show ?case
    by (cases op) (simp_all add: upsert_watchlist_distinct delete_watchlist_distinct list_watchlist_view)
qed simp

lemma upsert_then_delete:
  assumes "result (upsert_watchlist tb c k t v p) w = None"
    and "w' = after (upsert_watchlist tb c k t v p) w"
  shows "(\<exists>r. List.find (\<lambda>r. watch_key r = (c, k)) (tv w') = Some r
        \<and> wr_title r = t \<and> wr_cover r = v \<and> wr_provider r = p)
    \<and> (\<forall>key'. key' \<noteq> (c, k) \<longrightarrow>
         List.find (\<lambda>r. watch_key r = key') (tv w') = List.find (\<lambda>r. watch_key r = key') (tv w))
    \<and> (result (delete_watchlist tb c k) w' = None \<longrightarrow>
         tv (after (delete_watchlist tb c k) w') = filter (\<lambda>r. watch_key r \<noteq> (c, k)) (tv w'))"
  using upsert_watchlist_row [OF assms(1)] delete_watchlist_rows
  unfolding row_of_def assms(2) by blast

lemmas interleaved_finds = interleaved_upserts [unfolded row_of_def]

end

context history_table
begin

lemma upsert_history_spec:
  assumes "result (upsert_history tb c k ep n t v p) w = None"
    and "w' = after (upsert_history tb c k ep n t v p) w"
  shows "(\<exists>r. List.find (\<lambda>r. history_key r = (c, k)) (tv w') = Some r \<and> hw_episode r = ep \<and> hw_position r = n
      \<and> (case List.find (\<lambda>r. history_key r = (c, k)) (tv w) of
           None \<Rightarrow> hw_title r = t \<and> hw_cover r = v \<and> hw_provider r = p
         | Some r0 \<Rightarrow> hw_title r = keep_or (hw_title r0) t \<and> hw_cover r = keep_or (hw_cover r0) v
             \<and> hw_provider r = keep_or (hw_provider r0) p))
    \<and> (\<forall>key'. key' \<noteq> (c, k) \<longrightarrow>
         List.find (\<lambda>r. history_key r = key') (tv w') = List.find (\<lambda>r. history_key r = key') (tv w))"
proof -
  have e: "keep_or [] x = x" for x by (simp add: keep_or_def)
  show ?thesis
    using upsert_history_row [OF assms(1)] unfolding row_of_def assms(2)
    by (cases "List.find (\<lambda>r. history_key r = (c, k)) (tv w)") (auto simp: e)
qed

end

context stream_table
begin

lemma upsert_then_get:
  assumes "result (upsert_stream_cache tb ep v e) w = None"
    and "result (get_stream_cache tb ep' now) (after (upsert_stream_cache tb ep v e) w) = Inr x"
  shows "(ep' = ep \<and> now < e \<longrightarrow> x = Some v) \<and> (ep' = ep \<and> e \<le> now \<longrightarrow> x = None)
    \<and> (ep' \<noteq> ep \<longrightarrow> (\<forall>u. x = Some u \<longrightarrow>
         (\<exists>r. List.find (\<lambda>r. sw_episode r = ep') (tv w) = Some r \<and> now < sw_expires r
              \<and> unmarshal (sw_payload r) = Inr u)))"
proof -
  obtain r where r: "row_of (after (upsert_stream_cache tb ep v e) w) ep = Some r"
      "sw_payload r = marshal v" "sw_expires r = e"
    using upsert_stream_row(1) [OF assms(1)] by blast
  have "x = Some v" if "ep' = ep" "now < e"
    using r that assms(2) get_stream_sound [of ep now] get_stream_none [of ep now]
    by (cases x) fastforce+
  moreover have "x = None" if "ep' = ep" "e \<le> now"
    using r that assms(2) get_stream_sound [of ep now] by (cases x) fastforce+
  moreover have "\<exists>r. List.find (\<lambda>r. sw_episode r = ep') (tv w) = Some r \<and> now < sw_expires r
      \<and> unmarshal (sw_payload r) = Inr u" if "ep' \<noteq> ep" "x = Some u" for u
    using get_stream_sound [OF assms(2) [unfolded that(2)]] upsert_stream_row(2) [OF assms(1) that(1)]
    unfolding row_of_def by simp
  ultimately show ?thesis by blast
qed

end

context startup_table
begin

lemma is_metadata_map: "metadata_map (pg_metadata tb) (startup_view tv)"
  by (rule metadata_map_axioms)

end

context alias_table
begin

lemma ensure_then_resolve:
  assumes "\<And>w. tv (after random w) = tv w"
    and "result (ensure_alias tb random kind i) w = Inr p"
    and "distinct (map al_public (tv (after (ensure_alias tb random kind i) w)))"
    and "result (resolve_alias tb kind p) (after (ensure_alias tb random kind i) w) = Inr x"
  shows "x = Some i"
  using ensure_alias_row [OF assms(2,1)] resolve_alias_sound [OF assms(4,3)] by blast

end

text \<open>
  C3. A watchlist holds an item at most once per client, over every sequence of calls one
  after the other, whether they succeed or fail.
\<close>

theorem watchlist_never_duplicates:
  assumes "watch_table tb tv" and "distinct (map watch_key (tv w))"
  shows "distinct (map watch_key (tv (after (run_watch tb ops) w)))"
  using assms by (rule watch_table.run_watch_distinct)

theorem watchlist_never_duplicates_witness:
  "distinct (map watch_key (ref_rows_view (after (run_watch ref_table
     [WatchUpsert 1 ''a'' ''t'' [] ''p'', WatchUpsert 1 ''a'' ''u'' [] ''p'', WatchDelete 2 ''a'']) empty_db)))"
  by (rule watchlist_never_duplicates [OF ref_watch.watch_table_axioms])
    (simp add: ref_rows_view_def empty_db_def)

text \<open>
  Adding to a watchlist stores exactly the given item under the client and the catalog
  identifier, and touches no other item; removing it leaves all others as they are.
\<close>

theorem watchlist_upsert_delete:
  assumes "watch_table tb tv" and "result (upsert_watchlist tb c k t v p) w = None"
    and "w' = after (upsert_watchlist tb c k t v p) w"
  shows "(\<exists>r. List.find (\<lambda>r. watch_key r = (c, k)) (tv w') = Some r
        \<and> wr_title r = t \<and> wr_cover r = v \<and> wr_provider r = p)
    \<and> (\<forall>key'. key' \<noteq> (c, k) \<longrightarrow>
         List.find (\<lambda>r. watch_key r = key') (tv w') = List.find (\<lambda>r. watch_key r = key') (tv w))
    \<and> (result (delete_watchlist tb c k) w' = None \<longrightarrow>
         tv (after (delete_watchlist tb c k) w') = filter (\<lambda>r. watch_key r \<noteq> (c, k)) (tv w'))"
  using assms by (rule watch_table.upsert_then_delete)

theorem watchlist_upsert_delete_witness:
  "\<exists>r. List.find (\<lambda>r. watch_key r = (1, ''a''))
       (ref_rows_view (after (upsert_watchlist ref_table 1 ''a'' ''t'' ''v'' ''p'') empty_db)) = Some r
     \<and> wr_title r = ''t''"
proof -
  have "result (upsert_watchlist ref_table 1 ''a'' ''t'' ''v'' ''p'') empty_db = None"
    by (simp add: upsert_watchlist_def upsert_row_def first_or_def ref_table_def ref_save_def empty_db_def Let_def)
  from watchlist_upsert_delete [OF ref_watch.watch_table_axioms this refl] show ?thesis by auto
qed

text \<open>
  Two upserts of one item that run at the same time, both looking the row up before
  either saves, store the item twice: the table has no unique index on client and catalog
  identifier, so that neither save is refused.
\<close>

theorem watchlist_race_duplicates:
  assumes "watch_table tb tv" and "List.find (\<lambda>r. watch_key r = (c, k)) (tv w) = None"
    and "result (first_or tb (of_client c k) zero_watch) w = Inr ra"
    and "result (first_or tb (of_client c k) zero_watch) (after (first_or tb (of_client c k) zero_watch) w) = Inr rb"
    and "wb = after (first_or tb (of_client c k) zero_watch) (after (first_or tb (of_client c k) zero_watch) w)"
    and "result (tb_save tb (fill_watch c k t v p ra)) wb = None"
    and "result (tb_save tb (fill_watch c k t' v' p' rb)) (after (tb_save tb (fill_watch c k t v p ra)) wb) = None"
  shows "\<not> distinct (map watch_key
    (tv (after (tb_save tb (fill_watch c k t' v' p' rb)) (after (tb_save tb (fill_watch c k t v p ra)) wb))))"
  using assms by (rule watch_table.interleaved_finds)

theorem watchlist_race_duplicates_witness:
  "\<not> distinct (map watch_key (ref_rows_view
     (after (tb_save ref_table (fill_watch 1 ''a'' ''t'' [] ''p'' zero_watch))
       (after (tb_save ref_table (fill_watch 1 ''a'' ''t'' [] ''p'' zero_watch)) empty_db))))"
  by (rule watchlist_race_duplicates [OF ref_watch.watch_table_axioms, where ra = zero_watch and rb = zero_watch
        and w = empty_db])
    (simp_all add: first_or_def ref_table_def ref_save_def empty_db_def ref_rows_view_def Let_def)



text \<open>
  A stream result is found again as long as it has not expired and never afterwards:
  reading an episode after storing it yields the stored result before its expiry and
  nothing from then on, and reading another episode yields an unexpired row of that
  episode.
\<close>

theorem stream_cache_expiry:
  assumes "stream_table tb tv" and "result (upsert_stream_cache tb ep v e) w = None"
    and "result (get_stream_cache tb ep' now) (after (upsert_stream_cache tb ep v e) w) = Inr x"
  shows "(ep' = ep \<and> now < e \<longrightarrow> x = Some v) \<and> (ep' = ep \<and> e \<le> now \<longrightarrow> x = None)
    \<and> (ep' \<noteq> ep \<longrightarrow> (\<forall>u. x = Some u \<longrightarrow>
         (\<exists>r. List.find (\<lambda>r. sw_episode r = ep') (tv w) = Some r \<and> now < sw_expires r
              \<and> unmarshal (sw_payload r) = Inr u)))"
  using assms by (rule stream_table.upsert_then_get)

theorem stream_cache_expiry_witness:
  "result (get_stream_cache ref_table ''e'' 5)
     (after (upsert_stream_cache ref_table ''e'' (sample_result ''u'') 9) empty_db) = Inr (Some (sample_result ''u''))"
proof -
  have "result (upsert_stream_cache ref_table ''e'' (sample_result ''u'') 9) empty_db = None"
    by (simp add: upsert_stream_cache_def upsert_row_def first_or_def ref_table_def ref_save_def Let_def empty_db_def)
  moreover obtain x where "result (get_stream_cache ref_table ''e'' 5)
      (after (upsert_stream_cache ref_table ''e'' (sample_result ''u'') 9) empty_db) = Inr x"
    by (simp add: upsert_stream_cache_def upsert_row_def first_or_def ref_table_def ref_save_def Let_def
        empty_db_def get_stream_cache_def fill_stream_def zero_stream_def stamped_def)
  ultimately show ?thesis
    using stream_cache_expiry [OF ref_streams.stream_table_axioms, of "''e''" "sample_result ''u''" 9 empty_db "''e''" 5 x]
    by simp
qed

text \<open>
  C4. The startup table implements the metadata store the media cache is built on: it is a
  map from episodes to entries.
\<close>

theorem startup_store_refines:
  assumes "startup_table tb tv"
  shows "metadata_map (pg_metadata tb) (startup_view tv)"
  using assms by (rule startup_table.is_metadata_map)

theorem startup_store_refines_witness: "metadata_map (pg_metadata ref_table) (startup_view ref_rows_view)"
  by (rule startup_store_refines [OF ref_startup.startup_table_axioms])

text \<open>
  A client token always leads to the same client: when an \<open>EnsureClient\<close> succeeded, the
  next one with the same token finds that client and creates none.
\<close>

theorem ensure_client_stable:
  assumes "client_table tb tv" and "result (ensure_client tb token) w = Inr (client, created)"
    and "result (ensure_client tb token) (after (ensure_client tb token) w) = Inr (client', created')"
  shows "client' = client \<and> \<not> created' \<and> cl_token client = token"
  using client_table.ensure_client_again [OF assms] client_table.ensure_client_row(1) [OF assms(1,2)] by blast

theorem ensure_client_stable_witness:
  "result (ensure_client ref_table ''tok'') (after (ensure_client ref_table ''tok'') empty_db)
     = Inr (stamped 1 [] (zero_client\<lparr>cl_token := ''tok''\<rparr>), False)"
proof -
  have "result (ensure_client ref_table ''tok'') empty_db
      = Inr (stamped 1 [] (zero_client\<lparr>cl_token := ''tok''\<rparr>), True)"
    by (simp add: ensure_client_def ref_table_def empty_db_def)
  moreover have "\<exists>x. result (ensure_client ref_table ''tok'') (after (ensure_client ref_table ''tok'') empty_db) = Inr x"
    by (simp add: ensure_client_def ref_table_def empty_db_def stamped_def zero_client_def) blast
  ultimately show ?thesis
    using ensure_client_stable [OF ref_clients.client_table_axioms, of "''tok''" empty_db] by auto
qed

text \<open>
  A public identifier resolves to the internal one it was made for: after a successful
  \<open>EnsureAlias\<close>, \<open>ResolveAlias\<close> of the result, when it answers at all, yields the internal
  identifier. Public identifiers are unique in the table by its index.
\<close>

theorem alias_roundtrip:
  assumes "alias_table tb tv" and "\<And>w. tv (after random w) = tv w"
    and "result (ensure_alias tb random kind i) w = Inr p"
    and "distinct (map al_public (tv (after (ensure_alias tb random kind i) w)))"
    and "result (resolve_alias tb kind p) (after (ensure_alias tb random kind i) w) = Inr x"
  shows "x = Some i"
  using assms by (rule alias_table.ensure_then_resolve)

theorem alias_roundtrip_witness:
  "result (resolve_alias ref_table ''episode'' (new_uuid (replicate 16 7)))
     (after (ensure_alias ref_table (pass (replicate 16 7)) ''episode'' ''p:x'') empty_db) = Inr (Some ''p:x'')"
proof -
  let ?r = "pass (replicate 16 7) :: (_, bytes) eff"
  have "result (ensure_alias ref_table ?r ''episode'' ''p:x'') empty_db = Inr (new_uuid (replicate 16 7))"
    by (simp add: ensure_alias_def ref_table_def empty_db_def zero_alias_def stamped_def)
  moreover have "distinct (map al_public (ref_rows_view (after (ensure_alias ref_table ?r ''episode'' ''p:x'') empty_db)))"
    by (simp add: ensure_alias_def ref_table_def empty_db_def ref_rows_view_def)
  moreover obtain x where "result (resolve_alias ref_table ''episode'' (new_uuid (replicate 16 7)))
      (after (ensure_alias ref_table ?r ''episode'' ''p:x'') empty_db) = Inr x"
    by (simp add: ensure_alias_def resolve_alias_def ref_table_def empty_db_def zero_alias_def stamped_def)
  ultimately show ?thesis
    using alias_roundtrip [OF ref_aliases.alias_table_axioms, of ?r "''episode''" "''p:x''" empty_db] by auto
qed

text \<open>
  \<open>newUUID\<close> makes version 4 identifiers: from any 16 random bytes the text has 36
  characters, dashes at the four places of the canonical form, the version digit 4 and a
  variant digit of 8, 9, a or b.
\<close>

theorem new_uuid_version4:
  assumes "length random = 16"
  shows "length (new_uuid random) = 36
    \<and> (\<forall>i\<in>{8, 13, 18, 23}. new_uuid random ! i = CHR ''-'')
    \<and> new_uuid random ! 14 = CHR ''4'' \<and> new_uuid random ! 19 \<in> {CHR ''8'', CHR ''9'', CHR ''a'', CHR ''b''}"
proof -
  obtain b0 b1 b2 b3 b4 b5 b6 b7 b8 b9 b10 b11 b12 b13 b14 b15 where
    r: "random = [b0, b1, b2, b3, b4, b5, b6, b7, b8, b9, b10, b11, b12, b13, b14, b15]"
    using assms by (auto simp: numeral_eq_Suc length_Suc_conv)
  have v: "hex_digit 4 = CHR ''4''" "hex_digit 8 = CHR ''8''" "hex_digit 9 = CHR ''9''"
    "hex_digit 10 = CHR ''a''" "hex_digit 11 = CHR ''b''" by code_simp+
  have "hex_digit (uint ((b6 AND 0x0F) OR 0x40) div 16 mod 16) = CHR ''4''"
    unfolding version_nibble using v by simp
  moreover have "hex_digit (uint ((b8 AND 0x3F) OR 0x80) div 16 mod 16) \<in> {CHR ''8'', CHR ''9'', CHR ''a'', CHR ''b''}"
    using variant_nibble [of b8] v by auto
  ultimately show ?thesis using new_uuid_length [OF assms]
    unfolding r by (simp add: new_uuid_def stamp_uuid_def Let_def hex_bytes_def hex_byte_def)
qed

theorem new_uuid_version4_witness:
  "new_uuid (replicate 16 255) ! 14 = CHR ''4'' \<and> length (new_uuid (replicate 16 255)) = 36"
  using new_uuid_version4 [of "replicate 16 255"] by simp

end
