(* ===== verification/Provider.thy ===== *)
theory Provider
  imports World
begin

text \<open>
  The interface of a provider, \<open>internal/provider/provider.go\<close>, and the registry that
  selects the active one, \<open>registry.go\<close>. A provider is a record of operations on the world
  (it fetches pages from the network); an error is its text.
\<close>

record 'w provider =
  pr_name :: string
  pr_home :: "('w, string + home_feed) eff"
  pr_search :: "string \<Rightarrow> ('w, string + anime_card list option) eff"
  pr_schedule :: "('w, string + schedule_day list) eff"
  pr_schedule_page :: "string \<Rightarrow> int \<Rightarrow> ('w, string + collection_page) eff"
  pr_index :: "('w, string + (string \<rightharpoonup> anime_card list)) eff"
  pr_property_list :: "string \<Rightarrow> ('w, string + property_list) eff"
  pr_property_catalog :: "string \<Rightarrow> string \<Rightarrow> string \<Rightarrow> int \<Rightarrow> ('w, string + collection_page) eff"
  pr_quick_catalog :: "string \<Rightarrow> string \<Rightarrow> int \<Rightarrow> ('w, string + collection_page) eff"
  pr_seasonal_popular :: "('w, string + collection_page) eff"
  pr_catalog :: "string \<Rightarrow> ('w, string + anime_detail) eff"
  pr_episodes :: "string \<Rightarrow> ('w, string + episode list) eff"
  pr_stream_candidates :: "string \<Rightarrow> ('w, string + stream_candidate list) eff"

section \<open>The registry\<close>

text \<open>The map is built in order, so that a later provider of the same name replaces an earlier one.\<close>

definition default_active_provider :: string where
  "default_active_provider = ''otakudesu''"

definition registry_name :: "string \<Rightarrow> string" where
  "registry_name s = to_lower (trim_space s)"

definition new_registry :: "'w provider option list \<Rightarrow> string \<rightharpoonup> 'w provider" where
  "new_registry ps =
     fold (\<lambda>item m. case item of None \<Rightarrow> m | Some p \<Rightarrow> m(registry_name (pr_name p) \<mapsto> p)) ps Map.empty"

definition select :: "(string \<rightharpoonup> 'w provider) option \<Rightarrow> string \<Rightarrow> string + 'w provider" where
  "select r name =
     (case r of
        None \<Rightarrow> Inl ''provider registry is nil''
      | Some providers \<Rightarrow>
          let trimmed = registry_name name;
              selected = (if trimmed = [] then default_active_provider else trimmed)
          in (case providers selected of
               None \<Rightarrow> Inl (''provider '' @ [CHR 0x22] @ selected @ [CHR 0x22] @ '' is not registered'')
             | Some p \<Rightarrow> Inr p))"

lemma registry_name_Nil [simp]: "registry_name s = [] \<longleftrightarrow> trim_space s = []"
  by (simp add: registry_name_def)

lemma new_registry_Nil [simp]: "new_registry [] = Map.empty"
  by (simp add: new_registry_def)

lemma new_registry_snoc [simp]:
  "new_registry (ps @ [item]) =
     (case item of None \<Rightarrow> new_registry ps | Some p \<Rightarrow> (new_registry ps)(registry_name (pr_name p) \<mapsto> p))"
  by (simp add: new_registry_def split: option.split)

lemma new_registry_lookup:
  "new_registry ps n = List.find (\<lambda>p. registry_name (pr_name p) = n) (rev (List.map_filter id ps))"
  by (induction ps rule: rev_induct) (auto simp: List.map_filter_def split: option.split)

text \<open>
  Selection ignores case and surrounding blanks of the requested name, falls back to
  the default provider for a blank one, and yields the last registered provider of that
  name; it fails exactly when there is none.
\<close>

theorem select_registered:
  "select (Some (new_registry ps)) name =
     (let wanted = (if trim_space name = [] then default_active_provider else registry_name name)
      in case List.find (\<lambda>p. registry_name (pr_name p) = wanted) (rev (List.map_filter id ps)) of
           None \<Rightarrow> Inl (''provider '' @ [CHR 0x22] @ wanted @ [CHR 0x22] @ '' is not registered'')
         | Some p \<Rightarrow> Inr p)"
  by (simp add: select_def new_registry_lookup Let_def)

end
