(* ===== verification/Catalog.thy ===== *)
theory Catalog
  imports Provider Mem_Cache
begin

text \<open>
  The catalog service, \<open>internal/service/catalog/service.go\<close>: pages of the provider,
  cleaned, cached in memory and in part in the database, and details whose covers,
  release dates and metadata are completed. The two regular expressions are written out
  as scanners.
\<close>

section \<open>Cleaning\<close>

text \<open>\<open>scoreLabelPattern\<close>: digits, optionally a dot and digits.\<close>

definition is_digits :: "string \<Rightarrow> bool" where
  "is_digits s \<longleftrightarrow> s \<noteq> [] \<and> list_all is_digit s"

definition is_score_label :: "string \<Rightarrow> bool" where
  "is_score_label s \<longleftrightarrow>
     is_digits s \<or> (case cut CHR ''.'' s of None \<Rightarrow> False | Some (a, b) \<Rightarrow> is_digits a \<and> is_digits b)"

definition normalize_card :: "anime_card \<Rightarrow> anime_card" where
  "normalize_card item =
     (if is_score_label (trim_space (card_episode item)) then item\<lparr>card_episode := []\<rparr> else item)"

definition normalize_anime_cards :: "anime_card list \<Rightarrow> anime_card list" where
  "normalize_anime_cards items = map normalize_card items"

definition normalize_home :: "home_feed \<Rightarrow> home_feed" where
  "normalize_home feed =
     feed\<lparr>hf_featured := normalize_anime_cards (hf_featured feed),
          hf_ongoing := normalize_anime_cards (hf_ongoing feed),
          hf_recent := normalize_anime_cards (hf_recent feed)\<rparr>"

definition normalize_schedule :: "schedule_day list \<Rightarrow> schedule_day list" where
  "normalize_schedule items = map (\<lambda>d. d\<lparr>sd_items := normalize_anime_cards (sd_items d)\<rparr>) items"

definition normalize_collection_page :: "collection_page \<Rightarrow> collection_page" where
  "normalize_collection_page page = page\<lparr>cp_items := normalize_anime_cards (cp_items page)\<rparr>"

text \<open>\<open>FindAllString\<close> for \<open>\d+\<close>: the maximal runs of digits; \<open>cur\<close> is the run being read.\<close>

fun digit_runs :: "string \<Rightarrow> string \<Rightarrow> string list" where
  "digit_runs cur [] = (if cur = [] then [] else [cur])"
| "digit_runs cur (c # s) =
     (if is_digit c then digit_runs (cur @ [c]) s
      else if cur = [] then digit_runs [] s else cur # digit_runs [] s)"

text \<open>\<open>Sscanf\<close> with \<open>%d\<close> leaves 0 when the run does not fit.\<close>

definition run_value :: "string \<Rightarrow> int" where
  "run_value raw = (case parse_int64 raw of Inr n \<Rightarrow> n | Inl _ \<Rightarrow> 0)"

definition max_run :: "string \<Rightarrow> int \<Rightarrow> int" where
  "max_run s m = fold (\<lambda>raw m. if run_value raw > m then run_value raw else m) (digit_runs [] s) m"

definition episode_max :: "episode \<Rightarrow> int \<Rightarrow> int" where
  "episode_max item m =
     max_run (ep_title item) (max_run (ep_label item) (if ep_number item > m then ep_number item else m))"

definition inferred_episode_count :: "episode list \<Rightarrow> int" where
  "inferred_episode_count items =
     (let max_number = fold episode_max items 0
      in if max_number = 0 then int (length items) else max_number)"

definition normalize_detail :: "anime_detail \<Rightarrow> anime_detail" where
  "normalize_detail detail =
     (case det_metadata detail of
        None \<Rightarrow> detail
      | Some m \<Rightarrow>
          let m = m(''eksplisit'' := None, ''tema'' := None);
              raw = trim_space (case m ''episode'' of None \<Rightarrow> [] | Some v \<Rightarrow> v)
          in detail\<lparr>det_metadata := Some
               (if det_episodes detail \<noteq> [] \<and> (raw = [] \<or> raw = ''?'')
                then m(''episode'' \<mapsto> itoa (inferred_episode_count (det_episodes detail))) else m)\<rparr>)"

definition is_my_anime_list_cover :: "string \<Rightarrow> bool" where
  "is_my_anime_list_cover v \<longleftrightarrow> contains_str (to_lower (trim_space v)) ''cdn.myanimelist.net/''"

definition normalize_comparison_title :: "string \<Rightarrow> string" where
  "normalize_comparison_title v =
     replace_all (replace_all (to_lower (trim_space v)) [CHR 0xE2, CHR 0x80, CHR 0x99] [CHR 0x27]) [CHR 0x60] [CHR 0x27]"

definition needs_episode_release_refresh :: "episode list \<Rightarrow> bool" where
  "needs_episode_release_refresh items \<longleftrightarrow> list_ex (\<lambda>e. trim_space (ep_released_at e) = []) items"

definition has_episode_release_dates :: "episode list \<Rightarrow> bool" where
  "has_episode_release_dates items \<longleftrightarrow> list_ex (\<lambda>e. trim_space (ep_released_at e) \<noteq> []) items"

section \<open>The service\<close>

record 'w catalog_store =
  cst_get_discovery :: "string \<Rightarrow> ('w, string + cached option) eff"
  cst_upsert_discovery :: "string \<Rightarrow> cached \<Rightarrow> ('w, string option) eff"
  cst_get_catalog :: "string \<Rightarrow> ('w, string + anime_detail option) eff"
  cst_upsert_catalog :: "string \<Rightarrow> anime_detail \<Rightarrow> ('w, string option) eff"

record 'w catalog_svc =
  cs_provider :: "'w provider"
  cs_cache :: "'w ttl_ops"
  cs_store :: "'w catalog_store option"

definition catalog_home :: "'w catalog_svc \<Rightarrow> ('w, string + home_feed) eff" where
  "catalog_home s =
     do { raw \<leftarrow> cache_get (cs_cache s) ''home'';
          case raw of
            Some (CHome v) \<Rightarrow> pass (Inr v)
          | _ \<Rightarrow>
              do { value \<leftarrow> pr_home (cs_provider s);
                   case value of
                     Inl err \<Rightarrow> pass (Inl err)
                   | Inr v \<Rightarrow> do { let v = normalize_home v;
                                   cache_set (cs_cache s) ''home'' (CHome v) 0;
                                   pass (Inr v) } } }"

text \<open>A nil list of cards is \<open>None\<close>; the service turns it into an empty one.\<close>

definition catalog_search :: "'w catalog_svc \<Rightarrow> string \<Rightarrow> ('w, string + anime_card list) eff" where
  "catalog_search s query =
     do { raw \<leftarrow> cache_get (cs_cache s) (''search:'' @ query);
          case raw of
            Some (CCards (Some v)) \<Rightarrow> pass (Inr v)
          | Some (CCards None) \<Rightarrow> pass (Inr [])
          | _ \<Rightarrow>
              do { value \<leftarrow> pr_search (cs_provider s) query;
                   case value of
                     Inl err \<Rightarrow> pass (Inl err)
                   | Inr v \<Rightarrow> do { let v = (case v of None \<Rightarrow> [] | Some items \<Rightarrow> normalize_anime_cards items);
                                   cache_set (cs_cache s) (''search:'' @ query) (CCards (Some v)) 0;
                                   pass (Inr v) } } }"

definition catalog_schedule :: "'w catalog_svc \<Rightarrow> ('w, string + schedule_day list) eff" where
  "catalog_schedule s =
     do { raw \<leftarrow> cache_get (cs_cache s) ''schedule'';
          case raw of
            Some (CSchedule v) \<Rightarrow> pass (Inr v)
          | _ \<Rightarrow>
              do { value \<leftarrow> pr_schedule (cs_provider s);
                   case value of
                     Inl err \<Rightarrow> pass (Inl err)
                   | Inr v \<Rightarrow> do { let v = normalize_schedule v;
                                   cache_set (cs_cache s) ''schedule'' (CSchedule v) 0;
                                   pass (Inr v) } } }"

definition catalog_index :: "'w catalog_svc \<Rightarrow> ('w, string + (string \<rightharpoonup> anime_card list)) eff" where
  "catalog_index s =
     do { raw \<leftarrow> cache_get (cs_cache s) ''index'';
          case raw of
            Some (CIndex v) \<Rightarrow> pass (Inr v)
          | _ \<Rightarrow>
              do { value \<leftarrow> pr_index (cs_provider s);
                   case value of
                     Inl err \<Rightarrow> pass (Inl err)
                   | Inr v \<Rightarrow> do { cache_set (cs_cache s) ''index'' (CIndex v) 0; pass (Inr v) } } }"

subsection \<open>Discovery pages\<close>

text \<open>
  The discovery pages share one shape: memory, then the database, then the provider. A
  stored value is decoded into the type the caller asks for.
\<close>

definition stored_discovery :: "'w catalog_svc \<Rightarrow> string \<Rightarrow> ('w, cached option) eff" where
  "stored_discovery s key =
     (case cs_store s of
        None \<Rightarrow> pass None
      | Some st \<Rightarrow> do { row \<leftarrow> cst_get_discovery st key;
                        pass (case row of Inr (Some v) \<Rightarrow> Some v | _ \<Rightarrow> None) })"

definition store_discovery :: "'w catalog_svc \<Rightarrow> string \<Rightarrow> cached \<Rightarrow> ('w, unit) eff" where
  "store_discovery s key v =
     (case cs_store s of
        None \<Rightarrow> pass ()
      | Some st \<Rightarrow> do { cst_upsert_discovery st key v; pass () })"

definition discovery_page ::
  "'w catalog_svc \<Rightarrow> string \<Rightarrow> ('w, string + collection_page) eff \<Rightarrow> ('w, string + collection_page) eff" where
  "discovery_page s key fetch =
     do { raw \<leftarrow> cache_get (cs_cache s) key;
          case raw of
            Some (CPage v) \<Rightarrow> pass (Inr (normalize_collection_page v))
          | _ \<Rightarrow>
              do { row \<leftarrow> stored_discovery s key;
                   case row of
                     Some (CPage v) \<Rightarrow>
                       do { let v = normalize_collection_page v;
                            cache_set (cs_cache s) key (CPage v) 0;
                            pass (Inr v) }
                   | _ \<Rightarrow>
                       do { value \<leftarrow> fetch;
                            case value of
                              Inl err \<Rightarrow> pass (Inl err)
                            | Inr v \<Rightarrow>
                                do { let v = normalize_collection_page v;
                                     cache_set (cs_cache s) key (CPage v) 0;
                                     store_discovery s key (CPage v);
                                     pass (Inr v) } } } }"

definition discovery_prefix :: string where
  "discovery_prefix = ''discovery:v2r2:''"

definition schedule_page_key :: "string \<Rightarrow> int \<Rightarrow> string" where
  "schedule_page_key day page = discovery_prefix @ ''schedule:'' @ trim_space day @ '':'' @ itoa page"

definition property_list_key :: "string \<Rightarrow> string" where
  "property_list_key kind = discovery_prefix @ ''property-list:'' @ trim_space kind"

definition property_catalog_key :: "string \<Rightarrow> string \<Rightarrow> string \<Rightarrow> int \<Rightarrow> string" where
  "property_catalog_key kind property_id order page =
     discovery_prefix @ ''property:'' @ trim_space kind @ '':'' @ trim_space property_id @ '':''
       @ trim_space order @ '':'' @ itoa page"

definition quick_catalog_key :: "string \<Rightarrow> string \<Rightarrow> int \<Rightarrow> string" where
  "quick_catalog_key kind order page =
     discovery_prefix @ ''quick:'' @ trim_space kind @ '':'' @ trim_space order @ '':'' @ itoa page"

definition catalog_schedule_page :: "'w catalog_svc \<Rightarrow> string \<Rightarrow> int \<Rightarrow> ('w, string + collection_page) eff" where
  "catalog_schedule_page s day page =
     discovery_page s (schedule_page_key day page) (pr_schedule_page (cs_provider s) day page)"

definition catalog_property_catalog ::
  "'w catalog_svc \<Rightarrow> string \<Rightarrow> string \<Rightarrow> string \<Rightarrow> int \<Rightarrow> ('w, string + collection_page) eff" where
  "catalog_property_catalog s kind property_id order page =
     discovery_page s (property_catalog_key kind property_id order page)
       (pr_property_catalog (cs_provider s) kind property_id order page)"

definition catalog_quick_catalog ::
  "'w catalog_svc \<Rightarrow> string \<Rightarrow> string \<Rightarrow> int \<Rightarrow> ('w, string + collection_page) eff" where
  "catalog_quick_catalog s kind order page =
     discovery_page s (quick_catalog_key kind order page) (pr_quick_catalog (cs_provider s) kind order page)"

definition catalog_seasonal_popular :: "'w catalog_svc \<Rightarrow> ('w, string + collection_page) eff" where
  "catalog_seasonal_popular s =
     discovery_page s (discovery_prefix @ ''seasonal-popular'') (pr_seasonal_popular (cs_provider s))"

definition catalog_property_list :: "'w catalog_svc \<Rightarrow> string \<Rightarrow> ('w, string + property_list) eff" where
  "catalog_property_list s kind =
     do { raw \<leftarrow> cache_get (cs_cache s) (property_list_key kind);
          case raw of
            Some (CPropertyList v) \<Rightarrow> pass (Inr v)
          | _ \<Rightarrow>
              do { row \<leftarrow> stored_discovery s (property_list_key kind);
                   case row of
                     Some (CPropertyList v) \<Rightarrow>
                       do { cache_set (cs_cache s) (property_list_key kind) (CPropertyList v) 0; pass (Inr v) }
                   | _ \<Rightarrow>
                       do { value \<leftarrow> pr_property_list (cs_provider s) kind;
                            case value of
                              Inl err \<Rightarrow> pass (Inl err)
                            | Inr v \<Rightarrow>
                                do { cache_set (cs_cache s) (property_list_key kind) (CPropertyList v) 0;
                                     store_discovery s (property_list_key kind) (CPropertyList v);
                                     pass (Inr v) } } } }"

subsection \<open>Details\<close>

definition catalog_key :: "string \<Rightarrow> string" where
  "catalog_key i = ''catalog:'' @ i"

definition stored_catalog :: "'w catalog_svc \<Rightarrow> string \<Rightarrow> ('w, anime_detail option) eff" where
  "stored_catalog s i =
     (case cs_store s of
        None \<Rightarrow> pass None
      | Some st \<Rightarrow> do { row \<leftarrow> cst_get_catalog st i;
                        pass (case row of Inr (Some v) \<Rightarrow> Some v | _ \<Rightarrow> None) })"

definition store_catalog :: "'w catalog_svc \<Rightarrow> string \<Rightarrow> anime_detail \<Rightarrow> ('w, unit) eff" where
  "store_catalog s i v =
     (case cs_store s of
        None \<Rightarrow> pass ()
      | Some st \<Rightarrow> do { cst_upsert_catalog st i v; pass () })"

definition refresh_primary_detail_cover ::
  "'w catalog_svc \<Rightarrow> string \<Rightarrow> anime_detail \<Rightarrow> ('w, anime_detail) eff" where
  "refresh_primary_detail_cover s i detail =
     (let current_cover = trim_space (det_cover detail)
      in if current_cover \<noteq> [] \<and> \<not> is_my_anime_list_cover current_cover then pass detail
         else do { fresh \<leftarrow> pr_catalog (cs_provider s) i;
                   pass (case fresh of
                           Inl _ \<Rightarrow> detail
                         | Inr f \<Rightarrow>
                             let fresh_cover = trim_space (det_cover f)
                             in if fresh_cover = [] \<or> is_my_anime_list_cover fresh_cover then detail
                                else detail\<lparr>det_cover := fresh_cover\<rparr>) })"

definition refresh_episode_release_dates ::
  "'w catalog_svc \<Rightarrow> string \<Rightarrow> anime_detail \<Rightarrow> ('w, anime_detail) eff" where
  "refresh_episode_release_dates s i detail =
     (if \<not> needs_episode_release_refresh (det_episodes detail) then pass detail
      else do { fresh \<leftarrow> pr_catalog (cs_provider s) i;
                pass (case fresh of
                        Inl _ \<Rightarrow> detail
                      | Inr f \<Rightarrow> if \<not> has_episode_release_dates (det_episodes f) then detail
                                 else detail\<lparr>det_episodes := det_episodes f\<rparr>) })"

text \<open>The cover of a related title: from memory, from the database, or from the provider.\<close>

definition good_cover :: "anime_detail \<Rightarrow> string option" where
  "good_cover v =
     (let cover = trim_space (det_cover v)
      in if cover \<noteq> [] \<and> \<not> is_my_anime_list_cover cover then Some cover else None)"

definition cover_from_provider :: "'w catalog_svc \<Rightarrow> string \<Rightarrow> ('w, string) eff" where
  "cover_from_provider s i =
     do { fresh \<leftarrow> pr_catalog (cs_provider s) i;
          case fresh of
            Inl _ \<Rightarrow> pass []
          | Inr detail \<Rightarrow>
              if det_id detail \<noteq> i \<or> trim_space (det_cover detail) = [] then pass []
              else do { let detail = normalize_detail detail;
                        cache_set (cs_cache s) (catalog_key i) (CDetail detail) 0;
                        store_catalog s i detail;
                        pass (trim_space (det_cover detail)) } }"

definition cover_from_related_catalog :: "'w catalog_svc \<Rightarrow> string \<Rightarrow> ('w, string) eff" where
  "cover_from_related_catalog s i =
     do { raw \<leftarrow> cache_get (cs_cache s) (catalog_key i);
          case (case raw of Some (CDetail v) \<Rightarrow> good_cover v | _ \<Rightarrow> None) of
            Some cover \<Rightarrow> pass cover
          | None \<Rightarrow>
              do { row \<leftarrow> stored_catalog s i;
                   case Option.bind row (\<lambda>v. map_option (Pair v) (good_cover v)) of
                     Some (v, cover) \<Rightarrow>
                       do { cache_set (cs_cache s) (catalog_key i) (CDetail v) 0; pass cover }
                   | None \<Rightarrow> cover_from_provider s i } }"

definition has_cover :: "anime_card \<Rightarrow> bool" where
  "has_cover c \<longleftrightarrow> trim_space (card_cover c) \<noteq> []"

text \<open>Among search results: the same title by identifier, by comparable name, then any with a cover.\<close>

definition cover_from_results :: "anime_card \<Rightarrow> anime_card list \<Rightarrow> string" where
  "cover_from_results item results =
     (case List.find (\<lambda>c. card_id c = card_id item \<and> has_cover c) results of
        Some c \<Rightarrow> card_cover c
      | None \<Rightarrow>
          (case List.find (\<lambda>c. normalize_comparison_title (card_title c) = normalize_comparison_title (card_title item)
                               \<and> has_cover c) results of
             Some c \<Rightarrow> card_cover c
           | None \<Rightarrow> (case List.find has_cover results of Some c \<Rightarrow> card_cover c | None \<Rightarrow> [])))"

definition find_recommendation_cover :: "'w catalog_svc \<Rightarrow> anime_card \<Rightarrow> ('w, string) eff" where
  "find_recommendation_cover s item =
     do { cover \<leftarrow> cover_from_related_catalog s (card_id item);
          if cover \<noteq> [] then pass cover
          else do { results \<leftarrow> pr_search (cs_provider s) (card_title item);
                    pass (case results of
                            Inr (Some rs) \<Rightarrow> cover_from_results item rs
                          | _ \<Rightarrow> []) } }"

definition hydrate_card :: "'w catalog_svc \<Rightarrow> anime_card \<Rightarrow> ('w, anime_card) eff" where
  "hydrate_card s item =
     (let current_cover = trim_space (card_cover item)
      in if current_cover \<noteq> [] \<and> \<not> is_my_anime_list_cover current_cover then pass item
         else do { cover \<leftarrow> find_recommendation_cover s item;
                   pass (if trim_space cover = [] then item else item\<lparr>card_cover := trim_space cover\<rparr>) })"

fun hydrate_cards :: "'w catalog_svc \<Rightarrow> anime_card list \<Rightarrow> ('w, anime_card list) eff" where
  "hydrate_cards s [] = pass []"
| "hydrate_cards s (item # items) =
     do { item' \<leftarrow> hydrate_card s item; items' \<leftarrow> hydrate_cards s items; pass (item' # items') }"

definition hydrate_recommendation_covers :: "'w catalog_svc \<Rightarrow> anime_detail \<Rightarrow> ('w, anime_detail) eff" where
  "hydrate_recommendation_covers s detail =
     do { items \<leftarrow> hydrate_cards s (det_recommendations detail);
          pass (detail\<lparr>det_recommendations := items\<rparr>) }"

definition complete_detail :: "'w catalog_svc \<Rightarrow> string \<Rightarrow> anime_detail \<Rightarrow> ('w, anime_detail) eff" where
  "complete_detail s i detail =
     do { detail \<leftarrow> refresh_primary_detail_cover s i detail;
          detail \<leftarrow> refresh_episode_release_dates s i detail;
          detail \<leftarrow> hydrate_recommendation_covers s detail;
          pass (normalize_detail detail) }"

definition catalog_catalog :: "'w catalog_svc \<Rightarrow> string \<Rightarrow> ('w, string + anime_detail) eff" where
  "catalog_catalog s i =
     do { raw \<leftarrow> cache_get (cs_cache s) (catalog_key i);
          case raw of
            Some (CDetail v) \<Rightarrow>
              do { v \<leftarrow> complete_detail s i v;
                   cache_set (cs_cache s) (catalog_key i) (CDetail v) 0;
                   pass (Inr v) }
          | _ \<Rightarrow>
              do { row \<leftarrow> stored_catalog s i;
                   case row of
                     Some v \<Rightarrow>
                       do { v \<leftarrow> complete_detail s i v;
                            cache_set (cs_cache s) (catalog_key i) (CDetail v) 0;
                            store_catalog s i v;
                            pass (Inr v) }
                   | None \<Rightarrow>
                       do { value \<leftarrow> pr_catalog (cs_provider s) i;
                            case value of
                              Inl err \<Rightarrow> pass (Inl err)
                            | Inr v \<Rightarrow>
                                do { v \<leftarrow> complete_detail s i v;
                                     cache_set (cs_cache s) (catalog_key i) (CDetail v) 0;
                                     store_catalog s i v;
                                     pass (Inr v) } } } }"

definition catalog_episodes :: "'w catalog_svc \<Rightarrow> string \<Rightarrow> ('w, string + episode list) eff" where
  "catalog_episodes s i =
     do { detail \<leftarrow> catalog_catalog s i;
          pass (case detail of Inl err \<Rightarrow> Inl err | Inr d \<Rightarrow> Inr (det_episodes d)) }"

end
