(* ===== verification/Catalog_Props.thy ===== *)
theory Catalog_Props
  imports Catalog
begin

text \<open>
  What the catalog service promises: normalisation settles after one round, a page once
  obtained is served again from memory, and a completed detail keeps what the provider
  gave and fills only what is missing. The last section is about the keys of the cache.
\<close>

section \<open>Normalisation\<close>

lemma not_score_label_Nil [simp]: "\<not> is_score_label []"
  by (simp add: is_score_label_def is_digits_def)

lemma normalize_card_idem [simp]: "normalize_card (normalize_card c) = normalize_card c"
  by (simp add: normalize_card_def)

lemma normalize_cards_idem [simp]: "normalize_anime_cards (normalize_anime_cards cs) = normalize_anime_cards cs"
  by (simp add: normalize_anime_cards_def)

lemma normalize_page_idem [simp]: "normalize_collection_page (normalize_collection_page p) = normalize_collection_page p"
  by (simp add: normalize_collection_page_def)

subsection \<open>The number of episodes\<close>

lemma fold_max_ge: "m \<le> fold (\<lambda>x (m::int). if f x > m then f x else m) xs m"
proof (induction xs arbitrary: m)
  case (Cons x xs)
  show ?case using Cons [of "if f x > m then f x else m"] by auto
qed simp

lemma fold_max_elem: "x \<in> set xs \<Longrightarrow> f x \<le> fold (\<lambda>x (m::int). if f x > m then f x else m) xs m"
proof (induction xs arbitrary: m)
  case (Cons y ys)
  show ?case
  proof (cases "x = y")
    case True
    then show ?thesis using fold_max_ge [of "if f y > m then f y else m" f ys] by (auto split: if_splits)
  next
    case False
    with Cons show ?thesis by simp
  qed
qed simp

lemma max_run_ge: "m \<le> max_run s m"
  unfolding max_run_def by (rule fold_max_ge)

lemma max_run_elem: "raw \<in> set (digit_runs [] s) \<Longrightarrow> run_value raw \<le> max_run s m"
  unfolding max_run_def by (rule fold_max_elem)

lemma max_run_mono: "m \<le> m' \<Longrightarrow> max_run s m \<le> max_run s m'"
proof -
  have "m \<le> m' \<Longrightarrow> fold (\<lambda>x m. if f x > m then f x else m) xs m \<le> fold (\<lambda>x m. if f x > m then f x else m) xs m'"
    for f :: "string \<Rightarrow> int" and xs
    by (induction xs arbitrary: m m') auto
  then show "m \<le> m' \<Longrightarrow> ?thesis" by (simp add: max_run_def)
qed

lemma episode_max_bounds:
  "m \<le> episode_max e m" "ep_number e \<le> episode_max e m"
  "raw \<in> set (digit_runs [] (ep_label e)) \<Longrightarrow> run_value raw \<le> episode_max e m"
  "raw \<in> set (digit_runs [] (ep_title e)) \<Longrightarrow> run_value raw \<le> episode_max e m"
proof -
  let ?n = "if ep_number e > m then ep_number e else m"
  have n: "m \<le> ?n" "ep_number e \<le> ?n" by auto
  have up: "x \<le> episode_max e m" if "x \<le> max_run (ep_label e) ?n" for x
    using that max_run_ge [of "max_run (ep_label e) ?n" "ep_title e"] by (simp add: episode_max_def)
  show "m \<le> episode_max e m" "ep_number e \<le> episode_max e m"
    using n max_run_ge [of ?n "ep_label e"] by (auto intro!: up)
  show "raw \<in> set (digit_runs [] (ep_label e)) \<Longrightarrow> run_value raw \<le> episode_max e m"
    by (intro up max_run_elem)
  show "raw \<in> set (digit_runs [] (ep_title e)) \<Longrightarrow> run_value raw \<le> episode_max e m"
    unfolding episode_max_def by (rule max_run_elem)
qed

text \<open>The numbers an episode mentions.\<close>

definition mentions :: "episode \<Rightarrow> int \<Rightarrow> bool" where
  "mentions e n \<longleftrightarrow> n = ep_number e
     \<or> (\<exists>raw\<in>set (digit_runs [] (ep_label e)) \<union> set (digit_runs [] (ep_title e)). n = run_value raw)"

lemma mentions_le: "mentions e n \<Longrightarrow> n \<le> episode_max e m"
  using episode_max_bounds(2-4) unfolding mentions_def by blast

lemma fold_episode_max_ge: "m \<le> fold episode_max es m"
proof (induction es arbitrary: m)
  case (Cons e es)
  show ?case using episode_max_bounds(1) [of m e] Cons [of "episode_max e m"] by simp
qed simp

lemma fold_episode_max_mentions:
  "\<lbrakk>e \<in> set es; mentions e n\<rbrakk> \<Longrightarrow> n \<le> fold episode_max es m"
proof (induction es arbitrary: m)
  case (Cons x es)
  show ?case
  proof (cases "x = e")
    case True
    then show ?thesis
      using mentions_le [OF Cons.prems(2), of m] fold_episode_max_ge [of "episode_max e m" es] by simp
  next
    case False
    with Cons show ?thesis by simp
  qed
qed simp

lemma max_run_attained: "max_run s m = m \<or> (\<exists>raw\<in>set (digit_runs [] s). max_run s m = run_value raw)"
proof -
  have "fold (\<lambda>x m. if f x > m then f x else m) xs m = m
      \<or> (\<exists>x\<in>set xs. fold (\<lambda>x m. if f x > m then f x else m) xs m = f x)" for f :: "string \<Rightarrow> int" and xs
  proof (induction xs arbitrary: m)
    case (Cons x xs)
    show ?case using Cons [of "if f x > m then f x else m"] by auto
  qed simp
  then show ?thesis unfolding max_run_def .
qed

lemma episode_max_attained: "episode_max e m = m \<or> mentions e (episode_max e m)"
proof -
  let ?n = "if ep_number e > m then ep_number e else m"
  let ?l = "max_run (ep_label e) ?n"
  have "?l = m \<or> mentions e ?l"
    using max_run_attained [of "ep_label e" ?n] by (auto simp: mentions_def split: if_splits)
  then show ?thesis
    using max_run_attained [of "ep_title e" ?l] unfolding episode_max_def mentions_def by auto
qed

lemma fold_episode_max_attained:
  "fold episode_max es m = m \<or> (\<exists>e\<in>set es. mentions e (fold episode_max es m))"
proof (induction es arbitrary: m)
  case (Cons e es)
  show ?case using Cons [of "episode_max e m"] episode_max_attained [of e m] by auto
qed simp

lemma inferred_count_nonneg: "0 \<le> inferred_episode_count es"
  using fold_episode_max_ge [of 0 es] by (simp add: inferred_episode_count_def Let_def)

text \<open>
  The episode count filled in for a title whose metadata does not give one is the
  largest number its episodes mention, in their number, label or title; when no positive
  number occurs it is how many episodes there are.
\<close>

theorem inferred_count_largest:
  "if \<exists>e\<in>set es. \<exists>n>0. mentions e n
   then (\<exists>e\<in>set es. mentions e (inferred_episode_count es))
     \<and> list_all (\<lambda>e. ep_number e \<le> inferred_episode_count es
          \<and> list_all (\<lambda>raw. run_value raw \<le> inferred_episode_count es)
              (digit_runs [] (ep_label e) @ digit_runs [] (ep_title e))) es
   else inferred_episode_count es = int (length es)"
proof (cases "\<exists>e\<in>set es. \<exists>n>0. mentions e n")
  case True
  then obtain e n where e: "e \<in> set es" "0 < n" "mentions e n" by blast
  have pos: "0 < fold episode_max es 0" using fold_episode_max_mentions [OF e(1,3), of 0] e(2) by linarith
  then have eq: "inferred_episode_count es = fold episode_max es 0"
    by (simp add: inferred_episode_count_def Let_def)
  have "n \<le> fold episode_max es 0" if "x \<in> set es" "mentions x n" for x n
    using that by (rule fold_episode_max_mentions)
  then show ?thesis
    using True pos fold_episode_max_attained [of es 0] unfolding eq list_all_iff
    by (auto simp: mentions_def)
next
  case False
  have "fold episode_max es 0 = 0"
    using fold_episode_max_attained [of es 0] fold_episode_max_ge [of 0 es] False
    by (metis order_le_imp_less_or_eq)
  then show ?thesis by (subst if_not_P [OF False]) (simp add: inferred_episode_count_def)
qed

section \<open>Memory in front of the provider\<close>

text \<open>
  The cache is a map at every instant and the database does not touch it; the provider
  may do anything.
\<close>

locale catalog_world = ttl_store "cs_cache s" view
  for s :: "'w catalog_svc" and view :: "'w \<Rightarrow> string \<rightharpoonup> cached" +
  assumes upsert_discovery_view:
      "cs_store s = Some st \<Longrightarrow> view (after (cst_upsert_discovery st k v) w) = view w"
    and upsert_catalog_view:
      "cs_store s = Some st \<Longrightarrow> view (after (cst_upsert_catalog st i d) w) = view w"
begin

lemma store_discovery_view: "view (after (store_discovery s key v) w) = view w"
  by (auto simp: store_discovery_def upsert_discovery_view split: option.split)

lemma store_catalog_view: "view (after (store_catalog s i v) w) = view w"
  by (auto simp: store_catalog_def upsert_catalog_view split: option.split)

lemma discovery_hit:
  "view w key = Some (CPage v) \<Longrightarrow>
     result (discovery_page s key fetch) w = Inr (normalize_collection_page v)
     \<and> view (after (discovery_page s key fetch) w) = view w"
  by (simp add: discovery_page_def get_result get_view)

lemma discovery_stored:
  assumes "result (discovery_page s key fetch) w = Inr v"
  shows "\<exists>u. view (after (discovery_page s key fetch) w) key = Some (CPage u)
    \<and> normalize_collection_page u = v"
proof (cases "view w key")
  case None
  then show ?thesis using assms
    by (auto simp: discovery_page_def get_result Let_def cache_set_def set_view store_discovery_view
        split: option.splits cached.splits sum.splits)
next
  case (Some c)
  then show ?thesis using assms
    by (cases c) (auto simp: discovery_page_def get_result get_view Let_def cache_set_def set_view
        store_discovery_view split: option.splits cached.splits sum.splits)
qed

lemma discovery_again:
  assumes "result (discovery_page s key fetch) w = Inr v"
    and "view w' key = view (after (discovery_page s key fetch) w) key"
  shows "result (discovery_page s key fetch') w' = Inr v \<and> view (after (discovery_page s key fetch') w') = view w'"
proof -
  obtain u where "view w' key = Some (CPage u)" "normalize_collection_page u = v"
    using discovery_stored [OF assms(1)] assms(2) by auto
  then show ?thesis using discovery_hit by simp
qed

text \<open>The detail of a title is in memory after the call that returned it, exactly as returned.\<close>

lemma catalog_stored:
  assumes "result (catalog_catalog s i) w = Inr v"
  shows "view (after (catalog_catalog s i) w) (catalog_key i) = Some (CDetail v)"
  using assms
  by (auto simp: catalog_catalog_def get_result Let_def cache_set_def set_view store_catalog_view
      split: option.splits cached.splits sum.splits)

end

definition ref_catalog_svc :: "ref_cache provider \<Rightarrow> ref_cache catalog_svc" where
  "ref_catalog_svc p = \<lparr>cs_provider = p, cs_cache = ref_cache_ops, cs_store = None\<rparr>"

interpretation ref_catalog: catalog_world "ref_catalog_svc p" rc_view for p
  unfolding catalog_world_def catalog_world_axioms_def
  by (simp add: ref_catalog_svc_def ref_cache.ttl_store_axioms)

text \<open>
  A page is fetched once: when a discovery page was returned for a key, the next call
  for the key returns the same page and leaves the cache as it is, whatever the provider
  would answer by then, as long as the entry has not been replaced.
\<close>

theorem discovery_page_cached:
  assumes "catalog_world s view"
    and "result (discovery_page s key fetch) w = Inr v"
    and "view w' key = view (after (discovery_page s key fetch) w) key"
  shows "result (discovery_page s key fetch') w' = Inr v
    \<and> view (after (discovery_page s key fetch') w') = view w'"
  using assms(2,3) by (rule catalog_world.discovery_again [OF assms(1)])

definition sample_page :: "anime_card list \<Rightarrow> collection_page" where
  "sample_page cards =
     \<lparr>cp_kind = ''quick'', cp_key = ''ongoing'', cp_title = ''Ongoing'', cp_subtitle = [], cp_items = cards,
      cp_current_filter = [], cp_current_order = [], cp_filter_options = [], cp_order_options = [],
      cp_pagination = \<lparr>pg_current = 1, pg_prev = 0, pg_next = 0, pg_total = 1\<rparr>\<rparr>"

definition sample_card :: "string \<Rightarrow> string \<Rightarrow> anime_card" where
  "sample_card i ep =
     \<lparr>card_id = i, card_title = ''Naruto'', card_cover = [], card_status = [], card_episode = ep,
      card_rating = [], card_views = [], card_provider = ''kuramanime''\<rparr>"

theorem discovery_page_cached_witness:
  "let s = ref_catalog_svc undefined; w = \<lparr>rc_clock = 0, rc_default = 1, rc_items = Map.empty\<rparr>;
       key = quick_catalog_key ''ongoing'' ''latest'' 1;
       page = sample_page [sample_card ''kuramanime:1'' ''8.7'', sample_card ''kuramanime:2'' ''Ep 3'']
   in result (discovery_page s key (pass (Inl ''offline'')))
        (after (discovery_page s key (pass (Inr page))) w)
      = Inr (sample_page [sample_card ''kuramanime:1'' [], sample_card ''kuramanime:2'' ''Ep 3''])"
proof -
  let ?s = "ref_catalog_svc undefined" and ?w = "\<lparr>rc_clock = 0, rc_default = 1, rc_items = Map.empty\<rparr>"
  let ?key = "quick_catalog_key ''ongoing'' ''latest'' 1"
  let ?page = "sample_page [sample_card ''kuramanime:1'' ''8.7'', sample_card ''kuramanime:2'' ''Ep 3'']"
  have "normalize_collection_page ?page
      = sample_page [sample_card ''kuramanime:1'' [], sample_card ''kuramanime:2'' ''Ep 3'']"
    by code_simp
  then have "result (discovery_page ?s ?key (pass (Inr ?page))) ?w
      = Inr (sample_page [sample_card ''kuramanime:1'' [], sample_card ''kuramanime:2'' ''Ep 3''])"
    by (simp add: discovery_page_def stored_discovery_def store_discovery_def ref_catalog_svc_def
        ref_cache_ops_def rc_view_def Let_def)
  from discovery_page_cached [OF ref_catalog.catalog_world_axioms this refl, of "pass (Inl ''offline'')"]
  show ?thesis by (simp only: Let_def)
qed

section \<open>Completing a detail\<close>

definition unwanted_cover :: "string \<Rightarrow> bool" where
  "unwanted_cover c \<longleftrightarrow> trim_space c = [] \<or> is_my_anime_list_cover (trim_space c)"

lemma refresh_cover_result:
  "result (refresh_primary_detail_cover s i d) w =
     (if \<not> unwanted_cover (det_cover d) then d
      else (case result (pr_catalog (cs_provider s) i) w of
              Inl _ \<Rightarrow> d
            | Inr f \<Rightarrow> if unwanted_cover (det_cover f) then d else d\<lparr>det_cover := trim_space (det_cover f)\<rparr>))"
  by (auto simp: refresh_primary_detail_cover_def unwanted_cover_def Let_def split: sum.split)

lemma refresh_dates_result:
  "result (refresh_episode_release_dates s i d) w =
     (if \<not> needs_episode_release_refresh (det_episodes d) then d
      else (case result (pr_catalog (cs_provider s) i) w of
              Inl _ \<Rightarrow> d
            | Inr f \<Rightarrow> if has_episode_release_dates (det_episodes f) then d\<lparr>det_episodes := det_episodes f\<rparr> else d))"
  by (auto simp: refresh_episode_release_dates_def split: sum.split)

lemma hydrate_card_result:
  "\<exists>c. result (hydrate_card s item) w = item\<lparr>card_cover := c\<rparr>
     \<and> (\<not> unwanted_cover (card_cover item) \<longrightarrow> c = card_cover item)"
proof -
  have "\<exists>c. item = item\<lparr>card_cover := c\<rparr>" by (rule exI [of _ "card_cover item"]) simp
  then show ?thesis
    by (auto simp: hydrate_card_def unwanted_cover_def Let_def intro: exI [of _ "card_cover item"])
qed

definition card_completes :: "anime_card \<Rightarrow> anime_card \<Rightarrow> bool" where
  "card_completes a b \<longleftrightarrow> b = a\<lparr>card_cover := card_cover b\<rparr>
     \<and> (unwanted_cover (card_cover a) \<or> card_cover b = card_cover a)"

lemma hydrate_cards_result: "list_all2 card_completes cs (result (hydrate_cards s cs) w)"
proof (induction cs arbitrary: w)
  case (Cons item items)
  obtain c where "result (hydrate_card s item) w = item\<lparr>card_cover := c\<rparr>"
    "unwanted_cover (card_cover item) \<or> c = card_cover item"
    using hydrate_card_result [of s item w] by blast
  with Cons show ?case by (simp add: card_completes_def)
qed simp

lemma normalize_detail_fields:
  "\<exists>m. normalize_detail d = d\<lparr>det_metadata := m\<rparr>"
proof -
  have "\<exists>m. d = d\<lparr>det_metadata := m\<rparr>" by (rule exI [of _ "det_metadata d"]) simp
  then show ?thesis by (cases "det_metadata d") (auto simp: normalize_detail_def Let_def)
qed

lemma normalize_detail_idem: "normalize_detail (normalize_detail d) = normalize_detail d"
proof (cases "det_metadata d")
  case (Some m)
  then show ?thesis
    by (simp add: normalize_detail_def Let_def fun_eq_iff fun_upd_twist)
qed (simp add: normalize_detail_def)

lemma normalize_detail_metadata:
  "det_metadata (normalize_detail d) = Some m \<Longrightarrow> m ''eksplisit'' = None \<and> m ''tema'' = None"
  by (cases "det_metadata d") (auto simp: normalize_detail_def Let_def)

lemma refresh_cover_cases:
  obtains c where "result (refresh_primary_detail_cover s i d) w = d\<lparr>det_cover := c\<rparr>"
    "c = det_cover d \<or> unwanted_cover (det_cover d) \<and> \<not> unwanted_cover c"
proof (cases "result (refresh_primary_detail_cover s i d) w = d")
  case True
  then show thesis by (intro that [of "det_cover d"]) simp_all
next
  case False
  then show thesis
    by (intro that [of "det_cover (result (refresh_primary_detail_cover s i d) w)"])
      (auto simp: refresh_cover_result unwanted_cover_def split: if_splits sum.splits)
qed

lemma refresh_dates_cases:
  obtains es where "result (refresh_episode_release_dates s i d) w = d\<lparr>det_episodes := es\<rparr>"
    "es = det_episodes d \<or> needs_episode_release_refresh (det_episodes d) \<and> has_episode_release_dates es"
proof (cases "result (refresh_episode_release_dates s i d) w = d")
  case True
  then show thesis by (intro that [of "det_episodes d"]) simp_all
next
  case False
  then show thesis
    by (intro that [of "det_episodes (result (refresh_episode_release_dates s i d) w)"])
      (auto simp: refresh_dates_result split: if_splits sum.splits)
qed

lemma complete_detail_result:
  obtains c es cs where
    "result (complete_detail s i d) w
      = normalize_detail (d\<lparr>det_cover := c, det_episodes := es, det_recommendations := cs\<rparr>)"
    "c = det_cover d \<or> unwanted_cover (det_cover d) \<and> \<not> unwanted_cover c"
    "es = det_episodes d \<or> needs_episode_release_refresh (det_episodes d) \<and> has_episode_release_dates es"
    "list_all2 card_completes (det_recommendations d) cs"
proof -
  let ?w1 = "after (refresh_primary_detail_cover s i d) w"
  obtain c where c: "result (refresh_primary_detail_cover s i d) w = d\<lparr>det_cover := c\<rparr>"
    "c = det_cover d \<or> unwanted_cover (det_cover d) \<and> \<not> unwanted_cover c"
    by (rule refresh_cover_cases)
  let ?d1 = "d\<lparr>det_cover := c\<rparr>"
  let ?w2 = "after (refresh_episode_release_dates s i ?d1) ?w1"
  obtain es where es: "result (refresh_episode_release_dates s i ?d1) ?w1 = ?d1\<lparr>det_episodes := es\<rparr>"
    "es = det_episodes d \<or> needs_episode_release_refresh (det_episodes d) \<and> has_episode_release_dates es"
    by (rule refresh_dates_cases [of s i ?d1 ?w1]) simp
  show thesis
    using c es hydrate_cards_result [of "det_recommendations d" s ?w2]
    by (intro that [where c = c and es = es and cs = "result (hydrate_cards s (det_recommendations d)) ?w2"])
      (simp_all add: complete_detail_def hydrate_recommendation_covers_def)
qed

text \<open>
  C25. Completing a detail only fills in what is missing: identity, title, synopsis,
  genres and provider are untouched, a usable cover is never replaced and a replacement
  is usable, episodes are exchanged only for a list with release dates when some date was
  missing, recommendations keep their cards and order up to missing covers, and the
  metadata is normalised.
\<close>

theorem complete_detail_fills_only:
  "let v = result (complete_detail s i d) w
   in det_id v = det_id d \<and> det_title v = det_title d \<and> det_synopsis v = det_synopsis d
    \<and> det_genres v = det_genres d \<and> det_provider v = det_provider d
    \<and> (det_cover v = det_cover d \<or> unwanted_cover (det_cover d) \<and> \<not> unwanted_cover (det_cover v))
    \<and> (det_episodes v = det_episodes d
       \<or> needs_episode_release_refresh (det_episodes d) \<and> has_episode_release_dates (det_episodes v))
    \<and> list_all2 card_completes (det_recommendations d) (det_recommendations v)
    \<and> normalize_detail v = v"
proof -
  define v where "v = result (complete_detail s i d) w"
  obtain c es cs where v:
      "v = normalize_detail (d\<lparr>det_cover := c, det_episodes := es, det_recommendations := cs\<rparr>)"
    and parts: "c = det_cover d \<or> unwanted_cover (det_cover d) \<and> \<not> unwanted_cover c"
      "es = det_episodes d \<or> needs_episode_release_refresh (det_episodes d) \<and> has_episode_release_dates es"
      "list_all2 card_completes (det_recommendations d) cs"
    unfolding v_def by (rule complete_detail_result [of s i d w])
  obtain m where m: "v = d\<lparr>det_cover := c, det_episodes := es, det_recommendations := cs, det_metadata := m\<rparr>"
    using normalize_detail_fields v by metis
  have "normalize_detail v = v" using v by (simp add: normalize_detail_idem)
  then show ?thesis using parts unfolding v_def [symmetric] Let_def by (simp add: m)
qed

section \<open>Cache keys\<close>

lemma colon_not_itoa: "CHR '':'' \<notin> set (itoa n)"
proof -
  have "CHR '':'' \<notin> set (nat_digits k)" if "0 \<le> k" for k
    using nat_digits_digit [OF that] by (auto simp: list_all_iff is_digit_def)
  then show ?thesis by (simp add: itoa_def)
qed

lemma append_colon_eq:
  "\<lbrakk>a @ CHR '':'' # s = b @ CHR '':'' # t; CHR '':'' \<notin> set a; CHR '':'' \<notin> set b\<rbrakk> \<Longrightarrow> a = b \<and> s = t"
proof -
  assume e: "a @ CHR '':'' # s = b @ CHR '':'' # t" and f: "CHR '':'' \<notin> set a" "CHR '':'' \<notin> set b"
  have "Some (a, s) = Some (b, t)" 
    by (rule trans [OF _ cut_append [OF f(2)]]) (simp only: cut_append [OF f(1)] e [symmetric])
  then show ?thesis by simp
qed

text \<open>
  Pages of property catalogs share a cache entry only when kind, identifier, order
  and page agree, as long as the trimmed kind and identifier hold no colon; with colons
  they do collide: kind \<open>a:b\<close> and identifier \<open>c\<close> use the entry of kind \<open>a\<close> and
  identifier \<open>b:c\<close>.
\<close>

theorem property_catalog_keys:
  assumes "CHR '':'' \<notin> set (trim_space k)" "CHR '':'' \<notin> set (trim_space k')"
    and "CHR '':'' \<notin> set (trim_space i)" "CHR '':'' \<notin> set (trim_space i')"
    and "CHR '':'' \<notin> set (trim_space q)" "CHR '':'' \<notin> set (trim_space q')"
    and "in_int64 n" "in_int64 n'"
  shows "(property_catalog_key k i q n = property_catalog_key k' i' q' n'
      \<longleftrightarrow> trim_space k = trim_space k' \<and> trim_space i = trim_space i' \<and> trim_space q = trim_space q' \<and> n = n')
    \<and> property_catalog_key ''a:b'' ''c'' q n = property_catalog_key ''a'' ''b:c'' q n"
proof -
  have "trim_space k = trim_space k' \<and> trim_space i = trim_space i' \<and> trim_space q = trim_space q' \<and> n = n'"
    if "property_catalog_key k i q n = property_catalog_key k' i' q' n'"
  proof -
    from that have 1: "trim_space k @ CHR '':'' # trim_space i @ CHR '':'' # trim_space q @ CHR '':'' # itoa n
        = trim_space k' @ CHR '':'' # trim_space i' @ CHR '':'' # trim_space q' @ CHR '':'' # itoa n'"
      by (simp add: property_catalog_key_def)
    from append_colon_eq [OF this assms(1,2)]
    have k: "trim_space k = trim_space k'" and
      2: "trim_space i @ CHR '':'' # trim_space q @ CHR '':'' # itoa n
        = trim_space i' @ CHR '':'' # trim_space q' @ CHR '':'' # itoa n'" by auto
    from append_colon_eq [OF 2 assms(3,4)]
    have i: "trim_space i = trim_space i'" and
      3: "trim_space q @ CHR '':'' # itoa n = trim_space q' @ CHR '':'' # itoa n'" by auto
    from append_colon_eq [OF 3 assms(5,6)] itoa_inj assms(7,8) k i show ?thesis by blast
  qed
  moreover have "trim_space ''a:b'' = ''a:b''" "trim_space ''c'' = ''c''" "trim_space ''a'' = ''a''"
    "trim_space ''b:c'' = ''b:c''" by code_simp+
  ultimately show ?thesis by (auto simp: property_catalog_key_def)
qed

theorem property_catalog_keys_witness:
  "property_catalog_key '' genre'' ''action'' ''latest'' 1 \<noteq> property_catalog_key ''genre'' ''action'' ''latest'' 2"
proof -
  have "trim_space '' genre'' = ''genre''" "trim_space ''genre'' = ''genre''"
    "trim_space ''action'' = ''action''" "trim_space ''latest'' = ''latest''" by code_simp+
  then show ?thesis
    using property_catalog_keys [of "'' genre''" "''genre''" "''action''" "''action''" "''latest''" "''latest''" 1 2]
    by (simp add: min_int64_def max_int64_def)
qed

end
