(* ===== verification/Identifiers.thy ===== *)
theory Identifiers
  imports Store_Props
begin

text \<open>
  The identifier service, \<open>internal/service/identifiers/service.go\<close>: internal identifiers
  \<open>provider:slug\<close> leave the backend as opaque public ones, made by the alias table, and
  come back through it. The views it makes of the data change identifiers and nothing
  else.
\<close>

section \<open>The service\<close>

record 'w id_svc =
  is_aliases :: "('w, alias_row) table"
  is_random :: "('w, bytes) eff"

definition kind_catalog :: string where
  "kind_catalog = ''catalog''"

definition kind_episode :: string where
  "kind_episode = ''episode''"

definition resolve_id :: "'w id_svc \<Rightarrow> string \<Rightarrow> string \<Rightarrow> ('w, id_error + string) eff" where
  "resolve_id s kind value =
     (let trimmed = trim_space value
      in if trimmed = [] then pass (Inl ErrInvalidIdentifier)
         else (case parse_qualified_id trimmed of
                 Inr _ \<Rightarrow> pass (Inr trimmed)
               | Inl _ \<Rightarrow>
                   do { found \<leftarrow> resolve_alias (is_aliases s) kind trimmed;
                        pass (case found of
                                Inl err \<Rightarrow> Inl (ErrStore err)
                              | Inr None \<Rightarrow> Inl ErrInvalidIdentifier
                              | Inr (Some internal) \<Rightarrow> Inr internal) }))"

definition public_id :: "'w id_svc \<Rightarrow> string \<Rightarrow> string \<Rightarrow> ('w, string) eff" where
  "public_id s kind internal =
     (let trimmed = trim_space internal
      in if trimmed = [] then pass []
         else do { made \<leftarrow> ensure_alias (is_aliases s) (is_random s) kind trimmed;
                   pass (case made of Inl _ \<Rightarrow> trimmed | Inr p \<Rightarrow> p) })"

definition resolve_catalog_id :: "'w id_svc \<Rightarrow> string \<Rightarrow> ('w, id_error + string) eff" where
  "resolve_catalog_id s value = resolve_id s kind_catalog value"

definition resolve_episode_id :: "'w id_svc \<Rightarrow> string \<Rightarrow> ('w, id_error + string) eff" where
  "resolve_episode_id s value = resolve_id s kind_episode value"

definition public_catalog_id :: "'w id_svc \<Rightarrow> string \<Rightarrow> ('w, string) eff" where
  "public_catalog_id s i = public_id s kind_catalog i"

definition public_episode_id :: "'w id_svc \<Rightarrow> string \<Rightarrow> ('w, string) eff" where
  "public_episode_id s i = public_id s kind_episode i"

section \<open>Views\<close>

fun map_eff :: "('a \<Rightarrow> ('w, 'b) eff) \<Rightarrow> 'a list \<Rightarrow> ('w, 'b list) eff" where
  "map_eff f [] = pass []"
| "map_eff f (x # xs) = do { y \<leftarrow> f x; ys \<leftarrow> map_eff f xs; pass (y # ys) }"

text \<open>\<open>if id != "" { id = public(id) }\<close>.\<close>

definition public_field :: "'w id_svc \<Rightarrow> string \<Rightarrow> string \<Rightarrow> ('w, string) eff" where
  "public_field s kind i = (if i \<noteq> [] then public_id s kind i else pass i)"

definition public_card :: "'w id_svc \<Rightarrow> anime_card \<Rightarrow> ('w, anime_card) eff" where
  "public_card s item = do { i \<leftarrow> public_field s kind_catalog (card_id item); pass (item\<lparr>card_id := i\<rparr>) }"

definition public_cards :: "'w id_svc \<Rightarrow> anime_card list \<Rightarrow> ('w, anime_card list) eff" where
  "public_cards s items = (if items = [] then pass items else map_eff (public_card s) items)"

definition public_home :: "'w id_svc \<Rightarrow> home_feed \<Rightarrow> ('w, home_feed) eff" where
  "public_home s feed =
     do { a \<leftarrow> public_cards s (hf_featured feed);
          b \<leftarrow> public_cards s (hf_ongoing feed);
          c \<leftarrow> public_cards s (hf_recent feed);
          pass (feed\<lparr>hf_featured := a, hf_ongoing := b, hf_recent := c\<rparr>) }"

definition public_day :: "'w id_svc \<Rightarrow> schedule_day \<Rightarrow> ('w, schedule_day) eff" where
  "public_day s d = do { items \<leftarrow> public_cards s (sd_items d); pass (\<lparr>sd_day = sd_day d, sd_items = items\<rparr>) }"

definition public_schedule :: "'w id_svc \<Rightarrow> schedule_day list \<Rightarrow> ('w, schedule_day list) eff" where
  "public_schedule s items = map_eff (public_day s) items"

text \<open>Go visits the keys of a map in any order; here it is the order of \<open>ks\<close>.\<close>

definition public_index ::
  "'w id_svc \<Rightarrow> string list \<Rightarrow> (string \<rightharpoonup> anime_card list) \<Rightarrow> ('w, string \<rightharpoonup> anime_card list) eff" where
  "public_index s ks items =
     do { vs \<leftarrow> map_eff (\<lambda>k. public_cards s (case items k of None \<Rightarrow> [] | Some v \<Rightarrow> v)) ks;
          pass (map_of (zip ks vs)) }"

definition public_collection_page :: "'w id_svc \<Rightarrow> collection_page \<Rightarrow> ('w, collection_page) eff" where
  "public_collection_page s page =
     do { items \<leftarrow> public_cards s (cp_items page); pass (page\<lparr>cp_items := items\<rparr>) }"

definition public_episode :: "'w id_svc \<Rightarrow> episode \<Rightarrow> ('w, episode) eff" where
  "public_episode s item =
     do { i \<leftarrow> public_field s kind_episode (ep_id item);
          c \<leftarrow> public_field s kind_catalog (ep_catalog_id item);
          pass (item\<lparr>ep_id := i, ep_catalog_id := c\<rparr>) }"

definition public_episodes :: "'w id_svc \<Rightarrow> episode list \<Rightarrow> ('w, episode list) eff" where
  "public_episodes s items = map_eff (public_episode s) items"

definition public_detail :: "'w id_svc \<Rightarrow> anime_detail \<Rightarrow> ('w, anime_detail) eff" where
  "public_detail s d =
     do { i \<leftarrow> public_field s kind_catalog (det_id d);
          es \<leftarrow> public_episodes s (det_episodes d);
          rs \<leftarrow> public_cards s (det_recommendations d);
          pass (d\<lparr>det_id := i, det_episodes := es, det_recommendations := rs\<rparr>) }"

definition public_stream :: "'w id_svc \<Rightarrow> stream_result \<Rightarrow> ('w, stream_result) eff" where
  "public_stream s r = do { i \<leftarrow> public_field s kind_episode (sr_episode_id r); pass (r\<lparr>sr_episode_id := i\<rparr>) }"

definition public_watchlist :: "'w id_svc \<Rightarrow> watchlist_item list \<Rightarrow> ('w, watchlist_item list) eff" where
  "public_watchlist s items =
     map_eff (\<lambda>item. do { c \<leftarrow> public_field s kind_catalog (wi_catalog_id item);
                          pass (item\<lparr>wi_catalog_id := c\<rparr>) }) items"

definition public_history :: "'w id_svc \<Rightarrow> history_item list \<Rightarrow> ('w, history_item list) eff" where
  "public_history s items =
     map_eff (\<lambda>item. do { c \<leftarrow> public_field s kind_catalog (hi_catalog_id item);
                          e \<leftarrow> public_field s kind_episode (hi_episode_id item);
                          pass (item\<lparr>hi_catalog_id := c, hi_episode_id := e\<rparr>) }) items"

definition public_continue :: "'w id_svc \<Rightarrow> continue_item list \<Rightarrow> ('w, continue_item list) eff" where
  "public_continue s items =
     map_eff (\<lambda>item. do { c \<leftarrow> public_field s kind_catalog (ci_catalog_id item);
                          e \<leftarrow> public_field s kind_episode (ci_episode_id item);
                          pass (item\<lparr>ci_catalog_id := c, ci_episode_id := e\<rparr>) }) items"

section \<open>Public identifiers\<close>

text \<open>The alphabet of \<open>newUUID\<close>: such a text is trimmed and not a qualified identifier.\<close>

definition uuid_text :: "string \<Rightarrow> bool" where
  "uuid_text p \<longleftrightarrow> p \<noteq> [] \<and> set p \<subseteq> set ''0123456789abcdef-''"

lemma hex_bytes_set: "set (hex_bytes bs) \<subseteq> set ''0123456789abcdef''"
  unfolding hex_bytes_def using hex_byte_set by (auto simp del: list.set)

lemma new_uuid_text: "uuid_text (new_uuid bs)"
proof -
  let ?A = "set ''0123456789abcdef-''"
  have "set ''0123456789abcdef'' \<subseteq> ?A" by auto
  then have h: "set (hex_bytes xs) \<subseteq> ?A" for xs using hex_bytes_set by (rule order_trans [rotated])
  have "set ''-'' \<subseteq> ?A" by auto
  with h show ?thesis
    unfolding uuid_text_def new_uuid_def Let_def set_append Un_subset_iff by auto
qed

lemma uuid_text_plain: "uuid_text p \<Longrightarrow> list_all plain_char p"
proof -
  have "\<forall>c\<in>set ''0123456789abcdef-''. plain_char c" by (simp add: plain_char_def)
  then show "uuid_text p \<Longrightarrow> ?thesis" unfolding uuid_text_def list_all_iff by blast
qed

lemma uuid_text_trim: "uuid_text p \<Longrightarrow> trim_space p = p"
  by (rule all_plain_trim_space) (rule uuid_text_plain)

lemma uuid_text_unqualified: "uuid_text p \<Longrightarrow> parse_qualified_id p = Inl ErrInvalidIdentifier"
proof -
  assume p: "uuid_text p"
  have "CHR '':'' \<notin> set ''0123456789abcdef-''" by simp
  with p have "CHR '':'' \<notin> set p" unfolding uuid_text_def by blast
  then show ?thesis using is_qualified_colon [of p] by (auto simp: uuid_text_trim [OF p] not_is_qualified_iff [symmetric])
qed

lemma resolve_uuid:
  "uuid_text p \<Longrightarrow> resolve_id s kind p =
     do { found \<leftarrow> resolve_alias (is_aliases s) kind p;
          pass (case found of Inl err \<Rightarrow> Inl (ErrStore err) | Inr None \<Rightarrow> Inl ErrInvalidIdentifier
                            | Inr (Some internal) \<Rightarrow> Inr internal) }"
  by (auto simp: resolve_id_def Let_def uuid_text_trim uuid_text_unqualified uuid_text_def)

lemma resolve_qualified:
  "is_qualified i \<Longrightarrow> resolve_id s kind i = pass (Inr (trim_space i))"
  unfolding resolve_id_def Let_def parse_qualified_id_trim
  by (auto simp: is_qualified_def) (auto simp: parse_qualified_id_Inr_iff)

text \<open>What a public identifier promises: it leads back to the internal one.\<close>

definition leads_to :: "'w id_svc \<Rightarrow> 'w \<Rightarrow> string \<Rightarrow> string \<Rightarrow> string \<Rightarrow> bool" where
  "leads_to s w kind p i \<longleftrightarrow>
     (is_qualified i \<longrightarrow>
        (case result (resolve_id s kind p) w of
           Inr x \<Rightarrow> x = trim_space i
         | Inl ErrInvalidIdentifier \<Rightarrow> False
         | Inl (ErrStore _) \<Rightarrow> True))"

lemma leads_to_self: "p = trim_space i \<Longrightarrow> leads_to s w kind p i"
proof -
  have "is_qualified (trim_space i)" if "is_qualified i" using that by (simp add: is_qualified_def)
  then show "p = trim_space i \<Longrightarrow> ?thesis" by (auto simp: leads_to_def resolve_qualified)
qed

locale id_world = alias_table "is_aliases s" tv
  for s :: "'w id_svc" and tv +
  assumes random_view: "tv (after (is_random s) w) = tv w"
begin

definition good_rows :: "'w \<Rightarrow> bool" where
  "good_rows w \<longleftrightarrow> list_all (\<lambda>r. uuid_text (al_public r)) (tv w)"

definition grows :: "'w \<Rightarrow> 'w \<Rightarrow> bool" where
  "grows w w' \<longleftrightarrow> set (tv w) \<subseteq> set (tv w') \<and> (good_rows w \<longrightarrow> good_rows w')"

definition known :: "'w \<Rightarrow> string \<Rightarrow> string \<Rightarrow> string \<Rightarrow> bool" where
  "known w kind p i \<longleftrightarrow> p = trim_space i \<or> (\<exists>r\<in>set (tv w). alias_key r = (kind, trim_space i) \<and> al_public r = p)"

lemma grows_refl: "tv w' = tv w \<Longrightarrow> grows w w'"
  by (simp add: grows_def good_rows_def)

lemma grows_trans: "\<lbrakk>grows u v; grows v w\<rbrakk> \<Longrightarrow> grows u w"
  by (auto simp: grows_def)

lemma known_mono: "\<lbrakk>known w kind p i; grows w w'\<rbrakk> \<Longrightarrow> known w' kind p i"
  by (auto simp: known_def grows_def)

lemma ensure_grows: "grows w (after (ensure_alias (is_aliases s) (is_random s) kind i) w)"
proof -
  let ?f = "tb_first (is_aliases s) (alias_of kind i)"
  let ?w1 = "after (is_random s) (after ?f w)"
  let ?new = "zero_alias\<lparr>al_kind := kind, al_internal := i,
     al_public := new_uuid (result (is_random s) (after ?f w))\<rparr>"
  let ?c = "tb_create (is_aliases s) ?new"
  have v: "tv ?w1 = tv w" by (simp add: random_view first_view)
  have "grows w (after ?c ?w1)"
  proof (cases "result ?c ?w1")
    case (Inl e)
    then show ?thesis using create_fail [OF Inl] v by (intro grows_refl) simp
  next
    case (Inr r)
    then have c: "tv (after ?c ?w1) = tv w @ [r]" "same_data ?new r"
      using create_ok [OF Inr] v by simp_all
    have "al_public r = new_uuid (result (is_random s) (after ?f w))"
      using same_data_fields(8) [OF c(2)] by auto
    then have "uuid_text (al_public r)" by (simp only: new_uuid_text)
    with c show ?thesis by (auto simp: grows_def good_rows_def)
  qed
  moreover have "grows w (after ?f (after ?c ?w1))" if "grows w (after ?c ?w1)"
    using that by (rule grows_trans) (rule grows_refl, rule first_view)
  ultimately show ?thesis
    by (auto simp: ensure_alias_def grows_refl first_view split: sum.splits db_error.splits)
qed

lemma public_id_known:
  "grows w (after (public_id s kind i) w)
   \<and> known (after (public_id s kind i) w) kind (result (public_id s kind i) w) i"
proof (cases "trim_space i = []")
  case True
  then show ?thesis by (simp add: public_id_def grows_refl known_def)
next
  case False
  let ?e = "ensure_alias (is_aliases s) (is_random s) kind (trim_space i)"
  have "known (after ?e w) kind (case result ?e w of Inl _ \<Rightarrow> trim_space i | Inr p \<Rightarrow> p) i"
  proof (cases "result ?e w")
    case (Inr p)
    then show ?thesis using ensure_alias_row [OF Inr random_view] row_of_key
      by (fastforce simp: known_def)
  qed (simp add: known_def)
  then show ?thesis using False ensure_grows [of w kind "trim_space i"] by (simp add: public_id_def Let_def)
qed

lemma public_field_known:
  "grows w (after (public_field s kind i) w)
   \<and> known (after (public_field s kind i) w) kind (result (public_field s kind i) w) i"
  using public_id_known by (simp add: public_field_def known_def grows_refl)

lemma known_leads:
  assumes "known w kind p i" and "good_rows w" and "distinct (map al_public (tv w))"
  shows "leads_to s w kind p i"
proof (cases "p = trim_space i")
  case True
  then show ?thesis by (rule leads_to_self)
next
  case False
  then obtain r where r: "r \<in> set (tv w)" "alias_key r = (kind, trim_space i)" "al_public r = p"
    using assms(1) by (auto simp: known_def)
  then have p: "uuid_text p" using assms(2) by (auto simp: good_rows_def list_all_iff)
  let ?P = "\<lambda>r. al_kind r = kind \<and> al_public r = p"
  obtain q where q: "List.find ?P (tv w) = Some q"
    using find_ex [of r "tv w" ?P] r by (auto simp: alias_key_def)
  then have "q \<in> set (tv w)" "al_public q = p" using find_SomeD by fast+
  then have "q = r" using assms(3) r by (auto simp: distinct_map dest: inj_onD)
  with q r(2) show ?thesis using first_found [of ?P w] first_missing [of ?P w]
    by (auto simp: leads_to_def resolve_uuid [OF p] resolve_alias_def alias_key_def split: sum.splits db_error.splits)
qed

lemma map_eff_known:
  assumes step: "\<And>x w. grows w (after (f x) w) \<and> Q (after (f x) w) x (result (f x) w)"
    and mono: "\<And>w w' x y. \<lbrakk>Q w x y; grows w w'\<rbrakk> \<Longrightarrow> Q w' x y"
  shows "grows w (after (map_eff f xs) w) \<and> list_all2 (Q (after (map_eff f xs) w)) xs (result (map_eff f xs) w)"
proof (induction xs arbitrary: w)
  case Nil
  then show ?case by (simp add: grows_refl)
next
  case (Cons x xs)
  let ?w = "after (f x) w"
  show ?case using Cons [of ?w] step [of w x] mono [of ?w x "result (f x) w" "after (map_eff f xs) ?w"]
    by (auto intro: grows_trans)
qed

lemma public_cards_known:
  "grows w (after (public_cards s items) w)
   \<and> list_all2 (\<lambda>a b. b\<lparr>card_id := card_id a\<rparr> = a \<and> known (after (public_cards s items) w) kind_catalog (card_id b) (card_id a))
       items (result (public_cards s items) w)"
proof (cases "items = []")
  case False
  let ?Q = "\<lambda>w a b. b\<lparr>card_id := card_id a\<rparr> = a \<and> known w kind_catalog (card_id b) (card_id a)"
  have "grows w (after (map_eff (public_card s) items) w)
      \<and> list_all2 (?Q (after (map_eff (public_card s) items) w)) items (result (map_eff (public_card s) items) w)"
  proof (rule map_eff_known)
    show "grows w (after (public_card s x) w) \<and> ?Q (after (public_card s x) w) x (result (public_card s x) w)" for x w
      using public_field_known [of w kind_catalog "card_id x"] by (simp add: public_card_def)
    show "?Q w x y \<Longrightarrow> grows w w' \<Longrightarrow> ?Q w' x y" for w w' x y by (blast intro: known_mono)
  qed
  with False show ?thesis by (simp add: public_cards_def)
qed (simp add: public_cards_def grows_refl)

lemma public_episodes_known:
  "grows w (after (public_episodes s items) w)
   \<and> list_all2 (\<lambda>a b. b\<lparr>ep_id := ep_id a, ep_catalog_id := ep_catalog_id a\<rparr> = a
        \<and> known (after (public_episodes s items) w) kind_episode (ep_id b) (ep_id a)
        \<and> known (after (public_episodes s items) w) kind_catalog (ep_catalog_id b) (ep_catalog_id a))
       items (result (public_episodes s items) w)"
  unfolding public_episodes_def
proof (rule map_eff_known)
  show "grows w (after (public_episode s x) w) \<and>
      ((result (public_episode s x) w)\<lparr>ep_id := ep_id x, ep_catalog_id := ep_catalog_id x\<rparr> = x
       \<and> known (after (public_episode s x) w) kind_episode (ep_id (result (public_episode s x) w)) (ep_id x)
       \<and> known (after (public_episode s x) w) kind_catalog (ep_catalog_id (result (public_episode s x) w)) (ep_catalog_id x))" for x w
    using public_field_known [of w kind_episode "ep_id x"]
      public_field_known [of "after (public_field s kind_episode (ep_id x)) w" kind_catalog "ep_catalog_id x"]
    by (auto simp: public_episode_def Let_def intro: grows_trans known_mono)
qed (auto intro: known_mono)

lemma public_detail_known:
  obtains i es rs where "result (public_detail s d) w = d\<lparr>det_id := i, det_episodes := es, det_recommendations := rs\<rparr>"
    "grows w (after (public_detail s d) w)" "known (after (public_detail s d) w) kind_catalog i (det_id d)"
    "list_all2 (\<lambda>a b. b\<lparr>ep_id := ep_id a, ep_catalog_id := ep_catalog_id a\<rparr> = a
        \<and> known (after (public_detail s d) w) kind_episode (ep_id b) (ep_id a)
        \<and> known (after (public_detail s d) w) kind_catalog (ep_catalog_id b) (ep_catalog_id a)) (det_episodes d) es"
    "list_all2 (\<lambda>a b. b\<lparr>card_id := card_id a\<rparr> = a
        \<and> known (after (public_detail s d) w) kind_catalog (card_id b) (card_id a)) (det_recommendations d) rs"
proof -
  let ?i = "public_field s kind_catalog (det_id d)"
  let ?w1 = "after ?i w"
  let ?es = "public_episodes s (det_episodes d)"
  let ?w2 = "after ?es ?w1"
  let ?rs = "public_cards s (det_recommendations d)"
  let ?w3 = "after ?rs ?w2"
  have run: "run_state (public_detail s d) w
      = (d\<lparr>det_id := result ?i w, det_episodes := result ?es ?w1, det_recommendations := result ?rs ?w2\<rparr>, ?w3)"
    by (simp add: public_detail_def)
  note p1 = public_field_known [of w kind_catalog "det_id d"]
  note p2 = public_episodes_known [of ?w1 "det_episodes d"]
  note p3 = public_cards_known [of ?w2 "det_recommendations d"]
  have g3: "grows ?w2 ?w3" using p3 by simp
  with p2 have g2: "grows ?w1 ?w3" by (blast intro: grows_trans)
  with p1 have g1: "grows w ?w3" by (blast intro: grows_trans)
  show thesis
  proof (rule that [where i = "result ?i w" and es = "result ?es ?w1" and rs = "result ?rs ?w2"])
    show "grows w (after (public_detail s d) w)" using g1 run by simp
    show "known (after (public_detail s d) w) kind_catalog (result ?i w) (det_id d)"
      using p1 g2 known_mono by (simp add: run) blast
    show "list_all2 (\<lambda>a b. b\<lparr>ep_id := ep_id a, ep_catalog_id := ep_catalog_id a\<rparr> = a
        \<and> known (after (public_detail s d) w) kind_episode (ep_id b) (ep_id a)
        \<and> known (after (public_detail s d) w) kind_catalog (ep_catalog_id b) (ep_catalog_id a)) (det_episodes d) (result ?es ?w1)"
      unfolding run snd_conv using p2 by (auto elim!: list_all2_mono intro: known_mono [OF _ g3])
  qed (use p3 in \<open>simp_all add: run\<close>)
qed

end


definition ref_id_svc :: "bytes \<Rightarrow> unit alias_row_ext ref_db id_svc" where
  "ref_id_svc bs = \<lparr>is_aliases = ref_table, is_random = pass bs\<rparr>"

interpretation ref_ids: id_world "ref_id_svc bs" ref_rows_view for bs
  unfolding id_world_def id_world_axioms_def
  by (simp add: ref_id_svc_def ref_aliases.alias_table_axioms)

definition sample_detail :: anime_detail where
  "sample_detail =
     \<lparr>det_id = ''p:x'', det_title = ''X'', det_synopsis = [], det_cover = [], det_banner = [], det_genres = [],
      det_metadata = None, det_episodes = [], det_recommendations = [], det_provider = ''p''\<rparr>"


end
