(* ===== verification/Identity.thy ===== *)
theory Identity
  imports Store_Props
begin

text \<open>
  Anonymous clients, \<open>internal/service/identity/service.go\<close>: the token of the cookie leads
  to the client it was issued for; a missing, short or unknown token is replaced.
\<close>

record 'w identity_svc =
  iy_clients :: "('w, client_row) table"
  iy_random :: "('w, bytes) eff"

text \<open>\<open>randomToken\<close> on the 24 bytes it draws.\<close>

definition random_token :: "bytes \<Rightarrow> string" where
  "random_token bs = hex_bytes bs"

definition fresh_client :: "'w identity_svc \<Rightarrow> ('w, string + (client_row \<times> bool)) eff" where
  "fresh_client s = do { bs \<leftarrow> iy_random s; ensure_client (iy_clients s) (random_token bs) }"

definition ensure_identity :: "'w identity_svc \<Rightarrow> string \<Rightarrow> ('w, string + (client_row \<times> bool)) eff" where
  "ensure_identity s existing =
     (let token = trim_space existing
      in if token = [] \<or> length token < 16 then fresh_client s
         else do { found \<leftarrow> find_client (iy_clients s) token;
                   case found of
                     Inr client \<Rightarrow> pass (Inr (client, False))
                   | Inl _ \<Rightarrow> fresh_client s })"

lemma random_token_trim: "trim_space (random_token bs) = random_token bs"
proof (rule all_plain_trim_space)
  have "\<forall>c\<in>set ''0123456789abcdef''. plain_char c" by (simp add: plain_char_def)
  moreover have "set (random_token bs) \<subseteq> set ''0123456789abcdef''"
    unfolding random_token_def hex_bytes_def using hex_byte_set by (auto simp del: list.set)
  ultimately show "list_all plain_char (random_token bs)" unfolding list_all_iff by blast
qed

lemma random_token_length: "length (random_token bs) = 2 * length bs"
  by (simp add: random_token_def hex_bytes_length)

text \<open>The source of random bytes fills the buffer of 24 bytes and does not touch the table.\<close>

locale identity_world = client_table "iy_clients s" tv
  for s :: "'w identity_svc" and tv +
  assumes random_view: "tv (after (iy_random s) w) = tv w"
    and random_length: "length (result (iy_random s) w) = 24"
begin

definition issued :: "'w \<Rightarrow> client_row \<Rightarrow> bool" where
  "issued w c \<longleftrightarrow> row_of w (cl_token c) = Some c \<and> trim_space (cl_token c) = cl_token c \<and> 16 \<le> length (cl_token c)"

lemma fresh_issued:
  assumes "result (fresh_client s) w = Inr (c, b)"
  shows "issued (after (fresh_client s) w) c"
proof -
  let ?w = "after (iy_random s) w"
  have "result (ensure_client (iy_clients s) (random_token (result (iy_random s) w))) ?w = Inr (c, b)"
    using assms by (simp add: fresh_client_def)
  from ensure_client_row(1,2) [OF this] show ?thesis
    by (simp add: issued_def fresh_client_def random_token_trim random_token_length random_length)
qed

lemma identity_issued:
  assumes "result (ensure_identity s e) w = Inr (c, b)"
  shows "issued (after (ensure_identity s e) w) c"
proof -
  let ?t = "trim_space e"
  let ?f = "find_client (iy_clients s) ?t"
  show ?thesis
  proof (cases "?t = [] \<or> length ?t < 16")
    case True
    then show ?thesis using assms fresh_issued by (simp add: ensure_identity_def Let_def)
  next
    case False
    show ?thesis
    proof (cases "result ?f w")
      case (Inl x)
      then show ?thesis using assms False fresh_issued by (simp add: ensure_identity_def)
    next
      case (Inr d)
      then have d: "d = c" "\<not> b" using assms False by (simp_all add: ensure_identity_def)
      have r: "row_of w ?t = Some c" using first_row [OF Inr [unfolded find_client_def]] d by simp
      then have "cl_token c = ?t" using row_of_key by blast
      then show ?thesis using r Inr False
        by (simp add: ensure_identity_def issued_def find_client_def first_row_of)
    qed
  qed
qed

lemma identity_again:
  assumes "issued w c"
  shows "run_state (ensure_identity s (cl_token c)) w
      = (Inr (c, False), after (find_client (iy_clients s) (cl_token c)) w)
    \<or> (\<exists>e. result (find_client (iy_clients s) (cl_token c)) w = Inl (DbError e))"
proof (cases "result (find_client (iy_clients s) (cl_token c)) w")
  case (Inr d)
  then have "d = c" using first_row [OF Inr [unfolded find_client_def]] assms by (simp add: issued_def)
  then show ?thesis using Inr assms by (auto simp: ensure_identity_def issued_def Let_def)
next
  case (Inl x)
  then show ?thesis using first_none [of "cl_token c" w] assms
    by (cases x) (auto simp: issued_def find_client_def)
qed

lemma identity_found:
  assumes "result (ensure_identity s e) w = Inr (c, b)"
  defines "w' \<equiv> after (ensure_identity s e) w"
  shows "trim_space (cl_token c) = cl_token c" and "cl_token c \<noteq> []"
    and "result (find_client (iy_clients s) (cl_token c)) w' = Inr c
      \<or> (\<exists>err. result (find_client (iy_clients s) (cl_token c)) w' = Inl (DbError err))"
proof -
  have i: "issued w' c" unfolding w'_def by (rule identity_issued [OF assms(1)])
  then show "trim_space (cl_token c) = cl_token c" "cl_token c \<noteq> []" by (auto simp: issued_def)
  show "result (find_client (iy_clients s) (cl_token c)) w' = Inr c
      \<or> (\<exists>err. result (find_client (iy_clients s) (cl_token c)) w' = Inl (DbError err))"
  proof (cases "result (find_client (iy_clients s) (cl_token c)) w'")
    case (Inl x)
    then show ?thesis using first_none [of "cl_token c" w'] i
      by (cases x) (auto simp: issued_def find_client_def)
  next
    case (Inr d)
    then show ?thesis using first_row [OF Inr [unfolded find_client_def]] i by (simp add: issued_def)
  qed
qed

end

definition ref_identity_svc :: "unit client_row_ext ref_db identity_svc" where
  "ref_identity_svc = \<lparr>iy_clients = ref_table, iy_random = pass (replicate 24 7)\<rparr>"

interpretation ref_identity: identity_world ref_identity_svc ref_rows_view
  unfolding identity_world_def identity_world_axioms_def
  by (simp add: ref_identity_svc_def ref_clients.client_table_axioms)

text \<open>
  C9. A client keeps its identity: whatever cookie came with the first request, presenting
  the token issued for it yields the same client, unless the lookup fails in the database.
\<close>

theorem identity_stable:
  assumes "identity_world s tv"
    and "result (ensure_identity s e) w = Inr (c, b)"
  shows "result (ensure_identity s (cl_token c)) (after (ensure_identity s e) w) = Inr (c, False)
    \<or> (\<exists>err. result (find_client (iy_clients s) (cl_token c)) (after (ensure_identity s e) w) = Inl (DbError err))"
  using identity_world.identity_again [OF assms(1) identity_world.identity_issued [OF assms]] by auto

theorem identity_stable_witness:
  "\<exists>c. result (ensure_identity ref_identity_svc (cl_token c)) (after (ensure_identity ref_identity_svc '' '') empty_db)
     = Inr (c, False)"
proof -
  let ?s = ref_identity_svc
  let ?c = "stamped 1 [] (zero_client\<lparr>cl_token := random_token (replicate 24 7)\<rparr>)"
  have t: "trim_space '' '' = []" by code_simp
  have "result (ensure_identity ?s '' '') empty_db = Inr (?c, True)"
    by (simp add: ensure_identity_def t fresh_client_def ensure_client_def ref_identity_svc_def ref_table_def empty_db_def)
  moreover have "result (find_client (iy_clients ?s) x) w \<noteq> Inl (DbError err)" for x w err
    by (simp add: find_client_def ref_identity_svc_def ref_table_def split: option.split)
  ultimately show ?thesis using identity_stable [OF ref_identity.identity_world_axioms] by blast
qed

end
