(* ===== verification/Ref_Db.thy ===== *)
theory Ref_Db
  imports Store_Props Provider
begin

text \<open>
  A reference database: one reference table for each table of the schema, in one world.
  A table that lives in a component of the world behaves as a table of the world. With it
  comes a provider that knows details only.
\<close>

definition lift_eff :: "('w \<Rightarrow> 's) \<Rightarrow> ('s \<Rightarrow> 'w \<Rightarrow> 'w) \<Rightarrow> ('s, 'a) eff \<Rightarrow> ('w, 'a) eff" where
  "lift_eff get put m = State (\<lambda>w. (result m (get w), put (after m (get w)) w))"

lemma run_lift_eff [simp]:
  "run_state (lift_eff get put m) w = (result m (get w), put (after m (get w)) w)"
  by (simp add: lift_eff_def)

definition lift_table :: "('w \<Rightarrow> 's) \<Rightarrow> ('s \<Rightarrow> 'w \<Rightarrow> 'w) \<Rightarrow> ('s, 'r) table \<Rightarrow> ('w, 'r) table" where
  "lift_table get put tb =
     \<lparr>tb_first = (\<lambda>P. lift_eff get put (tb_first tb P)),
      tb_create = (\<lambda>r. lift_eff get put (tb_create tb r)),
      tb_save = (\<lambda>r. lift_eff get put (tb_save tb r)),
      tb_delete = (\<lambda>P. lift_eff get put (tb_delete tb P)),
      tb_find_by_updated_desc = (\<lambda>P. lift_eff get put (tb_find_by_updated_desc tb P))\<rparr>"

lemma gorm_lift:
  assumes "gorm_table tb tv" and "\<And>s w. get (put s w) = s"
  shows "gorm_table (lift_table get put tb) (\<lambda>w. tv (get w))"
proof (unfold_locales, goal_cases)
  case (9 r w)
  then show ?case using gorm_table.save_old [OF assms(1), of r "get w"] assms(2) by (simp add: lift_table_def)
qed (use gorm_table.ids [OF assms(1)] gorm_table.first_view [OF assms(1)] gorm_table.first_found [OF assms(1)]
       gorm_table.first_missing [OF assms(1)] gorm_table.create_ok [OF assms(1)] gorm_table.create_fail [OF assms(1)]
       gorm_table.save_new [OF assms(1)] gorm_table.save_fail [OF assms(1)] gorm_table.delete_ok [OF assms(1)]
       gorm_table.delete_fail [OF assms(1)] gorm_table.find_ok [OF assms(1)] gorm_table.find_view [OF assms(1)]
     in \<open>simp_all add: lift_table_def assms(2)\<close>)

record ref_database =
  rd_clients :: "unit client_row_ext ref_db"
  rd_watch :: "unit watch_row_ext ref_db"
  rd_history :: "unit history_row_ext ref_db"
  rd_aliases :: "unit alias_row_ext ref_db"

definition empty_database :: ref_database where
  "empty_database = \<lparr>rd_clients = empty_db, rd_watch = empty_db, rd_history = empty_db, rd_aliases = empty_db\<rparr>"

definition ref_watch_table :: "(ref_database, watch_row) table" where
  "ref_watch_table = lift_table rd_watch (\<lambda>s w. w\<lparr>rd_watch := s\<rparr>) ref_table"

definition ref_history_table :: "(ref_database, history_row) table" where
  "ref_history_table = lift_table rd_history (\<lambda>s w. w\<lparr>rd_history := s\<rparr>) ref_table"

definition ref_client_table :: "(ref_database, client_row) table" where
  "ref_client_table = lift_table rd_clients (\<lambda>s w. w\<lparr>rd_clients := s\<rparr>) ref_table"

definition ref_alias_table :: "(ref_database, alias_row) table" where
  "ref_alias_table = lift_table rd_aliases (\<lambda>s w. w\<lparr>rd_aliases := s\<rparr>) ref_table"

interpretation db_watch: watch_table ref_watch_table "\<lambda>w. ref_rows_view (rd_watch w)"
  unfolding watch_table_def ref_watch_table_def by (rule gorm_lift) (simp_all add: ref_table.gorm_table_axioms)

interpretation db_history: history_table ref_history_table "\<lambda>w. ref_rows_view (rd_history w)"
  unfolding history_table_def ref_history_table_def by (rule gorm_lift) (simp_all add: ref_table.gorm_table_axioms)

interpretation db_clients: client_table ref_client_table "\<lambda>w. ref_rows_view (rd_clients w)"
  unfolding client_table_def ref_client_table_def by (rule gorm_lift) (simp_all add: ref_table.gorm_table_axioms)

interpretation db_aliases: alias_table ref_alias_table "\<lambda>w. ref_rows_view (rd_aliases w)"
  unfolding alias_table_def ref_alias_table_def by (rule gorm_lift) (simp_all add: ref_table.gorm_table_axioms)

definition detail_provider :: "(string \<Rightarrow> string + anime_detail) \<Rightarrow> 'w provider" where
  "detail_provider f =
     \<lparr>pr_name = ''ref'', pr_home = pass (Inl ''offline''), pr_search = (\<lambda>_. pass (Inl ''offline'')),
      pr_schedule = pass (Inl ''offline''), pr_schedule_page = (\<lambda>_ _. pass (Inl ''offline'')),
      pr_index = pass (Inl ''offline''), pr_property_list = (\<lambda>_. pass (Inl ''offline'')),
      pr_property_catalog = (\<lambda>_ _ _ _. pass (Inl ''offline'')), pr_quick_catalog = (\<lambda>_ _ _. pass (Inl ''offline'')),
      pr_seasonal_popular = pass (Inl ''offline''), pr_catalog = (\<lambda>i. pass (f i)),
      pr_episodes = (\<lambda>_. pass (Inl ''offline'')), pr_stream_candidates = (\<lambda>_. pass (Inl ''offline''))\<rparr>"

end
