(* ===== verification/User_Library.thy ===== *)
theory User_Library
  imports Ref_Db
begin

text \<open>
  Watchlists, histories and the list of what to continue watching,
  \<open>internal/service/library/service.go\<close>.
\<close>

section \<open>The service\<close>

record 'w library_svc =
  ls_watch :: "('w, watch_row) table"
  ls_history :: "('w, history_row) table"
  ls_provider :: "'w provider"

definition watch_item :: "watch_row \<Rightarrow> watchlist_item" where
  "watch_item row =
     \<lparr>wi_catalog_id = wr_catalog row, wi_title = wr_title row, wi_cover = wr_cover row,
      wi_provider = wr_provider row, wi_updated_at = row_updated row\<rparr>"

definition library_list_watchlist :: "'w library_svc \<Rightarrow> int \<Rightarrow> ('w, string + watchlist_item list) eff" where
  "library_list_watchlist s client =
     do { rows \<leftarrow> list_watchlist (ls_watch s) client;
          pass (case rows of Inl err \<Rightarrow> Inl err | Inr rs \<Rightarrow> Inr (map watch_item rs)) }"

definition library_save_watchlist :: "'w library_svc \<Rightarrow> int \<Rightarrow> string \<Rightarrow> ('w, string option) eff" where
  "library_save_watchlist s client catalog =
     do { detail \<leftarrow> pr_catalog (ls_provider s) catalog;
          case detail of
            Inl err \<Rightarrow> pass (Some err)
          | Inr d \<Rightarrow> upsert_watchlist (ls_watch s) client catalog (det_title d) (det_cover d) (det_provider d) }"

definition library_delete_watchlist :: "'w library_svc \<Rightarrow> int \<Rightarrow> string \<Rightarrow> ('w, string option) eff" where
  "library_delete_watchlist s client catalog = delete_watchlist (ls_watch s) client catalog"

definition hist_item :: "history_row \<Rightarrow> history_item" where
  "hist_item row =
     \<lparr>hi_catalog_id = hw_catalog row, hi_episode_id = hw_episode row, hi_position = hw_position row,
      hi_updated_at = row_updated row\<rparr>"

definition library_list_history :: "'w library_svc \<Rightarrow> int \<Rightarrow> ('w, string + history_item list) eff" where
  "library_list_history s client =
     do { rows \<leftarrow> list_history (ls_history s) client;
          pass (case rows of Inl err \<Rightarrow> Inl err | Inr rs \<Rightarrow> Inr (map hist_item rs)) }"

definition library_save_history ::
  "'w library_svc \<Rightarrow> int \<Rightarrow> string \<Rightarrow> string \<Rightarrow> int \<Rightarrow> string \<Rightarrow> string \<Rightarrow> string \<Rightarrow> ('w, string option) eff" where
  "library_save_history s client catalog ep position title cover provider =
     upsert_history (ls_history s) client catalog ep position title cover provider"

definition library_delete_history :: "'w library_svc \<Rightarrow> int \<Rightarrow> string \<Rightarrow> ('w, string option) eff" where
  "library_delete_history s client catalog = delete_history (ls_history s) client catalog"

subsection \<open>Continue watching\<close>

text \<open>The map from catalog identifiers to rows of the watchlist: the last row of an identifier wins.\<close>

definition watch_lookup :: "watch_row list \<Rightarrow> string \<rightharpoonup> watch_row" where
  "watch_lookup watchlist = fold (\<lambda>r m. m(wr_catalog r \<mapsto> r)) watchlist Map.empty"

definition blank :: "string \<Rightarrow> bool" where
  "blank s \<longleftrightarrow> trim_space s = []"

fun collect_missing_loop :: "(string \<rightharpoonup> watch_row) \<Rightarrow> string set \<Rightarrow> history_row list \<Rightarrow> string list" where
  "collect_missing_loop lookup seen [] = []"
| "collect_missing_loop lookup seen (row # rows) =
     (if hw_catalog row \<in> seen then collect_missing_loop lookup seen rows
      else if \<not> blank (hw_title row) \<and> \<not> blank (hw_cover row)
        then collect_missing_loop lookup (insert (hw_catalog row) seen) rows
      else if (case lookup (hw_catalog row) of None \<Rightarrow> False
               | Some meta \<Rightarrow> \<not> blank (wr_title meta) \<and> \<not> blank (wr_cover meta))
        then collect_missing_loop lookup (insert (hw_catalog row) seen) rows
      else hw_catalog row # collect_missing_loop lookup (insert (hw_catalog row) seen) rows)"

definition collect_missing :: "history_row list \<Rightarrow> watch_row list \<Rightarrow> string list" where
  "collect_missing history watchlist = collect_missing_loop (watch_lookup watchlist) {} history"

definition continue_of :: "(string \<rightharpoonup> watch_row) \<Rightarrow> (string \<rightharpoonup> anime_detail) \<Rightarrow> history_row \<Rightarrow> continue_item" where
  "continue_of lookup fallback_meta row =
     (let meta = (case lookup (hw_catalog row) of Some m \<Rightarrow> m | None \<Rightarrow> zero_watch);
          title = trim_space (hw_title row);
          cover = trim_space (hw_cover row);
          title = (if title = [] then trim_space (wr_title meta) else title);
          cover = (if cover = [] then trim_space (wr_cover meta) else cover);
          (title, cover) =
            (case fallback_meta (hw_catalog row) of
               None \<Rightarrow> (title, cover)
             | Some f \<Rightarrow> (if title = [] then trim_space (det_title f) else title,
                          if cover = [] then trim_space (det_cover f) else cover))
      in \<lparr>ci_catalog_id = hw_catalog row, ci_episode_id = hw_episode row, ci_title = title,
          ci_cover = cover, ci_position = hw_position row, ci_updated_at = row_updated row\<rparr>)"

definition build_continue ::
  "history_row list \<Rightarrow> watch_row list \<Rightarrow> (string \<rightharpoonup> anime_detail) \<Rightarrow> continue_item list" where
  "build_continue history watchlist fallback_meta =
     map (continue_of (watch_lookup watchlist) fallback_meta) history"

fun fetch_fallback ::
  "'w provider \<Rightarrow> string list \<Rightarrow> (string \<rightharpoonup> anime_detail) \<Rightarrow> ('w, string \<rightharpoonup> anime_detail) eff" where
  "fetch_fallback p [] m = pass m"
| "fetch_fallback p (i # is) m =
     do { detail \<leftarrow> pr_catalog p i;
          fetch_fallback p is (case detail of Inl _ \<Rightarrow> m | Inr d \<Rightarrow> m(i \<mapsto> d)) }"

definition library_continue :: "'w library_svc \<Rightarrow> int \<Rightarrow> ('w, string + continue_item list) eff" where
  "library_continue s client =
     do { history \<leftarrow> list_history (ls_history s) client;
          case history of
            Inl err \<Rightarrow> pass (Inl err)
          | Inr hs \<Rightarrow>
              do { watchlist \<leftarrow> list_watchlist (ls_watch s) client;
                   case watchlist of
                     Inl err \<Rightarrow> pass (Inl err)
                   | Inr ws \<Rightarrow>
                       do { m \<leftarrow> fetch_fallback (ls_provider s) (collect_missing hs ws) Map.empty;
                            pass (Inr (build_continue hs ws m)) } } }"

section \<open>What is shown\<close>

lemma watch_lookup_eq: "watch_lookup ws k = List.find (\<lambda>r. wr_catalog r = k) (rev ws)"
  unfolding watch_lookup_def by (induction ws rule: rev_induct) auto

text \<open>A row whose title or cover neither the history nor the watchlist supplies in full.\<close>

definition needs_meta :: "(string \<rightharpoonup> watch_row) \<Rightarrow> history_row \<Rightarrow> bool" where
  "needs_meta lookup row \<longleftrightarrow> (blank (hw_title row) \<or> blank (hw_cover row))
     \<and> (case lookup (hw_catalog row) of None \<Rightarrow> True
        | Some meta \<Rightarrow> blank (wr_title meta) \<or> blank (wr_cover meta))"

lemma collect_missing_loop_set:
  "set (collect_missing_loop lookup seen rows) =
     {k. k \<notin> seen \<and> (\<exists>row. List.find (\<lambda>r. hw_catalog r = k) rows = Some row \<and> needs_meta lookup row)}"
proof (induction rows arbitrary: seen)
  case (Cons row rows)
  have step: "collect_missing_loop lookup seen (row # rows) =
      (if hw_catalog row \<in> seen then collect_missing_loop lookup seen rows
       else (if needs_meta lookup row then [hw_catalog row] else [])
            @ collect_missing_loop lookup (insert (hw_catalog row) seen) rows)"
    by (auto simp: needs_meta_def split: option.splits)
  show ?case unfolding step by (auto simp: Cons)
qed simp

lemma collect_missing_loop_distinct: "distinct (collect_missing_loop lookup seen rows)"
proof (induction rows arbitrary: seen)
  case (Cons row rows)
  then show ?case by (auto simp: collect_missing_loop_set split: option.splits)
qed simp

fun first_nonblank :: "string list \<Rightarrow> string" where
  "first_nonblank [] = []"
| "first_nonblank (s # ss) = (if blank s then first_nonblank ss else trim_space s)"

lemma first_nonblank_Nil [simp]: "first_nonblank ss = [] \<longleftrightarrow> list_all blank ss"
  by (induction ss) (auto simp: blank_def)

definition merged :: "(string \<rightharpoonup> watch_row) \<Rightarrow> (string \<rightharpoonup> anime_detail) \<Rightarrow> history_row \<Rightarrow> continue_item" where
  "merged lookup m row =
     (let from_watch = (\<lambda>f. case lookup (hw_catalog row) of None \<Rightarrow> [] | Some r \<Rightarrow> [f r]);
          from_provider = (\<lambda>f. case m (hw_catalog row) of None \<Rightarrow> [] | Some d \<Rightarrow> [f d])
      in \<lparr>ci_catalog_id = hw_catalog row, ci_episode_id = hw_episode row,
          ci_title = first_nonblank (hw_title row # from_watch wr_title @ from_provider det_title),
          ci_cover = first_nonblank (hw_cover row # from_watch wr_cover @ from_provider det_cover),
          ci_position = hw_position row, ci_updated_at = row_updated row\<rparr>)"

lemma continue_of_merged: "continue_of lookup m = merged lookup m"
  unfolding fun_eq_iff
  by (auto simp: continue_of_def merged_def blank_def zero_watch_def Let_def split: option.split)

definition full_detail :: "anime_detail \<Rightarrow> bool" where
  "full_detail d \<longleftrightarrow> \<not> blank (det_title d) \<and> \<not> blank (det_cover d)"

definition full_item :: "continue_item \<Rightarrow> bool" where
  "full_item i \<longleftrightarrow> ci_title i \<noteq> [] \<and> ci_cover i \<noteq> []"

lemma merged_full:
  assumes "needs_meta lookup row \<longrightarrow> (\<exists>d. m (hw_catalog row) = Some d \<and> full_detail d)"
  shows "full_item (merged lookup m row)"
  using assms
  by (auto simp: full_item_def merged_def needs_meta_def full_detail_def Let_def
      simp del: first_nonblank.simps split: option.splits)

lemma fetch_fallback_full:
  assumes "\<And>i w. \<exists>d. result (pr_catalog p i) w = Inr d \<and> full_detail d"
    and "i \<in> set is \<or> (\<exists>d. m i = Some d \<and> full_detail d)"
  shows "\<exists>d. result (fetch_fallback p is m) w i = Some d \<and> full_detail d"
  using assms(2)
proof (induction "is" arbitrary: m w)
  case (Cons k ks)
  obtain d where d: "result (pr_catalog p k) w = Inr d" "full_detail d" using assms(1) by blast
  have "i \<in> set ks \<or> (\<exists>e. (m(k \<mapsto> d)) i = Some e \<and> full_detail e)" using Cons.prems d(2) by auto
  then obtain m' where m': "m' = m(k \<mapsto> d)" "i \<in> set ks \<or> (\<exists>e. m' i = Some e \<and> full_detail e)" by blast
  from Cons.IH [of m' "after (pr_catalog p k) w", OF m'(2)] show ?case using d(1) by (simp add: m'(1) [symmetric])
qed simp

context history_table
begin

lemma list_history_rows:
  assumes "result (list_history tb c) w = Inr hs" and "distinct (map history_key (tv w))"
  shows "distinct (map hw_catalog hs)"
proof -
  let ?rs = "filter (\<lambda>r. hw_client r = c) (tv w)"
  have m: "mset hs = mset ?rs" using assms(1) find_ok unfolding list_history_def by blast
  have "distinct (map history_key ?rs)" using assms(2) by (rule distinct_map_filter)
  then have "distinct (map history_key hs)"
    using m by (metis mset_map mset_eq_imp_distinct_iff)
  moreover have "hw_client r = c" if "r \<in> set hs" for r
    using that mset_eq_setD [OF m] by auto
  ultimately show ?thesis by (auto simp: distinct_map inj_on_def history_key_def)
qed

end


definition ref_library_svc :: "ref_database library_svc" where
  "ref_library_svc =
     \<lparr>ls_watch = ref_watch_table, ls_history = ref_history_table,
      ls_provider = detail_provider (\<lambda>i. Inr
        \<lparr>det_id = i, det_title = ''Naruto'', det_synopsis = [], det_cover = ''c.jpg'', det_banner = [], det_genres = [],
         det_metadata = None, det_episodes = [], det_recommendations = [], det_provider = ''ref''\<rparr>)\<rparr>"


end
