(* ===== verification/Proxies.thy ===== *)
theory Proxies
  imports World
begin

text \<open>
  The two outgoing proxies, \<open>internal/mediaproxy/proxy.go\<close> and
  \<open>internal/imageproxy/proxy.go\<close>: which hosts may be asked, with which headers, and what
  counts as an answer. The HTTP client is a parameter.
\<close>

record http_request =
  hq_url :: string
  hq_headers :: "string \<rightharpoonup> string"

text \<open>\<open>HasSuffix(host, "." + allowed)\<close> or equality.\<close>

definition host_matches :: "string \<Rightarrow> string \<Rightarrow> bool" where
  "host_matches host allowed \<longleftrightarrow> host = allowed \<or> suffix (CHR ''.'' # allowed) host"

text \<open>The lower-case host of a URL with a scheme and a host.\<close>

definition url_host :: "string \<Rightarrow> string option" where
  "url_host raw =
     (case url_parse (trim_space raw) of
        None \<Rightarrow> None
      | Some u \<Rightarrow> if u_scheme u = [] \<or> u_host u = [] then None else Some (to_lower (hostname u)))"

section \<open>Media\<close>

definition media_hosts :: "string list" where
  "media_hosts = [''pixeldrain.com'', ''kitasan.my.id'', ''amiya.my.id'', ''anisphia.my.id'', ''r2.cloudflarestorage.com'']"

definition media_allowed :: "string \<Rightarrow> bool" where
  "media_allowed raw =
     (case url_host raw of
        None \<Rightarrow> False
      | Some host \<Rightarrow> list_ex (host_matches host) media_hosts \<or> suffix ''.my.id'' host)"

definition media_referer :: "string \<Rightarrow> string" where
  "media_referer raw =
     (case url_host raw of
        None \<Rightarrow> ''https://pixeldrain.com/''
      | Some host \<Rightarrow>
          if suffix ''.my.id'' host \<or> suffix ''.r2.cloudflarestorage.com'' host
          then ''https://v17.kuramanime.ink/'' else ''https://pixeldrain.com/'')"

definition media_request :: "string \<Rightarrow> string \<Rightarrow> http_request" where
  "media_request raw range_header =
     (let h = Map.empty(''User-Agent'' \<mapsto> ''Mozilla/5.0'', ''Accept'' \<mapsto> ''*/*'', ''Referer'' \<mapsto> media_referer raw)
      in \<lparr>hq_url = raw,
          hq_headers = (if trim_space range_header \<noteq> [] then h(''Range'' \<mapsto> range_header) else h)\<rparr>)"

text \<open>\<open>NewRequest\<close> parses the URL again, without trimming it.\<close>

definition proxy_fetch ::
  "(http_request \<Rightarrow> ('w, string + http_response) eff) \<Rightarrow> string \<Rightarrow> string \<Rightarrow> ('w, string + http_response) eff" where
  "proxy_fetch client raw range_header =
     (if \<not> media_allowed raw then pass (Inl ''host not allowed'')
      else (case url_parse raw of
              None \<Rightarrow> pass (Inl ''invalid url'')
            | Some _ \<Rightarrow>
                do { resp \<leftarrow> client (media_request raw range_header);
                     pass (case resp of
                             Inl err \<Rightarrow> Inl err
                           | Inr r \<Rightarrow> if hr_status r \<ge> 400 then Inl (''media status '' @ itoa (hr_status r)) else Inr r) }))"

section \<open>Images\<close>

definition image_hosts :: "string list" where
  "image_hosts = [''otakudesu.blog'', ''otakudesu.best'', ''otakudesu.cloud'', ''kuramanime.ink'', ''kuramanime.work'',
     ''kuramanime.tel'', ''i0.wp.com'', ''nyomo.my.id'', ''pixeldrain.com'', ''kitasan.my.id'', ''myanimelist.net'']"

definition image_allowed :: "string \<Rightarrow> bool" where
  "image_allowed raw =
     (case url_host raw of None \<Rightarrow> False | Some host \<Rightarrow> list_ex (host_matches host) image_hosts)"

definition image_referer :: "string \<Rightarrow> string" where
  "image_referer raw =
     (case url_host raw of
        None \<Rightarrow> ''https://otakudesu.best/''
      | Some host \<Rightarrow>
          if contains_str host ''kuramanime'' then ''https://v17.kuramanime.ink/''
          else if contains_str host ''myanimelist'' then ''https://myanimelist.net/''
          else ''https://otakudesu.best/'')"

definition image_request :: "string \<Rightarrow> http_request" where
  "image_request raw =
     \<lparr>hq_url = raw,
      hq_headers = Map.empty(''User-Agent'' \<mapsto> ''Mozilla/5.0'',
        ''Accept'' \<mapsto> ''image/avif,image/webp,image/apng,image/*,*/*;q=0.8'', ''Referer'' \<mapsto> image_referer raw)\<rparr>"

definition image_fetch ::
  "(http_request \<Rightarrow> ('w, string + http_response) eff) \<Rightarrow> string \<Rightarrow> ('w, string + (bytes \<times> string)) eff" where
  "image_fetch client raw =
     (if \<not> image_allowed raw then pass (Inl ''host not allowed'')
      else (case url_parse raw of
              None \<Rightarrow> pass (Inl ''invalid url'')
            | Some _ \<Rightarrow>
                do { resp \<leftarrow> client (image_request raw);
                     pass (case resp of
                             Inl err \<Rightarrow> Inl err
                           | Inr r \<Rightarrow>
                               if hr_status r \<ge> 400 then Inl (''image status '' @ itoa (hr_status r))
                               else (case hr_body r of
                                       Inl err \<Rightarrow> Inl err
                                     | Inr body \<Rightarrow>
                                         let content_type = header_get (hr_headers r) ''Content-Type''
                                         in Inr (body, if content_type = [] then ''image/jpeg'' else content_type))) }))"

section \<open>What is shown\<close>

text \<open>A host matches when it is the allowed domain or has it as its last labels.\<close>

lemma host_matches_split: "host_matches host allowed \<longleftrightarrow> (\<exists>sub. host = sub @ allowed \<and> (sub = [] \<or> last sub = CHR ''.''))"
proof
  assume "host_matches host allowed"
  then consider "host = allowed" | p where "host = p @ CHR ''.'' # allowed"
    by (auto simp: host_matches_def suffix_def)
  then show "\<exists>sub. host = sub @ allowed \<and> (sub = [] \<or> last sub = CHR ''.'')"
  proof cases
    case 1
    then show ?thesis by (intro exI [of _ "[]"]) simp
  next
    case (2 p)
    then show ?thesis by (intro exI [of _ "p @ ''.''"]) simp
  qed
next
  assume "\<exists>sub. host = sub @ allowed \<and> (sub = [] \<or> last sub = CHR ''.'')"
  then obtain sub where s: "host = sub @ allowed" "sub = [] \<or> last sub = CHR ''.''" by blast
  show "host_matches host allowed"
  proof (cases sub rule: rev_cases)
    case Nil
    with s show ?thesis by (simp add: host_matches_def)
  next
    case (snoc p c)
    with s show ?thesis by (simp add: host_matches_def suffix_def)
  qed
qed

lemma proxy_fetch_allowed:
  "run_state (proxy_fetch client raw hdr) w =
     (if media_allowed raw \<and> url_parse raw \<noteq> None then run_state (proxy_fetch client raw hdr) w
      else (result (proxy_fetch client raw hdr) w, w))"
  by (auto simp: proxy_fetch_def split: option.split)

lemma proxy_fetch_sound:
  "result (proxy_fetch client raw hdr) w = Inr r \<Longrightarrow>
     media_allowed raw \<and> result (client (media_request raw hdr)) w = Inr r \<and> hr_status r < 400"
  by (auto simp: proxy_fetch_def split: if_splits option.splits sum.splits)

end
