(* ===== verification/Media_Fetch.thy ===== *)
theory Media_Fetch
  imports Mem_Cache Proxies
begin

text \<open>
  The media fetcher, \<open>internal/httpserver/media_fetch.go\<close>: small explicit byte ranges
  are fetched once, kept in memory for a few seconds and answered from there; everything
  else is passed through. \<open>singleflight.Group.Do\<close>, which lets concurrent callers of one
  key share a flight, is not part of the repository and is a parameter.
\<close>

section \<open>Ranges\<close>

definition explicit_range :: "string \<Rightarrow> (int \<times> int) option" where
  "explicit_range header =
     (let h = trim_space header
      in if \<not> prefix ''bytes='' (to_lower h) then None
         else (case split_n2 CHR ''-'' (trim_space (hd (split_n2 CHR '','' (trim_space (drop 6 h))))) of
                 [b0, b1] \<Rightarrow>
                   if trim_space b0 = [] \<or> trim_space b1 = [] then None
                   else (case parse_int64 (trim_space b0) of
                           Inl _ \<Rightarrow> None
                         | Inr start \<Rightarrow>
                             (case parse_int64 (trim_space b1) of
                                Inl _ \<Rightarrow> None
                              | Inr end \<Rightarrow> Some (start, end)))
               | _ \<Rightarrow> None))"

definition coalescing_range_key :: "string \<Rightarrow> string \<Rightarrow> int \<Rightarrow> string option" where
  "coalescing_range_key raw_url header max_bytes =
     (case explicit_range header of
        None \<Rightarrow> None
      | Some (start, end) \<Rightarrow>
          if start < 0 \<or> end < start then None
          else if i64 (i64 (end - start) + 1) > max_bytes then None
          else Some (''media-buffer:'' @ raw_url @ ''|'' @ trim_space header))"

definition is_startup_range :: "string \<Rightarrow> bool" where
  "is_startup_range header =
     (let h = trim_space (to_lower header)
      in if h = [] then True
         else if \<not> prefix ''bytes='' h then False
         else (case split_n2 CHR ''-'' (trim_space (hd (split_n2 CHR '','' (trim_space (drop 6 h))))) of
                 [b0, b1] \<Rightarrow> trim_space b0 = ''0''
               | _ \<Rightarrow> False))"

section \<open>Buffering\<close>

datatype fetch_error = NotBufferable | FetchFailed string

definition read_buffered_response :: "http_response \<Rightarrow> int \<Rightarrow> fetch_error + buffered" where
  "read_buffered_response resp max_bytes =
     (if hr_status resp \<noteq> 206 \<and> hr_status resp \<noteq> 200 then Inl NotBufferable
      else if hr_content_length resp \<le> 0 \<or> hr_content_length resp > max_bytes then Inl NotBufferable
      else (case hr_body resp of
              Inl err \<Rightarrow> Inl (FetchFailed err)
            | Inr b \<Rightarrow>
                let body = take (nat (max_bytes + 1)) b
                in if int (length body) > max_bytes then Inl NotBufferable
                   else Inr \<lparr>bf_status = hr_status resp, bf_headers = hr_headers resp, bf_body = body\<rparr>))"

section \<open>The fetcher\<close>

record 'w media_fetcher =
  mf_cache :: "'w ttl_ops"
  mf_do :: "string \<Rightarrow> ('w, fetch_error + buffered) eff \<Rightarrow> ('w, fetch_error + buffered) eff"
  mf_fetch :: "string \<Rightarrow> string \<Rightarrow> ('w, string + http_response) eff"
  mf_clock :: "('w, time) eff"
  mf_ttl :: duration
  mf_max :: int
  mf_slow :: duration

definition cached_buffered :: "'w media_fetcher \<Rightarrow> string \<Rightarrow> ('w, buffered option) eff" where
  "cached_buffered f key =
     do { raw \<leftarrow> cache_get (mf_cache f) key;
          pass (case raw of Some (CBuffered b) \<Rightarrow> Some b | _ \<Rightarrow> None) }"

definition flight :: "'w media_fetcher \<Rightarrow> string \<Rightarrow> string \<Rightarrow> string \<Rightarrow> ('w, fetch_error + buffered) eff" where
  "flight f key raw_url header =
     do { cached \<leftarrow> cached_buffered f key;
          case cached of
            Some b \<Rightarrow> pass (Inr b)
          | None \<Rightarrow>
              do { resp \<leftarrow> mf_fetch f raw_url header;
                   case resp of
                     Inl err \<Rightarrow> pass (Inl (FetchFailed err))
                   | Inr r \<Rightarrow>
                       (case read_buffered_response r (mf_max f) of
                          Inl err \<Rightarrow> pass (Inl err)
                        | Inr b \<Rightarrow> do { cache_set (mf_cache f) key (CBuffered b) (mf_ttl f); pass (Inr b) }) } }"

text \<open>The answer is a buffered response or one still to be streamed, and how long it took.\<close>

type_synonym fetched = "(string + (buffered + http_response)) \<times> duration"

definition since :: "'w media_fetcher \<Rightarrow> time \<Rightarrow> string + (buffered + http_response) \<Rightarrow> ('w, fetched) eff" where
  "since f started answer = do { now \<leftarrow> mf_clock f; pass (answer, time_sub now started) }"

definition direct :: "'w media_fetcher \<Rightarrow> time \<Rightarrow> string \<Rightarrow> string \<Rightarrow> ('w, fetched) eff" where
  "direct f started raw_url header =
     do { resp \<leftarrow> mf_fetch f raw_url header;
          since f started (case resp of Inl err \<Rightarrow> Inl err | Inr r \<Rightarrow> Inr (Inr r)) }"

definition fetch_media :: "'w media_fetcher \<Rightarrow> string \<Rightarrow> string \<Rightarrow> ('w, fetched) eff" where
  "fetch_media f raw_url header =
     do { started \<leftarrow> mf_clock f;
          case coalescing_range_key raw_url header (mf_max f) of
            None \<Rightarrow> direct f started raw_url header
          | Some key \<Rightarrow>
              do { cached \<leftarrow> cached_buffered f key;
                   case cached of
                     Some b \<Rightarrow> since f started (Inr (Inl b))
                   | None \<Rightarrow>
                       do { value \<leftarrow> mf_do f key (flight f key raw_url header);
                            case value of
                              Inr b \<Rightarrow> since f started (Inr (Inl b))
                            | Inl (FetchFailed err) \<Rightarrow> since f started (Inl err)
                            | Inl NotBufferable \<Rightarrow> direct f started raw_url header } } }"

definition should_refresh_after_fetch :: "'w media_fetcher \<Rightarrow> string \<Rightarrow> duration \<Rightarrow> bool" where
  "should_refresh_after_fetch f header d \<longleftrightarrow> is_startup_range header \<and> d \<ge> mf_slow f"

section \<open>What is shown\<close>

lemma explicit_range_range: "explicit_range h = Some (a, b) \<Longrightarrow> in_int64 a \<and> in_int64 b"
  by (auto simp: explicit_range_def Let_def parse_int64_range split: if_splits list.splits sum.splits
      dest: parse_int64_range)

text \<open>
  The size guard of the coalescing key lets through exactly the explicit ranges of at
  most the buffered size, and one more: from 0 to the largest 64-bit number, whose length
  overflows to a negative one.
\<close>

theorem coalescing_guard:
  assumes "explicit_range header = Some (start, end)" and "0 \<le> max_bytes" "max_bytes < max_int64"
  shows "coalescing_range_key raw_url header max_bytes \<noteq> None
    \<longleftrightarrow> 0 \<le> start \<and> start \<le> end \<and> (end - start + 1 \<le> max_bytes \<or> start = 0 \<and> end = max_int64)"
proof (cases "0 \<le> start \<and> start \<le> end")
  case True
  then have r: "in_int64 start" "in_int64 end" "i64 (end - start) = end - start"
    using explicit_range_range [OF assms(1)] by (auto simp: max_int64_def min_int64_def intro!: i64_small)
  show ?thesis
  proof (cases "start = 0 \<and> end = max_int64")
    case True
    then have "i64 (i64 (end - start) + 1) = min_int64" using r by (simp add: max_int64_def min_int64_def i64_def)
    then show ?thesis using True assms(1,2) by (simp add: coalescing_range_key_def min_int64_def max_int64_def)
  next
    case False
    then have "i64 (end - start + 1) = end - start + 1"
      using True r by (intro i64_small) (auto simp: max_int64_def)
    then show ?thesis using True False r(3) assms(1) by (auto simp: coalescing_range_key_def)
  qed
next
  case False
  then show ?thesis using assms(1) by (auto simp: coalescing_range_key_def)
qed

theorem coalescing_guard_witness:
  "coalescing_range_key ''u'' ''bytes=0-9223372036854775807'' (2 * 1024 * 1024) \<noteq> None
   \<and> coalescing_range_key ''u'' ''bytes=0-9223372036854775806'' (2 * 1024 * 1024) = None"
proof -
  have e: "explicit_range ''bytes=0-9223372036854775807'' = Some (0, 9223372036854775807)"
    "explicit_range ''bytes=0-9223372036854775806'' = Some (0, 9223372036854775806)" by code_simp+
  show ?thesis
    using coalescing_guard [OF e(1), of "2 * 1024 * 1024" "''u''"] coalescing_guard [OF e(2), of "2 * 1024 * 1024" "''u''"]
    by (simp add: max_int64_def)
qed

lemma read_buffered_sound:
  assumes "read_buffered_response r n = Inr b"
  shows "bf_status b = hr_status r \<and> bf_headers b = hr_headers r \<and> hr_body r = Inr (bf_body b)
    \<and> int (length (bf_body b)) \<le> n \<and> hr_status r \<in> {200, 206}"
proof -
  obtain body where body: "hr_body r = Inr body" "0 < n"
    "b = \<lparr>bf_status = hr_status r, bf_headers = hr_headers r, bf_body = take (nat (n + 1)) body\<rparr>"
    "int (length (take (nat (n + 1)) body)) \<le> n" "hr_status r \<in> {200, 206}"
    using assms by (auto simp: read_buffered_response_def Let_def split: if_splits sum.splits)
  from body(2,4) have "int (length body) \<le> n" by (cases "length body \<le> nat (n + 1)") auto
  with body show ?thesis by auto
qed

text \<open>
  At every instant the cache is a map; reading the clock and fetching do not touch it, and
  without concurrent callers a flight is just run.
\<close>

locale fetch_world = ttl_store "mf_cache f" view
  for f :: "'w media_fetcher" and view :: "'w \<Rightarrow> string \<rightharpoonup> cached" +
  assumes do_run: "run_state (mf_do f key m) w = run_state m w"
    and clock_view: "view (after (mf_clock f) w) = view w"
    and fetch_view: "view (after (mf_fetch f u h) w) = view w"
    and ttl_pos: "0 \<le> mf_ttl f"
begin

lemma cached_buffered_eq:
  "result (cached_buffered f key) w = (case view w key of Some (CBuffered b) \<Rightarrow> Some b | _ \<Rightarrow> None)"
  "view (after (cached_buffered f key) w) = view w"
  by (simp_all add: cached_buffered_def get_result get_view)

lemma flight_Inr:
  assumes "result (flight f key u h) w = Inr b"
  shows "view (after (flight f key u h) w) key = Some (CBuffered b)"
    and "view w key = Some (CBuffered b)
      \<or> (\<exists>w' r. result (mf_fetch f u h) w' = Inr r \<and> read_buffered_response r (mf_max f) = Inr b)"
proof -
  let ?c = "result (cached_buffered f key) w"
  let ?w1 = "after (cached_buffered f key) w"
  have c: "view w key = Some (CBuffered x)" if "?c = Some x" for x
    using that by (auto simp: cached_buffered_eq split: option.splits cached.splits)
  show "view (after (flight f key u h) w) key = Some (CBuffered b)"
  proof (cases ?c)
    case (Some x)
    then show ?thesis using assms c [OF Some] by (simp add: flight_def cached_buffered_eq)
  next
    case None
    then show ?thesis using assms
      by (auto simp: flight_def cache_set_def set_view ttl_pos split: sum.splits)
  qed
  show "view w key = Some (CBuffered b)
      \<or> (\<exists>w' r. result (mf_fetch f u h) w' = Inr r \<and> read_buffered_response r (mf_max f) = Inr b)"
  proof (cases ?c)
    case (Some x)
    then show ?thesis using assms c [OF Some] by (simp add: flight_def)
  next
    case None
    then show ?thesis using assms by (auto simp: flight_def split: sum.splits)
  qed
qed

lemma fetch_buffered:
  assumes "result (fetch_media f u h) w = (Inr (Inl b), d)"
  shows "\<exists>key. coalescing_range_key u h (mf_max f) = Some key
    \<and> view (after (fetch_media f u h) w) key = Some (CBuffered b)
    \<and> (view w key = Some (CBuffered b)
       \<or> (\<exists>w' r. result (mf_fetch f u h) w' = Inr r \<and> read_buffered_response r (mf_max f) = Inr b))"
proof (cases "coalescing_range_key u h (mf_max f)")
  case None
  then show ?thesis using assms by (auto simp: fetch_media_def direct_def since_def split: sum.splits)
next
  case (Some key)
  let ?w0 = "after (mf_clock f) w"
  let ?w1 = "after (cached_buffered f key) ?w0"
  let ?fl = "flight f key u h"
  show ?thesis
  proof (cases "result (cached_buffered f key) ?w0")
    case hit: (Some x)
    then have "view w key = Some (CBuffered x)"
      by (auto simp: cached_buffered_eq clock_view split: option.splits cached.splits)
    then show ?thesis using assms Some hit
      by (simp add: fetch_media_def since_def cached_buffered_eq clock_view)
  next
    case miss: None
    show ?thesis
    proof (cases "result ?fl ?w1")
      case (Inr x)
      then have "x = b" using assms Some miss by (simp add: fetch_media_def since_def do_run)
      with Inr have fl: "result ?fl ?w1 = Inr b" by simp
      have "view ?w1 = view w" by (simp add: cached_buffered_eq clock_view)
      then show ?thesis using flight_Inr [OF fl] Some miss fl
        by (simp add: fetch_media_def since_def do_run clock_view)
    next
      case (Inl e)
      then show ?thesis using assms Some miss
        by (cases e) (auto simp: fetch_media_def since_def direct_def do_run split: sum.splits)
    qed
  qed
qed

lemma fetch_hit:
  assumes "coalescing_range_key u h (mf_max f) = Some key" and "view w key = Some (CBuffered b)"
  shows "\<exists>d. result (fetch_media (f\<lparr>mf_fetch := g\<rparr>) u h) w = (Inr (Inl b), d)"
proof -
  have same: "cached_buffered (f\<lparr>mf_fetch := g\<rparr>) key = cached_buffered f key" for key
    by (simp add: cached_buffered_def)
  show ?thesis using assms by (simp add: fetch_media_def same since_def cached_buffered_eq clock_view)
qed

end


definition ref_fetcher :: "http_response \<Rightarrow> ref_cache media_fetcher" where
  "ref_fetcher r =
     \<lparr>mf_cache = ref_cache_ops, mf_do = (\<lambda>_ m. m), mf_fetch = (\<lambda>_ _. pass (Inr r)),
      mf_clock = State (\<lambda>w. (rc_clock w, w)), mf_ttl = 4 * second, mf_max = 2 * 1024 * 1024,
      mf_slow = 900000000\<rparr>"

interpretation ref_fetch: fetch_world "ref_fetcher r" rc_view for r
  unfolding fetch_world_def fetch_world_axioms_def
  by (simp add: ref_fetcher_def ref_cache.ttl_store_axioms second_def)


end
