(* ===== verification/Predictive.thy ===== *)
theory Predictive
  imports Media_Props
begin

text \<open>
  The predictive startup cache, \<open>internal/httpserver/predictive_startup_cache.go\<close>: a media
  cache of its own, with metadata in memory and blobs in a temporary directory, for the
  episodes a client is expected to watch next. Every client has a window of episodes;
  what is in no window is pruned. The first part models the code run by one goroutine,
  the second its interleavings.
\<close>

section \<open>The metadata store\<close>

record 'o predictive_state =
  ps_entries :: "string \<rightharpoonup> startup_entry"
  ps_windows :: "int \<rightharpoonup> string set"
  ps_outside :: 'o

type_synonym ('o, 'a) peff = "('o predictive_state, 'a) eff"

definition pm_get :: "string \<Rightarrow> ('o, string + startup_entry option) peff" where
  "pm_get ep = State (\<lambda>w. (Inr (ps_entries w ep), w))"

definition pm_upsert :: "startup_entry \<Rightarrow> ('o, string option) peff" where
  "pm_upsert e = State (\<lambda>w. (None, w\<lparr>ps_entries := (ps_entries w)(se_episode_id e \<mapsto> e)\<rparr>))"

definition pm_delete :: "string \<Rightarrow> ('o, startup_entry option) peff" where
  "pm_delete ep = State (\<lambda>w. (ps_entries w ep,
     if ps_entries w ep = None then w else w\<lparr>ps_entries := (ps_entries w)(ep := None)\<rparr>))"

definition pm_snapshot :: "('o, string \<rightharpoonup> startup_entry) peff" where
  "pm_snapshot = State (\<lambda>w. (ps_entries w, w))"

definition predictive_metadata :: "'o predictive_state metadata_store" where
  "predictive_metadata = \<lparr>md_get = pm_get, md_upsert = pm_upsert\<rparr>"

interpretation predictive_md: metadata_live predictive_metadata ps_entries
  by unfold_locales (auto simp: predictive_metadata_def pm_get_def pm_upsert_def)

section \<open>The blob store\<close>

text \<open>Removing a file may fail, in particular because there is none.\<close>

datatype remove_error = NotExist | RemoveFailed string

record 'w os_removes =
  or_remove :: "string \<Rightarrow> ('w, remove_error option) eff"
  or_remove_all :: "string \<Rightarrow> ('w, string option) eff"

definition pf_reset :: "'w os_files \<Rightarrow> 'w os_removes \<Rightarrow> string \<Rightarrow> ('w, string option) eff" where
  "pf_reset os rm base_dir =
     do { gone \<leftarrow> or_remove_all rm base_dir;
          case gone of Some err \<Rightarrow> pass (Some err) | None \<Rightarrow> os_mkdir_all os base_dir }"

definition pf_put :: "'w os_files \<Rightarrow> string \<Rightarrow> string \<Rightarrow> bytes \<Rightarrow> ('w, string option) eff" where
  "pf_put os base_dir key body =
     do { let target_path = path_join base_dir key;
          made \<leftarrow> os_mkdir_all os (path_dir target_path);
          case made of
            Some err \<Rightarrow> pass (Some err)
          | None \<Rightarrow> os_write_file os target_path body }"

definition pf_get :: "'w os_files \<Rightarrow> string \<Rightarrow> string \<Rightarrow> ('w, string + bytes) eff" where
  "pf_get os base_dir key =
     do { body \<leftarrow> os_read_file os (path_join base_dir key);
          case body of
            Inl err \<Rightarrow> pass (Inl (''read predictive blob '' @ key @ '': '' @ err))
          | Inr b \<Rightarrow> pass (Inr b) }"

definition pf_delete :: "'w os_removes \<Rightarrow> string \<Rightarrow> string \<Rightarrow> ('w, string option) eff" where
  "pf_delete rm base_dir key =
     (if trim_space key = [] then pass None
      else do { gone \<leftarrow> or_remove rm (path_join base_dir key);
                pass (case gone of Some (RemoveFailed err) \<Rightarrow> Some err | _ \<Rightarrow> None) })"

definition pf_blobs :: "'w os_files \<Rightarrow> string \<Rightarrow> 'w blob_store" where
  "pf_blobs os base_dir = \<lparr>bl_put = pf_put os base_dir, bl_get = pf_get os base_dir\<rparr>"

text \<open>It is a blob store as good as the one of the media cache.\<close>

sublocale file_system \<subseteq> pf: blob_map "pf_blobs os base" "\<lambda>w k. fv w (path_join base k)" proper_path
proof (unfold_locales, goal_cases)
  case (5 k k' w b)
  have "path_join base k \<noteq> path_join base k'" using path_join_inj 5 by metis
  then show ?case by (auto simp: pf_blobs_def pf_put_def Let_def write_other mkdir_view split: option.splits)
qed (auto simp: pf_blobs_def pf_get_def pf_put_def Let_def read_hit read_view write_ok split: option.splits
      sum.splits dest: read_miss)

section \<open>Windows\<close>

record predictive_episode =
  pe_episode :: string
  pe_candidate :: stream_candidate

text \<open>
  The cache; the order in which Go visits the keys of a map is the parameter \<open>pc_order\<close>.
\<close>

record 'o predictive_cache =
  pc_service :: "'o predictive_state media_svc"
  pc_removes :: "'o predictive_state os_removes"
  pc_base :: string
  pc_order :: "string set \<Rightarrow> string list"

definition usable_episode :: "predictive_episode \<Rightarrow> bool" where
  "usable_episode e \<longleftrightarrow> trim_space (pe_episode e) \<noteq> [] \<and> trim_space (sc_url (pe_candidate e)) \<noteq> []"

definition normalize_window :: "predictive_episode list \<Rightarrow> predictive_episode list" where
  "normalize_window episodes =
     dedup_by pe_episode {} (map (\<lambda>e. e\<lparr>pe_episode := trim_space (pe_episode e)\<rparr>) (filter usable_episode episodes))"

definition set_window :: "int \<Rightarrow> string set \<Rightarrow> (int \<rightharpoonup> string set) \<Rightarrow> (int \<rightharpoonup> string set)" where
  "set_window client active windows =
     (if active = {} then windows(client := None) else windows(client \<mapsto> active))"

definition active_episodes :: "(int \<rightharpoonup> string set) \<Rightarrow> string set" where
  "active_episodes windows = \<Union> (ran windows)"

definition store_window :: "int \<Rightarrow> string set \<Rightarrow> ('o, unit) peff" where
  "store_window client active = State (\<lambda>w. ((), w\<lparr>ps_windows := set_window client active (ps_windows w)\<rparr>))"

definition read_active :: "('o, string set) peff" where
  "read_active = State (\<lambda>w. (active_episodes (ps_windows w), w))"

fun prewarm_all :: "'o predictive_state media_svc \<Rightarrow> predictive_episode list \<Rightarrow> string option \<Rightarrow> ('o, string option) peff" where
  "prewarm_all svc [] first_err = pass first_err"
| "prewarm_all svc (e # es) first_err =
     do { err \<leftarrow> prewarm (Some svc) (pe_episode e) (pe_candidate e);
          prewarm_all svc es (if first_err = None then err else first_err) }"

fun prune_loop :: "'o predictive_cache \<Rightarrow> string set \<Rightarrow> string list \<Rightarrow> ('o, unit) peff" where
  "prune_loop c active [] = pass ()"
| "prune_loop c active (k # ks) =
     (if k \<in> active then prune_loop c active ks
      else do { entry \<leftarrow> pm_delete k;
                case entry of
                  None \<Rightarrow> prune_loop c active ks
                | Some e \<Rightarrow>
                    do { pf_delete (pc_removes c) (pc_base c) (se_head_key e);
                         pf_delete (pc_removes c) (pc_base c) (se_tail_key e);
                         prune_loop c active ks } })"

definition prune_inactive :: "'o predictive_cache \<Rightarrow> ('o, unit) peff" where
  "prune_inactive c =
     do { active \<leftarrow> read_active;
          snapshot \<leftarrow> pm_snapshot;
          prune_loop c active (pc_order c (dom snapshot)) }"

definition update_window ::
  "'o predictive_cache option \<Rightarrow> int \<Rightarrow> predictive_episode list \<Rightarrow> ('o, string option) peff" where
  "update_window cache client episodes =
     (case cache of
        None \<Rightarrow> pass None
      | Some c \<Rightarrow>
          do { let normalized = normalize_window episodes;
               store_window client (pe_episode ` set normalized);
               err \<leftarrow> prewarm_all (pc_service c) normalized None;
               prune_inactive c;
               pass err })"

definition predictive_serve ::
  "'o predictive_cache option \<Rightarrow> string \<Rightarrow> string \<Rightarrow> string \<Rightarrow> ('o, serve) peff" where
  "predictive_serve cache ep source_url range_header =
     (case cache of None \<Rightarrow> pass Miss | Some c \<Rightarrow> try_serve_range (Some (pc_service c)) ep source_url range_header)"

text \<open>\<open>newPredictiveStartupCache\<close>: the directory is emptied, whatever that yields.\<close>

definition new_predictive_cache ::
  "'o predictive_state os_files \<Rightarrow> 'o predictive_state os_removes \<Rightarrow> (string set \<Rightarrow> string list) \<Rightarrow> string
   \<Rightarrow> 'o predictive_state fetcher \<Rightarrow> int \<Rightarrow> int \<Rightarrow> ('o, 'o predictive_cache) peff" where
  "new_predictive_cache os rm order base_dir fetch head_bytes tail_bytes =
     do { pf_reset os rm base_dir;
          State (\<lambda>w. ((), w\<lparr>ps_entries := Map.empty, ps_windows := Map.empty\<rparr>));
          pass \<lparr>pc_service = \<lparr>ms_store = Some predictive_metadata, ms_blobs = Some (pf_blobs os base_dir),
                               ms_fetcher = Some fetch, ms_head = head_bytes, ms_tail = tail_bytes\<rparr>,
                pc_removes = rm, pc_base = base_dir, pc_order = order\<rparr> }"

section \<open>One goroutine at a time\<close>

text \<open>Operations outside the process leave the two maps alone.\<close>

definition quiet :: "('o, 'a) peff \<Rightarrow> bool" where
  "quiet m \<longleftrightarrow> (\<forall>E W. keeps (\<lambda>w. ps_entries w = E \<and> ps_windows w = W) m)"

named_theorems quiet_intros

lemma quietD: "quiet m \<Longrightarrow> ps_entries (after m w) = ps_entries w \<and> ps_windows (after m w) = ps_windows w"
  by (auto simp: quiet_def keeps_def)

lemma quiet_return [quiet_intros]: "quiet (pass x)"
  by (simp add: quiet_def keeps_intros)

lemma quiet_bind [quiet_intros]: "\<lbrakk>quiet m; \<And>x. quiet (f x)\<rbrakk> \<Longrightarrow> quiet (State_Monad.bind m f)"
  by (simp add: quiet_def keeps_bind)

lemma quiet_if [quiet_intros]: "\<lbrakk>b \<Longrightarrow> quiet m; \<not> b \<Longrightarrow> quiet n\<rbrakk> \<Longrightarrow> quiet (if b then m else n)"
  by simp

lemma quiet_option [quiet_intros]:
  "\<lbrakk>quiet m; \<And>x. quiet (f x)\<rbrakk> \<Longrightarrow> quiet (case y of None \<Rightarrow> m | Some x \<Rightarrow> f x)"
  by (cases y) auto

lemma quiet_sum [quiet_intros]:
  "\<lbrakk>\<And>x. quiet (f x); \<And>x. quiet (g x)\<rbrakk> \<Longrightarrow> quiet (case y of Inl x \<Rightarrow> f x | Inr x \<Rightarrow> g x)"
  by (cases y) auto

lemma quiet_pm_get [quiet_intros]: "quiet (md_get predictive_metadata ep)"
  by (simp add: quiet_def keeps_def predictive_metadata_def pm_get_def)

lemma after_pm_upsert:
  "ps_entries (after (md_upsert predictive_metadata e) w) = (ps_entries w)(se_episode_id e \<mapsto> e)"
  "ps_windows (after (md_upsert predictive_metadata e) w) = ps_windows w"
  by (simp_all add: predictive_metadata_def pm_upsert_def)

locale predictive_world =
  fixes c :: "'o predictive_cache"
    and bl :: "'o predictive_state blob_store"
    and fetch :: "'o predictive_state fetcher"
  assumes service: "ms_store (pc_service c) = Some predictive_metadata" "ms_blobs (pc_service c) = Some bl"
      "ms_fetcher (pc_service c) = Some fetch"
    and quiet_put: "quiet (bl_put bl k b)"
    and quiet_get: "quiet (bl_get bl k)"
    and quiet_fetch: "quiet (fetch u h)"
    and quiet_remove: "quiet (or_remove (pc_removes c) p)"
    and order: "finite K \<Longrightarrow> set (pc_order c K) = K"
begin

lemmas quiet_rules = quiet_intros quiet_put quiet_get quiet_fetch quiet_remove

lemma quiet_with_tail: "quiet (with_tail bl fetch t e)"
  unfolding with_tail_def Let_def by (intro quiet_rules)

lemma with_tail_episode: "se_episode_id (result (with_tail bl fetch t e) w) = se_episode_id e"
  by (auto simp: with_tail_def Let_def split: sum.split)

lemma quiet_cached: "quiet (is_sufficiently_cached predictive_metadata bl hb tb ep u)"
  unfolding is_sufficiently_cached_def blob_there_def by (intro quiet_rules)

lemma quiet_delete: "quiet (pf_delete (pc_removes c) base k)"
  unfolding pf_delete_def by (intro quiet_rules)

text \<open>A prewarm stores an entry for its episode or changes nothing; no window moves.\<close>

definition warm_effect :: "string \<Rightarrow> 'o predictive_state \<Rightarrow> 'o predictive_state \<Rightarrow> bool" where
  "warm_effect ep w w' \<longleftrightarrow> ps_windows w' = ps_windows w
     \<and> (ps_entries w' = ps_entries w \<or> (\<exists>e. se_episode_id e = ep \<and> ps_entries w' = (ps_entries w)(ep \<mapsto> e)))"

lemma warm_effect_quiet: "quiet m \<Longrightarrow> warm_effect ep w (after m w)"
  using quietD by (auto simp: warm_effect_def)

lemma warm_effect_after: "\<lbrakk>quiet m; warm_effect ep (after m w) w'\<rbrakk> \<Longrightarrow> warm_effect ep w w'"
  using quietD by (auto simp: warm_effect_def)

lemma prewarm_fetch_effect:
  "warm_effect ep w (after (prewarm_fetch predictive_metadata bl fetch hb tb ep cand) w)"
proof -
  let ?h = "''bytes=0-'' @ itoa (max 0 (i64 (hb - 1)))"
  let ?f = "fetch (sc_url cand) ?h"
  show ?thesis
  proof (cases "result ?f w")
    case (Inl err)
    then show ?thesis using warm_effect_quiet [OF quiet_fetch] by (simp add: prewarm_fetch_def)
  next
    case (Inr r)
    show ?thesis
    proof (cases "read_all_and_close r")
      case (Inl err)
      then show ?thesis using Inr warm_effect_quiet [OF quiet_fetch] by (simp add: prewarm_fetch_def)
    next
      case body: (Inr b)
      let ?p = "bl_put bl (blob_key ep (sc_url cand) ''head'') b"
      let ?w1 = "after ?f w"
      let ?t = "with_tail bl fetch tb (entry_of ep cand r b)"
      let ?w2 = "after ?p ?w1"
      let ?w3 = "after ?t ?w2"
      have e: "se_episode_id (result ?t ?w2) = ep" by (simp add: with_tail_episode entry_of_def Let_def)
      have "warm_effect ep ?w3 (after (md_upsert predictive_metadata (result ?t ?w2)) ?w3)"
        using e by (auto simp: warm_effect_def after_pm_upsert)
      then have "warm_effect ep w (after (md_upsert predictive_metadata (result ?t ?w2)) ?w3)"
        using quiet_fetch quiet_put quiet_with_tail by (blast intro: warm_effect_after)
      moreover have "warm_effect ep w ?w2"
        using quiet_fetch quiet_put by (blast intro: warm_effect_after warm_effect_quiet)
      ultimately show ?thesis using Inr body by (simp add: prewarm_fetch_def split: option.split)
    qed
  qed
qed

lemma prewarm_effect: "warm_effect ep w (after (prewarm (Some (pc_service c)) ep cand) w)"
proof (cases "trim_space ep = [] \<or> trim_space (sc_url cand) = []")
  case True
  then show ?thesis by (auto simp: prewarm_def service warm_effect_def)
next
  case False
  let ?hb = "ms_head (pc_service c)" and ?tb = "ms_tail (pc_service c)"
  let ?i = "is_sufficiently_cached predictive_metadata bl ?hb ?tb ep (sc_url cand)"
  have "warm_effect ep w (after ?i w)" by (rule warm_effect_quiet [OF quiet_cached])
  moreover have "warm_effect ep w (after (prewarm_fetch predictive_metadata bl fetch ?hb ?tb ep cand) (after ?i w))"
    by (rule warm_effect_after [OF quiet_cached prewarm_fetch_effect])
  ultimately show ?thesis using False by (simp add: prewarm_def service)
qed

lemma prewarm_all_windows: "ps_windows (after (prewarm_all (pc_service c) es err) w) = ps_windows w"
proof (induction es arbitrary: err w)
  case (Cons e es)
  then show ?case using prewarm_effect [of "pe_episode e" w "pe_candidate e"] by (simp add: warm_effect_def)
qed simp

lemma prewarm_all_finite:
  "finite (dom (ps_entries w)) \<Longrightarrow> finite (dom (ps_entries (after (prewarm_all (pc_service c) es err) w)))"
proof (induction es arbitrary: err w)
  case (Cons e es)
  have "finite (dom (ps_entries (after (prewarm (Some (pc_service c)) (pe_episode e) (pe_candidate e)) w)))"
    using Cons.prems prewarm_effect [of "pe_episode e" w "pe_candidate e"] by (auto simp: warm_effect_def)
  from Cons.IH [OF this] show ?case by simp
qed simp

lemma prewarm_all_dom:
  "dom (ps_entries w) \<subseteq> dom (ps_entries (after (prewarm_all (pc_service c) es err) w))"
proof (induction es arbitrary: err w)
  case (Cons e es)
  let ?w = "after (prewarm (Some (pc_service c)) (pe_episode e) (pe_candidate e)) w"
  have "dom (ps_entries w) \<subseteq> dom (ps_entries ?w)"
    using prewarm_effect [of "pe_episode e" w "pe_candidate e"] by (auto simp: warm_effect_def)
  then show ?case using Cons [of ?w] by simp (meson order_trans)
qed simp

lemma prune_loop_effect:
  "ps_windows (after (prune_loop c A ks) w) = ps_windows w"
  "ps_entries (after (prune_loop c A ks) w) x = (if x \<in> set ks - A then None else ps_entries w x)"
proof (induction ks arbitrary: w)
  case (Cons k ks)
  {
    case 1
    show ?case using Cons.IH(1) quietD [OF quiet_delete]
      by (auto simp: pm_delete_def split: option.split)
  next
    case 2
    show ?case using Cons.IH(2) quietD [OF quiet_delete]
      by (auto simp: pm_delete_def split: option.split)
  }
qed simp_all

lemma prune_exact:
  assumes "finite (dom (ps_entries w))"
  shows "ps_entries (after (prune_inactive c) w) = (ps_entries w) |` (active_episodes (ps_windows w))"
    and "ps_windows (after (prune_inactive c) w) = ps_windows w"
proof -
  show "ps_entries (after (prune_inactive c) w) = (ps_entries w) |` (active_episodes (ps_windows w))"
    using order [OF assms]
    by (auto simp: prune_inactive_def read_active_def pm_snapshot_def prune_loop_effect restrict_map_def fun_eq_iff)
  show "ps_windows (after (prune_inactive c) w) = ps_windows w"
    by (simp add: prune_inactive_def read_active_def pm_snapshot_def prune_loop_effect)
qed

lemma update_window_views:
  fixes client :: int and es :: "predictive_episode list" and w :: "'o predictive_state"
  assumes "finite (dom (ps_entries w))"
  defines "w1 \<equiv> after (store_window client (pe_episode ` set (normalize_window es))) w"
  defines "w2 \<equiv> after (prewarm_all (pc_service c) (normalize_window es) None) w1"
  shows "ps_windows (after (update_window (Some c) client es) w)
      = set_window client (pe_episode ` set (normalize_window es)) (ps_windows w)"
    and "ps_entries (after (update_window (Some c) client es) w)
      = (ps_entries w2) |` (active_episodes (ps_windows (after (update_window (Some c) client es) w)))"
    and "finite (dom (ps_entries w2))"
proof -
  have w1: "ps_windows w1 = set_window client (pe_episode ` set (normalize_window es)) (ps_windows w)"
    "ps_entries w1 = ps_entries w"
    by (simp_all add: w1_def store_window_def)
  show fin: "finite (dom (ps_entries w2))"
    unfolding w2_def by (rule prewarm_all_finite) (simp add: w1 assms(1))
  have run: "after (update_window (Some c) client es) w = after (prune_inactive c) w2"
    by (simp add: update_window_def w1_def w2_def Let_def)
  show "ps_windows (after (update_window (Some c) client es) w)
      = set_window client (pe_episode ` set (normalize_window es)) (ps_windows w)"
    unfolding run prune_exact(2) [OF fin] by (simp add: w2_def prewarm_all_windows w1)
  then show "ps_entries (after (update_window (Some c) client es) w)
      = (ps_entries w2) |` (active_episodes (ps_windows (after (update_window (Some c) client es) w)))"
    unfolding run prune_exact [OF fin] by simp
qed

end

section \<open>Many goroutines\<close>

text \<open>
  The same code as steps. An update of a window is a goroutine that sets the window under
  the lock, waits for its prewarms, which finish in any order and each store an entry or
  not, reads the active episodes under the lock, takes a snapshot of the entries, and
  deletes one by one those that were not active. \<open>p_warmed\<close> is a history variable: the
  episodes stored so far, the latest first. Blobs are left out here.
\<close>

datatype task = Warming "string list" | ActiveRead "string set" | Dropping "string list"

record pstate =
  p_windows :: "int \<rightharpoonup> string set"
  p_entries :: "string \<rightharpoonup> startup_entry"
  p_tasks :: "nat \<rightharpoonup> task"
  p_warmed :: "string list"

inductive pstep :: "pstate \<Rightarrow> pstate \<Rightarrow> bool" where
  begin_update: "p_tasks s t = None \<Longrightarrow>
    pstep s (s\<lparr>p_windows := set_window client (set eps) (p_windows s), p_tasks := (p_tasks s)(t \<mapsto> Warming eps)\<rparr>)"
| warm: "\<lbrakk>p_tasks s t = Some (Warming eps); ep \<in> set eps; se_episode_id e = ep\<rbrakk> \<Longrightarrow>
    pstep s (s\<lparr>p_entries := (p_entries s)(ep \<mapsto> e), p_tasks := (p_tasks s)(t \<mapsto> Warming (remove1 ep eps)),
               p_warmed := ep # p_warmed s\<rparr>)"
| warm_nothing: "\<lbrakk>p_tasks s t = Some (Warming eps); ep \<in> set eps\<rbrakk> \<Longrightarrow>
    pstep s (s\<lparr>p_tasks := (p_tasks s)(t \<mapsto> Warming (remove1 ep eps))\<rparr>)"
| read_windows: "p_tasks s t = Some (Warming []) \<Longrightarrow>
    pstep s (s\<lparr>p_tasks := (p_tasks s)(t \<mapsto> ActiveRead (active_episodes (p_windows s)))\<rparr>)"
| snapshot: "\<lbrakk>p_tasks s t = Some (ActiveRead A); set ks = dom (p_entries s) - A\<rbrakk> \<Longrightarrow>
    pstep s (s\<lparr>p_tasks := (p_tasks s)(t \<mapsto> Dropping ks)\<rparr>)"
| drop_entry: "p_tasks s t = Some (Dropping (k # ks)) \<Longrightarrow>
    pstep s (s\<lparr>p_entries := (p_entries s)(k := None), p_tasks := (p_tasks s)(t \<mapsto> Dropping ks)\<rparr>)"
| finish: "p_tasks s t = Some (Dropping []) \<Longrightarrow>
    pstep s (s\<lparr>p_tasks := (p_tasks s)(t := None)\<rparr>)"

abbreviation psteps :: "pstate \<Rightarrow> pstate \<Rightarrow> bool" where
  "psteps \<equiv> rtranclp pstep"

lemma psteps_Cons: "\<lbrakk>pstep s t; psteps t u\<rbrakk> \<Longrightarrow> psteps s u"
  by (rule converse_rtranclp_into_rtranclp)

definition p_initial :: pstate where
  "p_initial = \<lparr>p_windows = Map.empty, p_entries = Map.empty, p_tasks = Map.empty, p_warmed = []\<rparr>"

definition idle :: "pstate \<Rightarrow> bool" where
  "idle s \<longleftrightarrow> p_tasks s = Map.empty"

subsection \<open>Nothing is left behind\<close>

text \<open>A goroutine that will still delete the entry of an episode, should it be in no window.\<close>

fun will_drop :: "task \<Rightarrow> string \<Rightarrow> bool" where
  "will_drop (Warming _) k = True"
| "will_drop (ActiveRead A) k = (k \<notin> A)"
| "will_drop (Dropping ks) k = (k \<in> set ks)"

definition cleaned :: "pstate \<Rightarrow> bool" where
  "cleaned s \<longleftrightarrow> (\<forall>k\<in>dom (p_entries s). k \<in> active_episodes (p_windows s)
     \<or> (\<exists>t a. p_tasks s t = Some a \<and> will_drop a k))"

lemma cleaned_task:
  assumes "cleaned s" and "p_tasks s t = Some a"
    and "\<And>k. \<lbrakk>k \<in> dom m; will_drop a k; k \<notin> active_episodes (p_windows s)\<rbrakk> \<Longrightarrow> will_drop b k"
    and "\<And>k. k \<in> dom m \<Longrightarrow> k \<in> dom (p_entries s) \<or> will_drop b k"
  shows "cleaned (s\<lparr>p_entries := m, p_tasks := (p_tasks s)(t \<mapsto> b), p_warmed := l\<rparr>)"
  unfolding cleaned_def
proof (rule ballI)
  fix k
  assume "k \<in> dom (p_entries (s\<lparr>p_entries := m, p_tasks := (p_tasks s)(t \<mapsto> b), p_warmed := l\<rparr>))"
  then have k: "k \<in> dom m" by simp
  show "k \<in> active_episodes (p_windows (s\<lparr>p_entries := m, p_tasks := (p_tasks s)(t \<mapsto> b), p_warmed := l\<rparr>))
     \<or> (\<exists>u a. p_tasks (s\<lparr>p_entries := m, p_tasks := (p_tasks s)(t \<mapsto> b), p_warmed := l\<rparr>) u = Some a \<and> will_drop a k)"
  proof (cases "will_drop b k \<or> k \<in> active_episodes (p_windows s)")
    case True
    then show ?thesis by auto
  next
    case False
    then have "k \<in> dom (p_entries s)" using assms(4) k by blast
    with assms(1) False obtain u a' where u: "p_tasks s u = Some a'" "will_drop a' k"
      unfolding cleaned_def by blast
    have "u \<noteq> t"
    proof
      assume "u = t"
      with u assms(2) have "will_drop a k" by simp
      with assms(3) k False show False by blast
    qed
    with u show ?thesis by auto
  qed
qed

lemma cleaned_step: "\<lbrakk>pstep s s'; cleaned s\<rbrakk> \<Longrightarrow> cleaned s'"
proof (induction rule: pstep.induct)
  case (begin_update s t client eps)
  then show ?case by (auto simp: cleaned_def)
next
  case (warm s t eps ep e)
  show ?case by (rule cleaned_task [OF warm(4,1)]) auto
next
  case (warm_nothing s t eps ep)
  show ?case using cleaned_task [OF warm_nothing(3,1), of "p_entries s" "Warming (remove1 ep eps)" "p_warmed s"] by auto
next
  case (read_windows s t)
  show ?case
    using cleaned_task [OF read_windows(2,1), of "p_entries s" "ActiveRead (active_episodes (p_windows s))" "p_warmed s"]
    by auto
next
  case (snapshot s t A ks)
  show ?case using cleaned_task [OF snapshot(3,1), of "p_entries s" "Dropping ks" "p_warmed s"] snapshot(2) by auto
next
  case (drop_entry s t k ks)
  show ?case
    using cleaned_task [OF drop_entry(2,1), of "(p_entries s)(k := None)" "Dropping ks" "p_warmed s"] by auto
next
  case (finish s t)
  have "will_drop a k \<Longrightarrow> p_tasks s u = Some a \<Longrightarrow> u \<noteq> t" for a k u using finish(1) by auto
  with finish(2) show ?case by (fastforce simp: cleaned_def)
qed

lemma cleaned_reachable: "psteps p_initial s \<Longrightarrow> cleaned s"
proof (induction rule: rtranclp_induct)
  case base
  then show ?case by (simp add: cleaned_def p_initial_def)
next
  case (step y z)
  then show ?case using cleaned_step by blast
qed

subsection \<open>A goroutine alone\<close>

text \<open>The state of one running goroutine, seen in the steps.\<close>

definition running :: "'o predictive_state \<Rightarrow> task \<Rightarrow> string list \<Rightarrow> pstate" where
  "running w a l = \<lparr>p_windows = ps_windows w, p_entries = ps_entries w, p_tasks = [0 \<mapsto> a], p_warmed = l\<rparr>"

definition at_rest :: "'o predictive_state \<Rightarrow> string list \<Rightarrow> pstate" where
  "at_rest w l = \<lparr>p_windows = ps_windows w, p_entries = ps_entries w, p_tasks = Map.empty, p_warmed = l\<rparr>"

context predictive_world
begin

lemma warm_path:
  "\<exists>l'. psteps (running w (Warming (map pe_episode es)) l)
     (running (after (prewarm_all (pc_service c) es err) w) (Warming []) l')"
proof (induction es arbitrary: w l err)
  case (Cons e es)
  let ?ep = "pe_episode e"
  let ?w = "after (prewarm (Some (pc_service c)) ?ep (pe_candidate e)) w"
  have eff: "warm_effect ?ep w ?w" by (rule prewarm_effect)
  have "\<exists>l1. pstep (running w (Warming (map pe_episode (e # es))) l) (running ?w (Warming (map pe_episode es)) l1)"
  proof (cases "ps_entries ?w = ps_entries w")
    case True
    with eff have "running ?w (Warming (map pe_episode es)) l = running w (Warming (map pe_episode es)) l"
      by (simp add: running_def warm_effect_def)
    then show ?thesis
      using pstep.warm_nothing [of "running w (Warming (map pe_episode (e # es))) l" 0 "map pe_episode (e # es)" ?ep]
      by (auto simp: running_def)
  next
    case False
    with eff obtain x where "se_episode_id x = ?ep" "ps_entries ?w = (ps_entries w)(?ep \<mapsto> x)" "ps_windows ?w = ps_windows w"
      by (auto simp: warm_effect_def)
    then show ?thesis
      using pstep.warm [of "running w (Warming (map pe_episode (e # es))) l" 0 "map pe_episode (e # es)" ?ep x]
      by (auto simp: running_def)
  qed
  then obtain l1 where "pstep (running w (Warming (map pe_episode (e # es))) l) (running ?w (Warming (map pe_episode es)) l1)"
    by blast
  moreover obtain l' where "psteps (running ?w (Warming (map pe_episode es)) l1)
      (running (after (prewarm_all (pc_service c) es (if err = None then result (prewarm (Some (pc_service c)) ?ep (pe_candidate e)) w else err)) ?w) (Warming []) l')"
    using Cons by blast
  ultimately show ?case
    by (intro exI [of _ l']) (auto intro: converse_rtranclp_into_rtranclp)
qed auto

lemma drop_path:
  "psteps (running w (Dropping (filter (\<lambda>k. k \<notin> A) ks)) l) (running (after (prune_loop c A ks) w) (Dropping []) l)"
proof (induction ks arbitrary: w)
  case (Cons k ks)
  show ?case
  proof (cases "k \<in> A")
    case True
    then show ?thesis using Cons by simp
  next
    case False
    let ?step = "case result (pm_delete k) w of None \<Rightarrow> after (pm_delete k) w
      | Some e \<Rightarrow> after (pf_delete (pc_removes c) (pc_base c) (se_tail_key e))
          (after (pf_delete (pc_removes c) (pc_base c) (se_head_key e)) (after (pm_delete k) w))"
    have loop: "after (prune_loop c A (k # ks)) w = after (prune_loop c A ks) ?step"
      using False by (simp split: option.split)
    have v: "ps_windows ?step = ps_windows w" "ps_entries ?step = (ps_entries w)(k := None)"
      using quietD [OF quiet_delete] by (auto simp: pm_delete_def fun_eq_iff split: option.split)
    have "pstep (running w (Dropping (filter (\<lambda>k. k \<notin> A) (k # ks))) l) (running ?step (Dropping (filter (\<lambda>k. k \<notin> A) ks)) l)"
      using pstep.drop_entry [of "running w (Dropping (filter (\<lambda>k. k \<notin> A) (k # ks))) l" 0 k "filter (\<lambda>k. k \<notin> A) ks"] False
      by (simp add: running_def v)
    then show ?thesis unfolding loop using Cons [of ?step] by (rule converse_rtranclp_into_rtranclp)
  qed
qed simp

lemma update_window_path:
  fixes client :: int and es :: "predictive_episode list" and w :: "'o predictive_state"
  assumes "finite (dom (ps_entries w))"
  shows "\<exists>l'. psteps (at_rest w l) (at_rest (after (update_window (Some c) client es) w) l')"
proof -
  let ?n = "normalize_window es"
  let ?w1 = "after (store_window client (pe_episode ` set ?n)) w"
  let ?w2 = "after (prewarm_all (pc_service c) ?n None) ?w1"
  let ?A = "active_episodes (ps_windows ?w2)"
  let ?ks = "pc_order c (dom (ps_entries ?w2))"
  let ?w3 = "after (prune_loop c ?A ?ks) ?w2"
  have fin: "finite (dom (ps_entries ?w2))" by (rule update_window_views(3) [OF assms])
  have run: "after (update_window (Some c) client es) w = ?w3"
    by (simp add: update_window_def Let_def prune_inactive_def read_active_def pm_snapshot_def)
  have "pstep (at_rest w l) (running ?w1 (Warming (map pe_episode ?n)) l)"
    using pstep.begin_update [where s = "at_rest w l" and t = 0 and client = client and eps = "map pe_episode ?n"]
    by (simp add: at_rest_def running_def store_window_def)
  moreover obtain l' where "psteps (running ?w1 (Warming (map pe_episode ?n)) l) (running ?w2 (Warming []) l')"
    using warm_path by blast
  moreover have "pstep (running ?w2 (Warming []) l') (running ?w2 (ActiveRead ?A) l')"
    using pstep.read_windows [of "running ?w2 (Warming []) l'" 0] by (simp add: running_def)
  moreover have "pstep (running ?w2 (ActiveRead ?A) l') (running ?w2 (Dropping (filter (\<lambda>k. k \<notin> ?A) ?ks)) l')"
    using pstep.snapshot [of "running ?w2 (ActiveRead ?A) l'" 0 ?A "filter (\<lambda>k. k \<notin> ?A) ?ks"] order [OF fin]
    by (auto simp: running_def)
  moreover note drop_path [of ?w2 ?A ?ks l']
  moreover have "pstep (running ?w3 (Dropping []) l') (at_rest ?w3 l')"
    using pstep.finish [of "running ?w3 (Dropping []) l'" 0] by (simp add: at_rest_def running_def)
  ultimately have "psteps (at_rest w l) (at_rest ?w3 l')"
    by (meson converse_rtranclp_into_rtranclp rtranclp.rtrancl_into_rtrancl rtranclp_trans)
  then show ?thesis unfolding run by blast
qed

end

section \<open>Properties\<close>

text \<open>
  C12. Over every interleaving of window updates by any number of clients, whichever
  prewarms succeed: whenever no update is running, every entry belongs to an episode in
  some window, so that nothing pruned-out is kept for ever.
\<close>

theorem predictive_no_garbage:
  assumes "psteps p_initial s" and "idle s"
  shows "dom (p_entries s) \<subseteq> active_episodes (p_windows s)"
  using cleaned_reachable [OF assms(1)] assms(2) by (auto simp: cleaned_def idle_def)

definition sample_entry :: "string \<Rightarrow> startup_entry" where
  "sample_entry ep =
     \<lparr>se_episode_id = ep, se_source_url = ''u'', se_source_key = ''u'', se_container = ''mp4'', se_quality = ''720p'',
      se_content_type = ''video/mp4'', se_content_length = 2, se_head_key = ''h'', se_head_bytes = 2,
      se_tail_key = [], se_tail_bytes = 0\<rparr>"

text \<open>A client that is done with its window reads the active episodes; another warms one; the first deletes it.\<close>

definition race_entries :: "string \<rightharpoonup> startup_entry" where
  "race_entries = [''e'' \<mapsto> sample_entry ''e'']"

definition race_windows :: "int \<rightharpoonup> string set" where
  "race_windows = [2 \<mapsto> {''e''}]"

lemma race_path:
  "psteps p_initial
     \<lparr>p_windows = race_windows, p_entries = Map.empty, p_tasks = Map.empty, p_warmed = [''e'']\<rparr>"
proof -
  let ?st = "\<lambda>W E T l. \<lparr>p_windows = W, p_entries = E, p_tasks = T, p_warmed = l\<rparr>"
  have act: "active_episodes race_windows = {''e''}" "active_episodes Map.empty = {}"
    by (simp_all add: active_episodes_def race_windows_def)
  have 1: "pstep p_initial (?st Map.empty Map.empty [0 \<mapsto> Warming []] [])"
    using pstep.begin_update [where s = p_initial and t = 0 and client = 1 and eps = "[]"] by (simp add: p_initial_def set_window_def)
  have 2: "pstep (?st Map.empty Map.empty [0 \<mapsto> Warming []] []) (?st Map.empty Map.empty [0 \<mapsto> ActiveRead {}] [])"
    using pstep.read_windows [of "?st Map.empty Map.empty [0 \<mapsto> Warming []] []" 0] by (simp add: act)
  have 3: "pstep (?st Map.empty Map.empty [0 \<mapsto> ActiveRead {}] [])
      (?st race_windows Map.empty [0 \<mapsto> ActiveRead {}, 1 \<mapsto> Warming [''e'']] [])"
    using pstep.begin_update [where s = "?st Map.empty Map.empty [0 \<mapsto> ActiveRead {}] []" and t = 1 and client = 2 and eps = "[''e'']"]
    by (simp add: set_window_def race_windows_def)
  have 4: "pstep (?st race_windows Map.empty [0 \<mapsto> ActiveRead {}, 1 \<mapsto> Warming [''e'']] [])
      (?st race_windows race_entries [0 \<mapsto> ActiveRead {}, 1 \<mapsto> Warming []] [''e''])"
    using pstep.warm [of "?st race_windows Map.empty [0 \<mapsto> ActiveRead {}, 1 \<mapsto> Warming [''e'']] []" 1 "[''e'']" "''e''" "sample_entry ''e''"]
    by (simp add: sample_entry_def race_entries_def)
  have 5: "pstep (?st race_windows race_entries [0 \<mapsto> ActiveRead {}, 1 \<mapsto> Warming []] [''e''])
      (?st race_windows race_entries [0 \<mapsto> Dropping [''e''], 1 \<mapsto> Warming []] [''e''])"
    using pstep.snapshot [of "?st race_windows race_entries [0 \<mapsto> ActiveRead {}, 1 \<mapsto> Warming []] [''e'']" 0 "{}" "[''e'']"]
    by (simp add: race_entries_def fun_upd_twist)
  have 6: "pstep (?st race_windows race_entries [0 \<mapsto> Dropping [''e''], 1 \<mapsto> Warming []] [''e''])
      (?st race_windows Map.empty [0 \<mapsto> Dropping [], 1 \<mapsto> Warming []] [''e''])"
    using pstep.drop_entry [of "?st race_windows race_entries [0 \<mapsto> Dropping [''e''], 1 \<mapsto> Warming []] [''e'']" 0 "''e''" "[]"]
    by (simp add: race_entries_def fun_upd_twist)
  have 7: "pstep (?st race_windows Map.empty [0 \<mapsto> Dropping [], 1 \<mapsto> Warming []] [''e''])
      (?st race_windows Map.empty [1 \<mapsto> Warming []] [''e''])"
    using pstep.finish [of "?st race_windows Map.empty [0 \<mapsto> Dropping [], 1 \<mapsto> Warming []] [''e'']" 0]
    by (simp add: fun_upd_twist)
  have 8: "pstep (?st race_windows Map.empty [1 \<mapsto> Warming []] [''e'']) (?st race_windows Map.empty [1 \<mapsto> ActiveRead {''e''}] [''e''])"
    using pstep.read_windows [of "?st race_windows Map.empty [1 \<mapsto> Warming []] [''e'']" 1] by (simp add: act)
  have 9: "pstep (?st race_windows Map.empty [1 \<mapsto> ActiveRead {''e''}] [''e'']) (?st race_windows Map.empty [1 \<mapsto> Dropping []] [''e''])"
    using pstep.snapshot [of "?st race_windows Map.empty [1 \<mapsto> ActiveRead {''e''}] [''e'']" 1 "{''e''}" "[]"] by simp
  have 10: "pstep (?st race_windows Map.empty [1 \<mapsto> Dropping []] [''e'']) (?st race_windows Map.empty Map.empty [''e''])"
    using pstep.finish [of "?st race_windows Map.empty [1 \<mapsto> Dropping []] [''e'']" 1] by simp
  show ?thesis
    by (intro psteps_Cons [OF 1] psteps_Cons [OF 2] psteps_Cons [OF 3] psteps_Cons [OF 4] psteps_Cons [OF 5]
        psteps_Cons [OF 6] psteps_Cons [OF 7] psteps_Cons [OF 8] psteps_Cons [OF 9] psteps_Cons [OF 10]
        rtranclp.rtrancl_refl)
qed

theorem predictive_no_garbage_witness:
  "dom (p_entries \<lparr>p_windows = race_windows, p_entries = Map.empty, p_tasks = Map.empty, p_warmed = [''e'']\<rparr>)
   \<subseteq> active_episodes race_windows"
  using predictive_no_garbage [OF race_path] by (simp add: idle_def)

text \<open>
  C15. What is not promised: two updates can interleave so that an episode is in a window
  and its prewarm succeeded, yet its entry is gone when both have ended. The active
  episodes are read before the snapshot, and the lock is not held in between.
\<close>

theorem predictive_prune_race:
  "\<exists>s. psteps p_initial s \<and> idle s \<and> ''e'' \<in> active_episodes (p_windows s) \<and> p_warmed s = [''e'']
     \<and> p_entries s ''e'' = None"
  by (intro exI conjI) (rule race_path, simp_all add: idle_def active_episodes_def race_windows_def)

text \<open>
  C13. One update run without interference refines the steps: it is a run of them from rest
  to rest, sets exactly the window of its client, keeps the entries of episodes that are
  in some window, and leaves no others.
\<close>

theorem update_window_refines:
  assumes "predictive_world c bl fetch" and "finite (dom (ps_entries w))"
  shows "(\<exists>l'. psteps (at_rest w l) (at_rest (after (update_window (Some c) client es) w) l'))
    \<and> ps_windows (after (update_window (Some c) client es) w)
        = set_window client (pe_episode ` set (normalize_window es)) (ps_windows w)
    \<and> dom (ps_entries (after (update_window (Some c) client es) w))
        \<subseteq> active_episodes (ps_windows (after (update_window (Some c) client es) w))
    \<and> dom (ps_entries w) \<inter> active_episodes (ps_windows (after (update_window (Some c) client es) w))
        \<subseteq> dom (ps_entries (after (update_window (Some c) client es) w))"
proof -
  let ?w1 = "after (store_window client (pe_episode ` set (normalize_window es))) w"
  have "dom (ps_entries w) = dom (ps_entries ?w1)" by (simp add: store_window_def)
  also have "\<dots> \<subseteq> dom (ps_entries (after (prewarm_all (pc_service c) (normalize_window es) None) ?w1))"
    by (rule predictive_world.prewarm_all_dom [OF assms(1)])
  finally show ?thesis
    using predictive_world.update_window_path [OF assms] predictive_world.update_window_views(1,2) [OF assms]
    by auto
qed

text \<open>A reference world: the files of the temporary directory, and an origin that is down.\<close>

type_synonym ref_predictive = "(string \<rightharpoonup> bytes) predictive_state"

definition ref_pfiles :: "ref_predictive os_files" where
  "ref_pfiles =
     \<lparr>os_mkdir_all = (\<lambda>_. pass None),
      os_write_file = (\<lambda>p b. State (\<lambda>w. (None, w\<lparr>ps_outside := (ps_outside w)(p \<mapsto> b)\<rparr>))),
      os_read_file = (\<lambda>p. State (\<lambda>w. (case ps_outside w p of None \<Rightarrow> Inl ''no such file'' | Some b \<Rightarrow> Inr b, w)))\<rparr>"

definition ref_premoves :: "ref_predictive os_removes" where
  "ref_premoves =
     \<lparr>or_remove = (\<lambda>p. State (\<lambda>w. (if ps_outside w p = None then Some NotExist else None,
                                        w\<lparr>ps_outside := (ps_outside w)(p := None)\<rparr>))),
      or_remove_all = (\<lambda>p. State (\<lambda>w. (None, w\<lparr>ps_outside := Map.empty\<rparr>)))\<rparr>"

definition ref_predictive_cache :: "(string \<rightharpoonup> bytes) predictive_cache" where
  "ref_predictive_cache =
     \<lparr>pc_service = \<lparr>ms_store = Some predictive_metadata, ms_blobs = Some (pf_blobs ref_pfiles ''/tmp''),
                     ms_fetcher = Some (\<lambda>_ _. pass (Inl ''offline'')), ms_head = 8, ms_tail = 0\<rparr>,
      pc_removes = ref_premoves, pc_base = ''/tmp'', pc_order = sorted_list_of_set\<rparr>"

interpretation ref_pfiles: file_system ref_pfiles ps_outside
  by unfold_locales (auto simp: ref_pfiles_def)

interpretation ref_predictive: predictive_world ref_predictive_cache "pf_blobs ref_pfiles ''/tmp''" "\<lambda>_ _. pass (Inl ''offline'')"
  by unfold_locales
    (auto simp: ref_predictive_cache_def quiet_return quiet_def keeps_def pf_blobs_def pf_put_def pf_get_def
      ref_pfiles_def ref_premoves_def Let_def split: option.split)

theorem update_window_refines_witness:
  "dom (ps_entries (after (update_window (Some ref_predictive_cache) 1 [])
      \<lparr>ps_entries = [''e'' \<mapsto> sample_entry ''e'', ''x'' \<mapsto> sample_entry ''x''],
       ps_windows = [1 \<mapsto> {''x''}, 2 \<mapsto> {''e''}], ps_outside = Map.empty\<rparr>)) = {''e''}"
proof -
  let ?w = "\<lparr>ps_entries = [''e'' \<mapsto> sample_entry ''e'', ''x'' \<mapsto> sample_entry ''x''],
       ps_windows = [1 \<mapsto> {''x''}, 2 \<mapsto> {''e''}], ps_outside = Map.empty\<rparr> :: ref_predictive"
  let ?v = "after (update_window (Some ref_predictive_cache) 1 []) ?w"
  have n: "pe_episode ` set (normalize_window []) = {}" by (simp add: normalize_window_def)
  have f: "finite (dom (ps_entries ?w))" by simp
  note r = conjunct2 [OF update_window_refines [OF ref_predictive.predictive_world_axioms f, of "[]" 1 "[]"], unfolded n]
  have "ps_windows ?v = set_window 1 {} (ps_windows ?w)" by (rule conjunct1 [OF r])
  also have "\<dots> = [2 \<mapsto> {''e''}]" by (auto simp: set_window_def)
  finally have "active_episodes (ps_windows ?v) = {''e''}" by (simp only: active_episodes_def) simp
  moreover have "dom (ps_entries ?v) \<subseteq> active_episodes (ps_windows ?v)"
    by (rule conjunct1 [OF conjunct2 [OF r]])
  moreover have "dom (ps_entries ?w) \<inter> active_episodes (ps_windows ?v) \<subseteq> dom (ps_entries ?v)"
    by (rule conjunct2 [OF conjunct2 [OF r]])
  moreover have "dom (ps_entries ?w) = {''e'', ''x''}" by auto
  ultimately show ?thesis by auto
qed

end
