(* ===== verification/Rate_Limit.thy ===== *)
theory Rate_Limit
  imports World
begin

text \<open>
  The rate limit: the counter of \<open>internal/httpserver/rate_counter.go\<close> and the middleware
  of \<open>middleware.go\<close> that counts the requests of an address in each minute. It is shown
  that exactly the first requests of a minute pass, up to the limit.
\<close>

section \<open>The counter\<close>

type_synonym counts = "string \<rightharpoonup> int"

definition new_rate_counter :: counts where
  "new_rate_counter = Map.empty"

definition increment :: "string \<Rightarrow> (counts, int) eff" where
  "increment key =
     State (\<lambda>counts. let n = (case counts key of None \<Rightarrow> 0 | Some n \<Rightarrow> n) + 1 in (n, counts(key \<mapsto> n)))"

section \<open>The middleware\<close>

definition pad :: "nat \<Rightarrow> int \<Rightarrow> string" where
  "pad k n = replicate (k - length (itoa n)) CHR ''0'' @ itoa n"

text \<open>\<open>t.UTC().Format("200601021504")\<close>.\<close>

definition minute_stamp :: "time \<Rightarrow> string" where
  "minute_stamp t =
     (case civil_from_days (t div day_ns) of
        (y, m, d) \<Rightarrow> pad 4 y @ pad 2 m @ pad 2 d @ pad 2 (t mod day_ns div (60 * minute))
                     @ pad 2 (t mod (60 * minute) div minute))"

definition rate_key :: "string \<Rightarrow> time \<Rightarrow> string" where
  "rate_key ip t = ip @ '':'' @ minute_stamp t"

text \<open>Whether the request is handed on; otherwise the answer is 429.\<close>

definition rate_limit :: "int \<Rightarrow> string \<Rightarrow> time \<Rightarrow> (counts, bool) eff" where
  "rate_limit rpm ip t = do { n \<leftarrow> increment (rate_key ip t); pass (\<not> n > rpm) }"

fun rate_run :: "int \<Rightarrow> (string \<times> time) list \<Rightarrow> (counts, bool list) eff" where
  "rate_run rpm [] = pass []"
| "rate_run rpm ((ip, t) # reqs) = do { b \<leftarrow> rate_limit rpm ip t; bs \<leftarrow> rate_run rpm reqs; pass (b # bs) }"

section \<open>Minutes\<close>

lemma itoa_length_pos: "\<lbrakk>0 \<le> n; n < 10 ^ k; 0 < k\<rbrakk> \<Longrightarrow> length (itoa n) \<le> k"
proof (induction k arbitrary: n)
  case (Suc k)
  have i: "itoa n = nat_digits n" if "0 \<le> n" for n using that by (simp add: itoa_def)
  show ?case
  proof (cases "n < 10")
    case True
    then show ?thesis using Suc.prems by (simp add: i nat_digits.simps [of n])
  next
    case False
    then have "0 < k" using Suc.prems by (cases k) auto
    moreover have "n div 10 < 10 ^ k" using Suc.prems by simp
    ultimately have "length (itoa (n div 10)) \<le> k" using Suc.IH Suc.prems by simp
    then show ?thesis using False Suc.prems by (simp add: i nat_digits.simps [of n])
  qed
qed simp

lemma pad_length: "\<lbrakk>0 \<le> n; n < 10 ^ k; 0 < k\<rbrakk> \<Longrightarrow> length (pad k n) = k"
  using itoa_length_pos [of n k] by (simp add: pad_def)

lemma digits_val_replicate: "digits_val (replicate k CHR ''0'' @ s) = digits_val s"
proof (induction k)
  case (Suc k)
  then show ?case by (simp add: digits_val_def digit_val_def)
qed simp

lemma pad_inj: "\<lbrakk>pad k n = pad k m; 0 \<le> n; 0 \<le> m\<rbrakk> \<Longrightarrow> n = m"
proof -
  assume a: "pad k n = pad k m" "0 \<le> n" "0 \<le> m"
  have "digits_val (pad k x) = x" if "0 \<le> x" for x
    using that by (simp add: pad_def digits_val_replicate itoa_def)
  with a show ?thesis by metis
qed

lemma civil_bounds:
  "case civil_from_days n of (y, m, d) \<Rightarrow> 1 \<le> m \<and> m \<le> 12 \<and> 1 \<le> d \<and> d \<le> 31"
proof -
  define z where "z = n + 719468"
  define doy where "doy = z - year_days (march_year z)"
  have doy: "0 \<le> doy" "doy \<le> 365"
    using march_year_bounds [of z] year_days_mono_step(2) [of "march_year z"] by (simp_all add: doy_def)
  define mp where "mp = (5 * doy + 2) div 153"
  have q: "153 * mp \<le> 5 * doy + 2" "5 * doy + 2 < 153 * mp + 153"
    using mult_div_mod_eq [of 153 "5 * doy + 2"] pos_mod_bound [of 153 "5 * doy + 2"] pos_mod_sign [of 153 "5 * doy + 2"]
    unfolding mp_def by linarith+
  have mp: "0 \<le> mp" "mp \<le> 11" using q doy by linarith+
  have k: "5 * ((153 * mp + 2) div 5) \<le> 153 * mp + 2" "153 * mp + 2 < 5 * ((153 * mp + 2) div 5) + 5"
    using mult_div_mod_eq [of 5 "153 * mp + 2"] pos_mod_bound [of 5 "153 * mp + 2"] pos_mod_sign [of 5 "153 * mp + 2"]
    by linarith+
  have d: "0 \<le> doy - (153 * mp + 2) div 5" "doy - (153 * mp + 2) div 5 \<le> 30"
    using q k by linarith+
  have "civil_from_days n =
      (let m = (if mp < 10 then mp + 3 else mp - 9)
       in (if m \<le> 2 then march_year z + 1 else march_year z, m, doy - (153 * mp + 2) div 5 + 1))"
    unfolding civil_from_days_def Let_def z_def [symmetric] doy_def [symmetric] mp_def [symmetric] by (rule refl)
  then show ?thesis using mp d by (simp add: Let_def)
qed

text \<open>The years with four digits.\<close>

definition four_digit_year :: "time \<Rightarrow> bool" where
  "four_digit_year t \<longleftrightarrow> 0 \<le> fst (civil_from_days (t div day_ns)) \<and> fst (civil_from_days (t div day_ns)) \<le> 9999"

lemma minute_pos: "0 < minute"
  by (simp add: minute_def second_def)

lemma mod_div_minute: "0 < k \<Longrightarrow> t mod (minute * k) div minute = t div minute mod k"
proof -
  assume "0 < k"
  then have "t mod (minute * k) = minute * (t div minute mod k) + t mod minute" by (simp add: zmod_zmult2_eq)
  then show ?thesis using minute_pos by simp
qed

lemma minute_parts:
  "t div day_ns = t div minute div 60 div 24"
  "t mod day_ns div (60 * minute) = t div minute div 60 mod 24"
  "t mod (60 * minute) div minute = t div minute mod 60"
proof -
  have d: "day_ns = minute * 1440" by (simp add: day_ns_def minute_def)
  have e: "q div 1440 = q div 60 div 24" "q mod 1440 = 60 * (q div 60 mod 24) + q mod 60" for q :: int
    using zdiv_zmult2_eq [of 24 q 60] zmod_zmult2_eq [of 24 q 60] by simp_all
  have "t div day_ns = t div minute div 1440" unfolding d by (rule zdiv_zmult2_eq) simp
  then show "t div day_ns = t div minute div 60 div 24" by (simp only: e)
  have "x div (60 * minute) = x div minute div 60" for x :: int
    using zdiv_zmult2_eq [of 60 x minute] by (simp add: mult.commute)
  then have "t mod day_ns div (60 * minute) = t div minute mod 1440 div 60"
    unfolding d by (simp add: mod_div_minute)
  also have "\<dots> = (60 * (t div minute div 60 mod 24) + t div minute mod 60) div 60" by (simp only: e)
  also have "\<dots> = t div minute div 60 mod 24" by simp
  finally show "t mod day_ns div (60 * minute) = t div minute div 60 mod 24" .
  show "t mod (60 * minute) div minute = t div minute mod 60"
    using mod_div_minute [of 60 t] by (simp add: mult.commute)
qed

lemma same_day_minute:
  "t div minute = ((t div day_ns) * 24 + t mod day_ns div (60 * minute)) * 60 + t mod (60 * minute) div minute"
  unfolding minute_parts by simp

lemma hour_minute_bounds:
  "0 \<le> t mod day_ns div (60 * minute)" "t mod day_ns div (60 * minute) < 24"
  "0 \<le> t mod (60 * minute) div minute" "t mod (60 * minute) div minute < 60"
  unfolding minute_parts by simp_all

lemma minute_stamp_parts:
  assumes "four_digit_year t"
  obtains y m d where "civil_from_days (t div day_ns) = (y, m, d)" "0 \<le> y" "0 \<le> m" "0 \<le> d"
    "length (pad 4 y) = 4" "length (pad 2 m) = 2" "length (pad 2 d) = 2"
    "length (pad 2 (t mod day_ns div (60 * minute))) = 2" "length (pad 2 (t mod (60 * minute) div minute)) = 2"
proof -
  obtain y m d where c: "civil_from_days (t div day_ns) = (y, m, d)" by (cases "civil_from_days (t div day_ns)") auto
  have b: "1 \<le> m" "m \<le> 12" "1 \<le> d" "d \<le> 31" using civil_bounds [of "t div day_ns"] c by auto
  have y: "0 \<le> y" "y \<le> 9999" using assms c by (auto simp: four_digit_year_def)
  note h = hour_minute_bounds [of t]
  show thesis using c b y h by (intro that [of y m d]) (simp_all add: pad_length)
qed

lemma minute_stamp_length: "four_digit_year t \<Longrightarrow> length (minute_stamp t) = 12"
  by (erule minute_stamp_parts) (simp add: minute_stamp_def)

lemma minute_stamp_inj:
  assumes "four_digit_year t" "four_digit_year u"
  shows "minute_stamp t = minute_stamp u \<longleftrightarrow> t div minute = u div minute"
proof
  assume e: "minute_stamp t = minute_stamp u"
  obtain y m d where t: "civil_from_days (t div day_ns) = (y, m, d)" "0 \<le> y" "0 \<le> m" "0 \<le> d"
    "length (pad 4 y) = 4" "length (pad 2 m) = 2" "length (pad 2 d) = 2"
    "length (pad 2 (t mod day_ns div (60 * minute))) = 2" "length (pad 2 (t mod (60 * minute) div minute)) = 2"
    using assms(1) by (rule minute_stamp_parts)
  obtain y' m' d' where u: "civil_from_days (u div day_ns) = (y', m', d')" "0 \<le> y'" "0 \<le> m'" "0 \<le> d'"
    "length (pad 4 y') = 4" "length (pad 2 m') = 2" "length (pad 2 d') = 2"
    "length (pad 2 (u mod day_ns div (60 * minute))) = 2" "length (pad 2 (u mod (60 * minute) div minute)) = 2"
    using assms(2) by (rule minute_stamp_parts)
  note n = hour_minute_bounds(1,3) [of t] hour_minute_bounds(1,3) [of u]
  have "pad 4 y = pad 4 y' \<and> pad 2 m = pad 2 m' \<and> pad 2 d = pad 2 d'
      \<and> pad 2 (t mod day_ns div (60 * minute)) = pad 2 (u mod day_ns div (60 * minute))
      \<and> pad 2 (t mod (60 * minute) div minute) = pad 2 (u mod (60 * minute) div minute)"
    using e t u by (simp add: minute_stamp_def)
  then have "y = y' \<and> m = m' \<and> d = d' \<and> t mod day_ns div (60 * minute) = u mod day_ns div (60 * minute)
      \<and> t mod (60 * minute) div minute = u mod (60 * minute) div minute"
    using t u n by (auto dest: pad_inj)
  moreover from this t(1) u(1) have "t div day_ns = u div day_ns"
    using days_from_civil_from_days [of "t div day_ns"] days_from_civil_from_days [of "u div day_ns"] by simp
  ultimately show "t div minute = u div minute"
    using same_day_minute [of t] same_day_minute [of u] by simp
next
  assume e: "t div minute = u div minute"
  then show "minute_stamp t = minute_stamp u" by (simp add: minute_stamp_def minute_parts e)
qed

lemma rate_key_inj:
  assumes "four_digit_year t" "four_digit_year u"
  shows "rate_key ip t = rate_key ip' u \<longleftrightarrow> ip = ip' \<and> t div minute = u div minute"
  using minute_stamp_inj [OF assms] minute_stamp_length assms by (auto simp: rate_key_def)

section \<open>What passes\<close>

definition count_of :: "counts \<Rightarrow> string \<Rightarrow> int" where
  "count_of c k = (case c k of None \<Rightarrow> 0 | Some n \<Rightarrow> n)"

lemma rate_run_nth:
  "j < length reqs \<Longrightarrow> result (rate_run rpm reqs) c ! j \<longleftrightarrow>
     count_of c (case reqs ! j of (ip, t) \<Rightarrow> rate_key ip t)
       + int (length (filter (\<lambda>(ip, t). rate_key ip t = (case reqs ! j of (ip, t) \<Rightarrow> rate_key ip t)) (take j reqs))) < rpm"
proof (induction reqs arbitrary: j c)
  case (Cons r reqs)
  obtain ip t where r: "r = (ip, t)" by force
  show ?case
  proof (cases j)
    case 0
    then show ?thesis by (auto simp: r rate_limit_def increment_def count_of_def Let_def)
  next
    case (Suc i)
    obtain ip' t' where ri: "reqs ! i = (ip', t')" by force
    define c' where "c' = c(rate_key ip t \<mapsto> count_of c (rate_key ip t) + 1)"
    have cnt: "count_of c' k = count_of c k + (if rate_key ip t = k then 1 else 0)" for k
      by (simp add: c'_def count_of_def)
    have "result (rate_run rpm (r # reqs)) c ! Suc i = result (rate_run rpm reqs) c' ! i"
      by (simp add: r rate_limit_def increment_def Let_def c'_def count_of_def)
    then show ?thesis using Cons.IH [of i c'] Cons.prems Suc by (simp add: r ri cnt add.assoc split del: if_split) auto
  qed
qed simp

lemma rate_run_length: "length (result (rate_run rpm reqs) c) = length reqs"
  by (induction reqs arbitrary: c) auto

text \<open>
  C19. The rate limit hands on exactly the first requests of an address in a minute of UTC
  up to the limit: a request passes if and only if fewer earlier requests of the same
  address fell into the same minute than the limit allows, and other addresses and
  minutes do not count.
\<close>

theorem rate_limit_per_minute:
  assumes "list_all (\<lambda>(ip, t). four_digit_year t) reqs"
  shows "result (rate_run rpm reqs) new_rate_counter =
    map (\<lambda>j. int (length (filter (\<lambda>(ip, t). ip = fst (reqs ! j) \<and> t div minute = snd (reqs ! j) div minute) (take j reqs))) < rpm)
      [0..<length reqs]"
proof (rule nth_equalityI)
  show "length (result (rate_run rpm reqs) new_rate_counter) =
      length (map (\<lambda>j. int (length (filter (\<lambda>(ip, t). ip = fst (reqs ! j) \<and> t div minute = snd (reqs ! j) div minute) (take j reqs))) < rpm)
        [0..<length reqs])"
    by (simp add: rate_run_length)
next
  fix j assume "j < length (result (rate_run rpm reqs) new_rate_counter)"
  then have j: "j < length reqs" by (simp add: rate_run_length)
  obtain ip t where r: "reqs ! j = (ip, t)" by force
  have good: "four_digit_year u" if "(a, u) \<in> set reqs" for a u
    using that assms by (auto simp: list_all_iff)
  have "four_digit_year t" using good [of ip t] j r nth_mem by metis
  then have "filter (\<lambda>(ip', t'). rate_key ip' t' = rate_key ip t) (take j reqs)
      = filter (\<lambda>(ip', t'). ip' = ip \<and> t' div minute = t div minute) (take j reqs)"
    using good by (intro filter_cong refl) (auto simp: rate_key_inj dest: in_set_takeD)
  then show "result (rate_run rpm reqs) new_rate_counter ! j =
      map (\<lambda>j. int (length (filter (\<lambda>(ip, t). ip = fst (reqs ! j) \<and> t div minute = snd (reqs ! j) div minute) (take j reqs))) < rpm)
        [0..<length reqs] ! j"
    using j rate_run_nth [OF j, of rpm new_rate_counter]
    by (simp add: r new_rate_counter_def count_of_def)
qed

theorem rate_limit_per_minute_witness:
  "result (rate_run 1 [(''10.0.0.1'', 0), (''10.0.0.1'', 59 * second), (''10.0.0.2'', 59 * second), (''10.0.0.1'', 60 * second)])
     new_rate_counter = [True, False, True, True]"
proof -
  have y: "four_digit_year 0" "four_digit_year (59 * second)" "four_digit_year (60 * second)" by code_simp+
  let ?reqs = "[(''10.0.0.1'', 0), (''10.0.0.1'', 59 * second), (''10.0.0.2'', 59 * second), (''10.0.0.1'', 60 * second)]"
  have "list_all (\<lambda>(ip, t). four_digit_year t) ?reqs" using y by simp
  from rate_limit_per_minute [OF this, of 1] show ?thesis
    by (simp add: upt_conv_Cons minute_def second_def)
qed

end
