(* ===== verification/Handlers.thy ===== *)
theory Handlers
  imports Catalog Identifiers Identity User_Library Media_Fetch Predictive Rate_Limit
begin

text \<open>
  The HTTP handlers of \<open>internal/httpserver\<close>: \<open>public_handlers.go\<close>,
  \<open>library_handlers.go\<close>, \<open>predictive_handlers.go\<close> and the client check of
  \<open>middleware.go\<close>, over the services modelled in the other theories. The web framework is
  not part of the repository: a request is a record of what the handlers ask it for, a
  response what they hand back. Work that a handler leaves to a goroutine is returned as a
  job.
\<close>

section \<open>Requests and responses\<close>

record http_input =
  in_query :: "string \<Rightarrow> string"
  in_query_int :: "string \<Rightarrow> int \<Rightarrow> int"
  in_param :: "string \<Rightarrow> string"
  in_header :: "string \<Rightarrow> string"
  in_base :: string
  in_client :: int

datatype api_data =
    DHealth bool
  | DSession string string
  | DHome home_feed
  | DCards "anime_card list"
  | DSchedule "schedule_day list"
  | DIndex "string \<rightharpoonup> anime_card list"
  | DPropertyList property_list
  | DPage collection_page
  | DDetail anime_detail
  | DEpisodes string "episode list"
  | DStream stream_result
  | DWatchlist "watchlist_item list"
  | DHistory "history_item list"
  | DContinue "continue_item list"
  | DSavedWatch string
  | DSavedHistory string string
  | DDeleted
  | DWindow int string bool bool

datatype api_body =
    ApiError string string
  | ApiData api_data "(string \<times> string) list"
  | ApiBytes bytes
  | ApiStream "string + bytes"

record response =
  rs_status :: int
  rs_headers :: "string \<rightharpoonup> string"
  rs_body :: api_body

text \<open>\<open>ok\<close> and \<open>errEnvelope\<close>.\<close>

definition api_ok :: "int \<Rightarrow> api_data \<Rightarrow> (string \<times> string) list \<Rightarrow> response" where
  "api_ok status d meta = \<lparr>rs_status = status, rs_headers = Map.empty, rs_body = ApiData d meta\<rparr>"

definition api_err :: "int \<Rightarrow> string \<Rightarrow> string \<Rightarrow> response" where
  "api_err status code message = \<lparr>rs_status = status, rs_headers = Map.empty, rs_body = ApiError code message\<rparr>"

definition provider_failed :: "string \<Rightarrow> response" where
  "provider_failed err = api_err 502 ''provider_failed'' err"

definition storage_unavailable :: response where
  "storage_unavailable = api_err 503 ''storage_unavailable'' ''Database unavailable.''"

definition decode_path_param :: "string \<Rightarrow> string" where
  "decode_path_param v = (case path_unescape v of None \<Rightarrow> v | Some d \<Rightarrow> d)"

section \<open>The server\<close>

record 'o server =
  sv_provider :: string
  sv_ping :: "('o predictive_state, string option) eff"
  sv_catalog :: "'o predictive_state catalog_svc"
  sv_ids :: "'o predictive_state id_svc"
  sv_key_order :: "string set \<Rightarrow> string list"
  sv_identity :: "'o predictive_state identity_svc"
  sv_library :: "'o predictive_state library_svc"
  sv_stream :: "'o predictive_state stream_svc"
  sv_startup :: "'o predictive_state media_svc"
  sv_predictive :: "'o predictive_cache option"
  sv_image_client :: "http_request \<Rightarrow> ('o predictive_state, string + http_response) eff"
  sv_image_ttl :: duration
  sv_media_client :: "http_request \<Rightarrow> ('o predictive_state, string + http_response) eff"
  sv_media_fetch :: "'o predictive_state media_fetcher"
  sv_cache :: "'o predictive_state ttl_ops"
  sv_clients :: "('o predictive_state, client_row) table"

type_synonym 'o handler = "('o predictive_state, response) eff"

text \<open>The answer made of a provider result and a view of it.\<close>

definition answer :: "('o, string + 'a) peff \<Rightarrow> ('a \<Rightarrow> ('o, response) peff) \<Rightarrow> 'o handler" where
  "answer m view =
     do { data \<leftarrow> m;
          case data of Inl err \<Rightarrow> pass (provider_failed err) | Inr v \<Rightarrow> view v }"

subsection \<open>Pages\<close>

definition h_health :: "'o server \<Rightarrow> 'o handler" where
  "h_health s = do { err \<leftarrow> sv_ping s; pass (api_ok 200 (DHealth (err = None)) []) }"

definition h_session :: "'o server \<Rightarrow> http_input \<Rightarrow> 'o handler" where
  "h_session s i =
     do { client \<leftarrow> ensure_identity (sv_identity s) (in_header i ''X-Client-Token'');
          pass (case client of
                  Inl _ \<Rightarrow> storage_unavailable
                | Inr (c, _) \<Rightarrow>
                    (api_ok 200 (DSession (cl_token c) (''anon_'' @ itoa (row_id c))) [])
                      \<lparr>rs_headers := [''X-Client-Token'' \<mapsto> cl_token c]\<rparr>) }"

definition h_home :: "'o server \<Rightarrow> 'o handler" where
  "h_home s = answer (catalog_home (sv_catalog s))
     (\<lambda>v. do { p \<leftarrow> public_home (sv_ids s) v; pass (api_ok 200 (DHome p) [(''provider'', sv_provider s)]) })"

definition h_search :: "'o server \<Rightarrow> http_input \<Rightarrow> 'o handler" where
  "h_search s i =
     (let q = trim_space (in_query i ''q'')
      in if length q < 2
         then pass (api_err 400 ''invalid_query'' ''Search query must be at least 2 characters.'')
         else answer (catalog_search (sv_catalog s) q)
           (\<lambda>v. do { p \<leftarrow> public_cards (sv_ids s) v; pass (api_ok 200 (DCards p) [(''query'', q)]) }))"

definition h_schedule :: "'o server \<Rightarrow> 'o handler" where
  "h_schedule s = answer (catalog_schedule (sv_catalog s))
     (\<lambda>v. do { p \<leftarrow> public_schedule (sv_ids s) v; pass (api_ok 200 (DSchedule p) []) })"

definition h_index :: "'o server \<Rightarrow> 'o handler" where
  "h_index s = answer (catalog_index (sv_catalog s))
     (\<lambda>v. do { p \<leftarrow> public_index (sv_ids s) (sv_key_order s (dom v)) v; pass (api_ok 200 (DIndex p) []) })"

definition h_property_list :: "'o server \<Rightarrow> http_input \<Rightarrow> 'o handler" where
  "h_property_list s i = answer (catalog_property_list (sv_catalog s) (trim_space (in_param i ''kind'')))
     (\<lambda>v. pass (api_ok 200 (DPropertyList v) []))"

definition page_view :: "'o server \<Rightarrow> collection_page \<Rightarrow> 'o handler" where
  "page_view s v = do { p \<leftarrow> public_collection_page (sv_ids s) v; pass (api_ok 200 (DPage p) []) }"

definition h_property_catalog :: "'o server \<Rightarrow> http_input \<Rightarrow> 'o handler" where
  "h_property_catalog s i =
     answer (catalog_property_catalog (sv_catalog s) (trim_space (in_param i ''kind''))
       (decode_path_param (in_param i ''propertyId'')) (trim_space (in_query i ''order'')) (in_query_int i ''page'' 1))
       (page_view s)"

definition h_quick_catalog :: "'o server \<Rightarrow> http_input \<Rightarrow> 'o handler" where
  "h_quick_catalog s i =
     answer (catalog_quick_catalog (sv_catalog s) (trim_space (in_param i ''kind''))
       (trim_space (in_query i ''order'')) (in_query_int i ''page'' 1)) (page_view s)"

definition h_schedule_page :: "'o server \<Rightarrow> http_input \<Rightarrow> 'o handler" where
  "h_schedule_page s i =
     answer (catalog_schedule_page (sv_catalog s) (trim_space (in_query i ''day'')) (in_query_int i ''page'' 1)) (page_view s)"

definition h_seasonal_popular :: "'o server \<Rightarrow> 'o handler" where
  "h_seasonal_popular s = answer (catalog_seasonal_popular (sv_catalog s)) (page_view s)"

text \<open>Resolving the identifier in the path, or answering 400.\<close>

definition with_id ::
  "('o, id_error + string) peff \<Rightarrow> string \<Rightarrow> string \<Rightarrow> (string \<Rightarrow> 'o handler) \<Rightarrow> 'o handler" where
  "with_id m code message k =
     do { i \<leftarrow> m; case i of Inl _ \<Rightarrow> pass (api_err 400 code message) | Inr internal \<Rightarrow> k internal }"

definition h_catalog_detail :: "'o server \<Rightarrow> http_input \<Rightarrow> 'o handler" where
  "h_catalog_detail s i =
     with_id (resolve_catalog_id (sv_ids s) (decode_path_param (in_param i ''catalogId'')))
       ''invalid_identifier'' ''Catalog identifier is invalid.''
       (\<lambda>internal. answer (catalog_catalog (sv_catalog s) internal)
          (\<lambda>v. do { p \<leftarrow> public_detail (sv_ids s) v; pass (api_ok 200 (DDetail p) []) }))"

definition h_catalog_episodes :: "'o server \<Rightarrow> http_input \<Rightarrow> 'o handler" where
  "h_catalog_episodes s i =
     with_id (resolve_catalog_id (sv_ids s) (decode_path_param (in_param i ''catalogId'')))
       ''invalid_identifier'' ''Catalog identifier is invalid.''
       (\<lambda>internal. answer (catalog_episodes (sv_catalog s) internal)
          (\<lambda>v. do { c \<leftarrow> public_catalog_id (sv_ids s) internal;
                    p \<leftarrow> public_episodes (sv_ids s) v;
                    pass (api_ok 200 (DEpisodes c p) []) }))"

subsection \<open>Streams\<close>

text \<open>\<open>net.ParseIP\<close> on a host without brackets: four decimal numbers up to 255, no leading zero.\<close>

definition ip_octet :: "string \<Rightarrow> bool" where
  "ip_octet s \<longleftrightarrow> s \<noteq> [] \<and> list_all is_digit s \<and> length s \<le> 3 \<and> digits_val s \<le> 255 \<and> (length s > 1 \<longrightarrow> hd s \<noteq> CHR ''0'')"

definition parse_ip :: "string \<Rightarrow> bool" where
  "parse_ip host = (case split_char CHR ''.'' host of [a, b, c, d] \<Rightarrow> list_all ip_octet [a, b, c, d] | _ \<Rightarrow> False)"

definition is_local_media_url :: "string \<Rightarrow> bool" where
  "is_local_media_url raw =
     (case url_parse (trim_space raw) of
        None \<Rightarrow> False
      | Some u \<Rightarrow>
          u_path u = ''/api/v2/media''
          \<and> (hostname u = [] \<or> hostname u = ''localhost'' \<or> hostname u = ''127.0.0.1'' \<or> parse_ip (hostname u)))"

definition proxy_media_url :: "string \<Rightarrow> string \<Rightarrow> string \<Rightarrow> string \<Rightarrow> string" where
  "proxy_media_url base_url ep raw container =
     (if is_local_media_url raw then raw
      else base_url @ ''/api/v2/media?url='' @ query_escape raw @ ''&container='' @ query_escape container
             @ ''&episodeId='' @ query_escape ep)"

definition proxied :: "string \<Rightarrow> string \<Rightarrow> stream_candidate \<Rightarrow> stream_candidate" where
  "proxied base_url ep c =
     (if sc_direct c then c\<lparr>sc_url := proxy_media_url base_url ep (sc_url c) (sc_container c)\<rparr> else c)"

definition stream_response :: "string \<Rightarrow> stream_result \<Rightarrow> stream_result" where
  "stream_response base_url r =
     r\<lparr>sr_candidates := map (proxied base_url (sr_episode_id r)) (sr_candidates r),
       sr_preferred := map_option (proxied base_url (sr_episode_id r)) (sr_preferred r)\<rparr>"

definition h_stream_resolve :: "'o server \<Rightarrow> http_input \<Rightarrow> 'o handler" where
  "h_stream_resolve s i =
     with_id (resolve_episode_id (sv_ids s) (decode_path_param (in_param i ''episodeId'')))
       ''invalid_identifier'' ''Episode identifier is invalid.''
       (\<lambda>internal. answer (stream_resolve (sv_stream s) internal)
          (\<lambda>v. do { p \<leftarrow> public_stream (sv_ids s) v;
                    pass (api_ok 200 (DStream (stream_response (in_base i) p)) [(''provider'', sv_provider s)]) }))"

definition duration_seconds :: "duration \<Rightarrow> int" where
  "duration_seconds d = (if d < 0 then - ((- d) div second) else d div second)"

definition h_image :: "'o server \<Rightarrow> http_input \<Rightarrow> 'o handler" where
  "h_image s i =
     (let raw = in_query i ''url''
      in if trim_space raw = [] then pass (api_err 400 ''invalid_image_url'' ''Image URL is required.'')
         else if \<not> image_allowed raw
         then pass (api_err 403 ''image_host_not_allowed'' ''Image host is not allowed.'')
         else do { fetched \<leftarrow> image_fetch (sv_image_client s) raw;
                   pass (case fetched of
                           Inl err \<Rightarrow> api_err 502 ''image_fetch_failed'' err
                         | Inr (body, content_type) \<Rightarrow>
                             \<lparr>rs_status = 200,
                              rs_headers = [''Content-Type'' \<mapsto> content_type,
                                ''Cache-Control'' \<mapsto> ''public, max-age='' @ itoa (duration_seconds (sv_image_ttl s))],
                              rs_body = ApiBytes body\<rparr>) })"

end
