(* ===== verification/Client_Routes.thy ===== *)
theory Client_Routes
  imports Handlers
begin

text \<open>
  The routes of a client: \<open>requireClient\<close> of \<open>internal/httpserver/middleware.go\<close>, the
  watchlist, the history and the continue-watching list of \<open>library_handlers.go\<close>, and the
  warming of the next episodes of \<open>predictive_handlers.go\<close>. A body that does not parse is
  \<open>None\<close>. What the predictive handler leaves to a goroutine is returned as the window to
  prepare.
\<close>

section \<open>The client of a request\<close>

definition client_token_required :: response where
  "client_token_required = api_err 401 ''client_token_required'' ''Anonymous session required.''"

definition guard_client ::
  "'o server \<Rightarrow> http_input \<Rightarrow> 'a \<Rightarrow> (http_input \<Rightarrow> ('o, 'a) peff) \<Rightarrow> ('o, 'a) peff" where
  "guard_client s i refused next_handler =
     (let token = trim_space (in_header i ''X-Client-Token'')
      in if token = [] then pass refused
         else do { client \<leftarrow> find_client (sv_clients s) token;
                   case client of
                     Inl _ \<Rightarrow> pass refused
                   | Inr c \<Rightarrow> next_handler (i\<lparr>in_client := row_id c\<rparr>) })"

definition require_client :: "'o server \<Rightarrow> http_input \<Rightarrow> (http_input \<Rightarrow> 'o handler) \<Rightarrow> 'o handler" where
  "require_client s i next_handler = guard_client s i client_token_required next_handler"

section \<open>The library\<close>

definition invalid_payload :: "string \<Rightarrow> response" where
  "invalid_payload message = api_err 400 ''invalid_payload'' message"

definition h_watchlist :: "'o server \<Rightarrow> http_input \<Rightarrow> 'o handler" where
  "h_watchlist s i =
     do { items \<leftarrow> library_list_watchlist (sv_library s) (in_client i);
          case items of
            Inl _ \<Rightarrow> pass storage_unavailable
          | Inr xs \<Rightarrow> do { p \<leftarrow> public_watchlist (sv_ids s) xs; pass (api_ok 200 (DWatchlist p) []) } }"

definition h_save_watchlist :: "'o server \<Rightarrow> string option \<Rightarrow> http_input \<Rightarrow> 'o handler" where
  "h_save_watchlist s body i =
     (case body of
        None \<Rightarrow> pass (invalid_payload ''catalogId is required.'')
      | Some catalog \<Rightarrow>
          if catalog = [] then pass (invalid_payload ''catalogId is required.'')
          else with_id (resolve_catalog_id (sv_ids s) catalog) ''invalid_payload'' ''catalogId is invalid.''
            (\<lambda>internal. do { err \<leftarrow> library_save_watchlist (sv_library s) (in_client i) internal;
                             pass (case err of
                                     Some e \<Rightarrow> api_err 502 ''watchlist_failed'' e
                                   | None \<Rightarrow> api_ok 201 (DSavedWatch catalog) []) }))"

definition deleted :: "string option \<Rightarrow> response" where
  "deleted err = (case err of Some _ \<Rightarrow> storage_unavailable | None \<Rightarrow> api_ok 200 DDeleted [])"

definition h_delete_watchlist :: "'o server \<Rightarrow> http_input \<Rightarrow> 'o handler" where
  "h_delete_watchlist s i =
     with_id (resolve_catalog_id (sv_ids s) (decode_path_param (in_param i ''catalogId'')))
       ''invalid_payload'' ''catalogId is invalid.''
       (\<lambda>internal. do { err \<leftarrow> library_delete_watchlist (sv_library s) (in_client i) internal; pass (deleted err) })"

definition h_history :: "'o server \<Rightarrow> http_input \<Rightarrow> 'o handler" where
  "h_history s i =
     do { items \<leftarrow> library_list_history (sv_library s) (in_client i);
          case items of
            Inl _ \<Rightarrow> pass storage_unavailable
          | Inr xs \<Rightarrow> do { p \<leftarrow> public_history (sv_ids s) xs; pass (api_ok 200 (DHistory p) []) } }"

record history_input =
  hi_catalog_id :: string
  hi_episode_id :: string
  hi_position_seconds :: int
  hi_title_text :: string
  hi_cover_image :: string
  hi_provider_name :: string

definition h_save_history :: "'o server \<Rightarrow> history_input option \<Rightarrow> http_input \<Rightarrow> 'o handler" where
  "h_save_history s body i =
     (case body of
        None \<Rightarrow> pass (invalid_payload ''catalogId and episodeId are required.'')
      | Some b \<Rightarrow>
          if hi_catalog_id b = [] \<or> hi_episode_id b = []
          then pass (invalid_payload ''catalogId and episodeId are required.'')
          else with_id (resolve_catalog_id (sv_ids s) (hi_catalog_id b)) ''invalid_payload'' ''catalogId is invalid.''
            (\<lambda>catalog. with_id (resolve_episode_id (sv_ids s) (hi_episode_id b)) ''invalid_payload'' ''episodeId is invalid.''
              (\<lambda>ep. do { err \<leftarrow> library_save_history (sv_library s) (in_client i) catalog ep (hi_position_seconds b)
                                  (hi_title_text b) (hi_cover_image b) (hi_provider_name b);
                         pass (case err of
                                 Some _ \<Rightarrow> storage_unavailable
                               | None \<Rightarrow> api_ok 200 (DSavedHistory (hi_catalog_id b) (hi_episode_id b)) []) })))"

definition h_delete_history :: "'o server \<Rightarrow> http_input \<Rightarrow> 'o handler" where
  "h_delete_history s i =
     with_id (resolve_catalog_id (sv_ids s) (decode_path_param (in_param i ''catalogId'')))
       ''invalid_payload'' ''catalogId is invalid.''
       (\<lambda>internal. do { err \<leftarrow> library_delete_history (sv_library s) (in_client i) internal; pass (deleted err) })"

definition h_continue_watching :: "'o server \<Rightarrow> http_input \<Rightarrow> 'o handler" where
  "h_continue_watching s i =
     do { items \<leftarrow> library_continue (sv_library s) (in_client i);
          case items of
            Inl _ \<Rightarrow> pass storage_unavailable
          | Inr xs \<Rightarrow> do { p \<leftarrow> public_continue (sv_ids s) xs; pass (api_ok 200 (DContinue p) []) } }"

section \<open>Warming the next episodes\<close>

definition predictive_throttle :: duration where
  "predictive_throttle = 30 * second"

text \<open>The loop of \<open>normalizePredictiveEpisodeIDs\<close>, over what is still to come.\<close>

fun normalize_ids_loop :: "nat \<Rightarrow> string set \<Rightarrow> string list \<Rightarrow> string list \<Rightarrow> string list" where
  "normalize_ids_loop limit seen normalized [] = normalized"
| "normalize_ids_loop limit seen normalized (raw # rest) =
     (let ep = trim_space raw
      in if ep = [] \<or> ep \<in> seen then normalize_ids_loop limit seen normalized rest
         else if length (normalized @ [ep]) = limit then normalized @ [ep]
         else normalize_ids_loop limit (insert ep seen) (normalized @ [ep]) rest)"

definition normalize_predictive_ids :: "string list \<Rightarrow> int \<Rightarrow> string list" where
  "normalize_predictive_ids raws limit =
     (if limit \<le> 0 then [] else normalize_ids_loop (nat limit) {} [] raws)"

definition predictive_window_key :: "int \<Rightarrow> string list \<Rightarrow> string" where
  "predictive_window_key client ids = ''predictive-window:'' @ itoa client @ '':'' @ join '','' ids"

definition should_queue_window :: "'w ttl_ops option \<Rightarrow> int \<Rightarrow> string list \<Rightarrow> duration \<Rightarrow> ('w, bool) eff" where
  "should_queue_window mem client ids ttl =
     (case mem of
        None \<Rightarrow> pass False
      | Some c \<Rightarrow>
          if ids = [] then pass False
          else do { v \<leftarrow> cache_get c (predictive_window_key client ids);
                    case v of
                      Some _ \<Rightarrow> pass False
                    | None \<Rightarrow> do { cache_set c (predictive_window_key client ids) (CBool True) ttl; pass True } })"

text \<open>\<open>selectPredictiveCandidate\<close> and its loop, with the fallback found so far.\<close>

fun predictive_loop :: "stream_candidate option \<Rightarrow> stream_candidate list \<Rightarrow> stream_candidate option" where
  "predictive_loop fallback [] = fallback"
| "predictive_loop fallback (c # cs) =
     (if \<not> sc_direct c \<or> \<not> sc_playable c then predictive_loop fallback cs
      else if contains_str (to_lower (sc_quality c)) ''720'' then Some c
      else predictive_loop (if fallback = None then Some c else fallback) cs)"

definition select_predictive_candidate :: "stream_result \<Rightarrow> stream_candidate option" where
  "select_predictive_candidate r =
     (case sr_preferred r of
        Some c \<Rightarrow> if sc_direct c \<and> sc_playable c then Some c else predictive_loop None (sr_candidates r)
      | None \<Rightarrow> predictive_loop None (sr_candidates r))"

fun window_episodes :: "'o server \<Rightarrow> string list \<Rightarrow> ('o, predictive_episode list) peff" where
  "window_episodes s [] = pass []"
| "window_episodes s (public_ep # rest) =
     do { resolved \<leftarrow> resolve_episode_id (sv_ids s) public_ep;
          case resolved of
            Inl _ \<Rightarrow> window_episodes s rest
          | Inr internal \<Rightarrow>
              do { streamed \<leftarrow> stream_resolve (sv_stream s) internal;
                   case streamed of
                     Inl _ \<Rightarrow> window_episodes s rest
                   | Inr r \<Rightarrow>
                       (case select_predictive_candidate r of
                          None \<Rightarrow> window_episodes s rest
                        | Some c \<Rightarrow>
                            do { es \<leftarrow> window_episodes s rest;
                                 pass (\<lparr>pe_episode = internal, pe_candidate = c\<rparr> # es) }) } }"

definition prepare_predictive_window :: "'o server \<Rightarrow> int \<Rightarrow> string list \<Rightarrow> ('o, unit) peff" where
  "prepare_predictive_window s client ids =
     (if sv_predictive s = None \<or> ids = [] then pass ()
      else do { es \<leftarrow> window_episodes s ids;
                update_window (sv_predictive s) client es;
                pass () })"

record window_input =
  wi_current :: string
  wi_next :: "string list"

text \<open>The answer and the window left to a goroutine running \<open>prepare_predictive_window\<close>.\<close>

definition h_prime_window ::
  "'o server \<Rightarrow> window_input option \<Rightarrow> http_input \<Rightarrow> ('o, response \<times> string list option) peff" where
  "h_prime_window s body i =
     (case body of
        None \<Rightarrow> pass (invalid_payload ''Payload warmup episode tidak valid.'', None)
      | Some b \<Rightarrow>
          let ids = normalize_predictive_ids (wi_next b) 2;
              answer_with = (\<lambda>queued deduped job.
                (api_ok 202 (DWindow queued (wi_current b) deduped (sv_predictive s \<noteq> None)) [], job))
          in if sv_predictive s = None then pass (answer_with 0 False None)
             else if ids = [] then pass (answer_with 0 False None)
             else do { queue \<leftarrow> should_queue_window (Some (sv_cache s)) (in_client i) ids predictive_throttle;
                       pass (if queue then answer_with (int (length ids)) False (Some ids)
                             else answer_with 0 True None) })"

end
