(* ===== verification/Route_Props.thy ===== *)
theory Route_Props
  imports Media_Route Client_Routes Ref_Db
begin

text \<open>
  What the routes guarantee: a proxied stream URL leads back to the original URL, container
  and episode; media requests leave only for allowed hosts; an issued session passes the
  client check; the episodes of a window are a few distinct ones; the candidate that is
  warmed is a live one.
\<close>

section \<open>Proxied URLs\<close>

lemma parse_rest_query:
  "parse_rest s p rq fq
     = map_option (\<lambda>u. u\<lparr>u_raw_query := rq, u_force_query := fq\<rparr>) (parse_rest s p rq' fq')"
  by (auto simp: parse_rest_def set_path_def Let_def option.map_comp comp_def split: option.splits)

lemma url_parse_with_query:
  assumes "CHR ''?'' \<notin> set p" "CHR ''#'' \<notin> set p" "CHR ''#'' \<notin> set q" "\<not> list_ex is_ctl q"
    and "p \<noteq> ''*''" and "url_parse p = Some u"
  shows "url_parse (p @ CHR ''?'' # q) = Some (u\<lparr>u_raw_query := q, u_force_query := (q = [])\<rparr>)"
proof -
  have c: "cut CHR ''#'' (p @ CHR ''?'' # q) = None" "cut CHR ''#'' p = None"
    using assms by (auto simp: cut_None_iff)
  have star: "p @ CHR ''?'' # q \<noteq> ''*''" by (cases p) auto
  have ctl: "\<not> list_ex is_ctl p" using assms(6) by (auto simp: url_parse_def c parse_no_frag_def split: if_splits)
  then have ctl': "\<not> list_ex is_ctl (p @ CHR ''?'' # q)"
    using assms(4) by (auto simp: list_ex_iff is_ctl_def)
  obtain s r where g: "get_scheme p = Some (s, r)"
    using assms(5,6) ctl by (auto simp: url_parse_def c parse_no_frag_def split: option.splits)
  have "CHR ''?'' \<notin> set r"
    using scheme_loop_rest [of p "[]" p s r "CHR ''?''"] g assms(1) by (simp add: get_scheme_def)
  then have q1: "cut_query (r @ CHR ''?'' # q) = (r, q, q = [])" "cut_query r = (r, [], False)"
    by (simp_all add: cut_query_def cut_None_iff [THEN iffD2])
  have g': "get_scheme (p @ CHR ''?'' # q) = Some (s, r @ CHR ''?'' # q)"
    using g by (simp add: get_scheme_def scheme_loop_cut)
  have "parse_rest (to_lower s) r [] False = Some u"
    using assms(5,6) ctl by (simp add: url_parse_def c parse_no_frag_def g q1)
  then have "parse_rest (to_lower s) r q (q = []) = Some (u\<lparr>u_raw_query := q, u_force_query := (q = [])\<rparr>)"
    using parse_rest_query [of "to_lower s" r q "q = []" "[]" False] by simp
  then show ?thesis using ctl' star by (simp add: url_parse_def c parse_no_frag_def g' q1)
qed

lemma unreserved_no_ctl: "unreserved c \<Longrightarrow> \<not> is_ctl c"
  unfolding unreserved_def
proof (elim disjE)
  assume "c \<in> set ''-_.~''"
  then show ?thesis by (simp add: is_ctl_def) (elim disjE; simp)
qed (auto simp: is_ctl_def is_alpha_def is_digit_def)

lemma query_escape_no_ctl: "\<not> list_ex is_ctl (query_escape s)"
proof
  assume "list_ex is_ctl (query_escape s)"
  then obtain c where "c \<in> set (query_escape s)" "is_ctl c" by (auto simp: list_ex_iff)
  with query_escape_safe [OF this(1)] unreserved_no_ctl show False by (auto simp: is_ctl_def)
qed

definition proxy_query :: "string \<Rightarrow> string \<Rightarrow> string \<Rightarrow> string" where
  "proxy_query raw container ep =
     ''url='' @ query_escape raw @ ''&container='' @ query_escape container @ ''&episodeId='' @ query_escape ep"

lemma query_pair_escaped:
  assumes "list_all unreserved k" "k \<noteq> []"
  shows "query_pair (k @ CHR ''='' # query_escape v) = Some (k, v)"
proof -
  have "c \<notin> set k" if "c \<in> set ''=;%+''" for c
    using assms(1) that by (auto simp: list_all_iff unreserved_def is_alpha_def is_digit_def)
  then have k: "CHR ''='' \<notin> set k" "CHR '';'' \<notin> set k" "CHR ''%'' \<notin> set k" "CHR ''+'' \<notin> set k" by auto
  then have "unescape EscQuery k = Some k" by (induction k) auto
  then show ?thesis using k query_escape_no_reserved [of "CHR '';''" v] by (simp add: query_pair_def Let_def)
qed

lemma query_get_proxy:
  "query_get (proxy_query raw container ep) ''url'' = raw"
  "query_get (proxy_query raw container ep) ''container'' = container"
  "query_get (proxy_query raw container ep) ''episodeId'' = ep"
proof -
  let ?u = "''url'' @ CHR ''='' # query_escape raw" and ?c = "''container'' @ CHR ''='' # query_escape container"
  let ?e = "''episodeId'' @ CHR ''='' # query_escape ep"
  have a: "CHR ''&'' \<notin> set (query_escape s)" for s using query_escape_no_reserved [of "CHR ''&''" s] by simp
  have "proxy_query raw container ep = ?u @ CHR ''&'' # (?c @ CHR ''&'' # ?e)" by (simp add: proxy_query_def)
  then have s: "split_char CHR ''&'' (proxy_query raw container ep) = [?u, ?c, ?e]"
    using a by (simp only: split_char_append) (simp add: split_char_single)
  have "query_pair ?u = Some (''url'', raw)" "query_pair ?c = Some (''container'', container)"
    "query_pair ?e = Some (''episodeId'', ep)"
    by (rule query_pair_escaped, code_simp, simp)+
  then have "parse_query (proxy_query raw container ep) = [(''url'', raw), (''container'', container), (''episodeId'', ep)]"
    by (simp add: parse_query_def s map_filter_def del: append.simps)
  then show "query_get (proxy_query raw container ep) ''url'' = raw"
    "query_get (proxy_query raw container ep) ''container'' = container"
    "query_get (proxy_query raw container ep) ''episodeId'' = ep"
    by (simp_all add: query_get_def)
qed



section \<open>Outgoing requests\<close>

definition with_client ::
  "(http_request \<Rightarrow> ('o predictive_state, string + http_response) eff) \<Rightarrow> 'o server \<Rightarrow> 'o server" where
  "with_client client s =
     s\<lparr>sv_media_client := client, sv_media_fetch := (sv_media_fetch s)\<lparr>mf_fetch := proxy_fetch client\<rparr>\<rparr>"

definition only_allowed ::
  "(http_request \<Rightarrow> ('w, string + http_response) eff) \<Rightarrow> (http_request \<Rightarrow> ('w, string + http_response) eff)
   \<Rightarrow> http_request \<Rightarrow> ('w, string + http_response) eff" where
  "only_allowed client other r = (if media_allowed (hq_url r) then client r else other r)"

lemma hq_url_media_request: "hq_url (media_request raw range_header) = raw"
  by (simp add: media_request_def Let_def)

lemma proxy_fetch_only_allowed: "proxy_fetch (only_allowed client other) = proxy_fetch client"
proof -
  have o: "only_allowed client other (media_request raw h) = client (media_request raw h)" if "media_allowed raw" for raw h
    using that by (simp add: only_allowed_def hq_url_media_request)
  have "proxy_fetch (only_allowed client other) raw h = proxy_fetch client raw h" for raw h
    by (cases "media_allowed raw") (simp_all only: proxy_fetch_def o simp_thms if_True if_False)
  then show ?thesis by (intro ext)
qed


section \<open>Sessions\<close>


section \<open>Windows\<close>

lemma normalize_ids_loop_eq:
  "\<lbrakk>length acc < limit; set acc = seen\<rbrakk> \<Longrightarrow> normalize_ids_loop limit seen acc raws
     = take limit (acc @ dedup_by id seen (filter (\<lambda>e. e \<noteq> []) (map trim_space raws)))"
proof (induction limit seen acc raws rule: normalize_ids_loop.induct)
  case (2 limit seen acc raw rest)
  let ?e = "trim_space raw"
  consider "?e = [] \<or> ?e \<in> seen" | "?e \<noteq> []" "?e \<notin> seen" "Suc (length acc) = limit"
    | "?e \<noteq> []" "?e \<notin> seen" "Suc (length acc) < limit"
    using 2(3) by linarith
  then show ?case
  proof cases
    case 1
    then show ?thesis using 2 by auto
  next
    case 2
    then show ?thesis by (auto simp: Let_def)
  next
    case 3
    then show ?thesis using "2.IH"(2) [OF refl] "2.prems" by (simp add: Let_def)
  qed
qed simp

lemma normalize_predictive_ids_eq:
  "normalize_predictive_ids raws limit
     = take (nat limit) (dedup_by id {} (filter (\<lambda>e. e \<noteq> []) (map trim_space raws)))"
  by (simp add: normalize_predictive_ids_def normalize_ids_loop_eq)

lemma normalize_predictive_ids_props:
  "distinct (normalize_predictive_ids raws limit)" "length (normalize_predictive_ids raws limit) \<le> nat limit"
  "ep \<in> set (normalize_predictive_ids raws limit) \<Longrightarrow> ep \<noteq> [] \<and> ep \<in> trim_space ` set raws"
proof -
  let ?l = "filter (\<lambda>e. e \<noteq> []) (map trim_space raws)"
  show "distinct (normalize_predictive_ids raws limit)"
    using dedup_by_distinct [of id "{}" ?l] by (simp add: normalize_predictive_ids_eq)
  show "length (normalize_predictive_ids raws limit) \<le> nat limit" by (simp add: normalize_predictive_ids_eq)
  show "ep \<noteq> [] \<and> ep \<in> trim_space ` set raws" if "ep \<in> set (normalize_predictive_ids raws limit)"
    using that dedup_by_set [of id "{}" ?l] set_take_subset [of "nat limit" "dedup_by id {} ?l"]
    by (auto simp: normalize_predictive_ids_eq)
qed

definition is_720 :: "stream_candidate \<Rightarrow> bool" where
  "is_720 c \<longleftrightarrow> contains_str (to_lower (sc_quality c)) ''720''"

lemma predictive_loop_eq:
  "predictive_loop fb cs = (let live = filter is_live cs in
     case find is_720 live of Some c \<Rightarrow> Some c
     | None \<Rightarrow> (case fb of Some c \<Rightarrow> Some c | None \<Rightarrow> (case live of [] \<Rightarrow> None | c # _ \<Rightarrow> Some c)))"
  by (induction fb cs rule: predictive_loop.induct)
    (auto simp: Let_def is_live_def is_720_def split: option.splits)

text \<open>
  The candidate that is warmed is the preferred stream if that is live, otherwise the
  first live candidate of 720p, otherwise the first live one; there is none exactly when no
  stream is live.
\<close>

theorem predictive_candidate_spec:
  "select_predictive_candidate r =
     (case filter is_live (case_option [] (\<lambda>c. [c]) (sr_preferred r)) of
        c # _ \<Rightarrow> Some c
      | [] \<Rightarrow> (case filter is_720 (filter is_live (sr_candidates r)) @ filter is_live (sr_candidates r) of
                [] \<Rightarrow> None
              | c # _ \<Rightarrow> Some c))"
proof -
  have f: "find P xs = (case filter P xs of [] \<Rightarrow> None | c # _ \<Rightarrow> Some c)" for P and xs :: "stream_candidate list"
    by (induction xs) auto
  show ?thesis
    by (auto simp: select_predictive_candidate_def predictive_loop_eq f is_live_def [symmetric] Let_def
        split: option.split list.split)
qed

text \<open>
  C20. Asking twice for the same window within its throttle time leaves one window to
  prepare: the second request is answered as a duplicate.
\<close>

theorem window_queued_once:
  assumes "ttl_store (sv_cache s) view" and "sv_predictive s = Some p"
    and "normalize_predictive_ids (wi_next b) 2 = ids" "ids \<noteq> []"
    and "view w (predictive_window_key (in_client i) ids) = None"
  shows "snd (result (h_prime_window s (Some b) i) w) = Some ids
    \<and> snd (result (h_prime_window s (Some b) i) (after (h_prime_window s (Some b) i) w)) = None
    \<and> rs_body (fst (result (h_prime_window s (Some b) i) (after (h_prime_window s (Some b) i) w)))
      = ApiData (DWindow 0 (wi_current b) True True) []"
proof -
  have t: "0 \<le> predictive_throttle" by (simp add: predictive_throttle_def second_def)
  show ?thesis
    using assms(2-) ttl_store.get_result [OF assms(1)] ttl_store.get_view [OF assms(1)]
      ttl_store.set_view [OF assms(1) t]
    by (auto simp: h_prime_window_def should_queue_window_def Let_def cache_set_def api_ok_def)
qed

section \<open>Concrete requests\<close>

definition sample_input :: "string \<Rightarrow> http_input" where
  "sample_input token =
     \<lparr>in_query = (\<lambda>_. []), in_query_int = (\<lambda>_ n. n), in_param = (\<lambda>_. []),
      in_header = (\<lambda>k. if k = ''X-Client-Token'' then token else []), in_base = ''http://localhost'', in_client = 1\<rparr>"

type_synonym session_world = "unit client_row_ext ref_db predictive_state"

definition session_table :: "(session_world, client_row) table" where
  "session_table = lift_table ps_outside (\<lambda>s w. w\<lparr>ps_outside := s\<rparr>) ref_table"

definition session_identity :: "session_world identity_svc" where
  "session_identity = \<lparr>iy_clients = session_table, iy_random = pass (replicate 24 7)\<rparr>"

interpretation session_clients: client_table session_table "\<lambda>w. ref_rows_view (ps_outside w)"
  unfolding client_table_def session_table_def by (rule gorm_lift) (simp_all add: ref_table.gorm_table_axioms)

interpretation session_identity: identity_world session_identity "\<lambda>w. ref_rows_view (ps_outside w)"
  unfolding identity_world_def identity_world_axioms_def
  by (simp add: session_identity_def session_clients.client_table_axioms)


definition lift_ttl :: "('w \<Rightarrow> 's) \<Rightarrow> ('s \<Rightarrow> 'w \<Rightarrow> 'w) \<Rightarrow> 's ttl_ops \<Rightarrow> 'w ttl_ops" where
  "lift_ttl get put c =
     \<lparr>ttl_get = (\<lambda>k. lift_eff get put (ttl_get c k)),
      ttl_set = (\<lambda>k v d. lift_eff get put (ttl_set c k v d)),
      ttl_delete = (\<lambda>k. lift_eff get put (ttl_delete c k))\<rparr>"

definition window_cache :: "ref_cache predictive_state ttl_ops" where
  "window_cache = lift_ttl ps_outside (\<lambda>s w. w\<lparr>ps_outside := s\<rparr>) ref_cache_ops"

interpretation window_cache: ttl_store window_cache "\<lambda>w. rc_view (ps_outside w)"
  by unfold_locales
    (simp_all add: window_cache_def lift_ttl_def ref_cache.get_result ref_cache.get_view ref_cache.set_view ref_cache.delete_view)

theorem window_queued_once_witness:
  "\<forall>s p. let s' = s\<lparr>sv_cache := window_cache, sv_predictive := Some p\<rparr>;
          w = \<lparr>ps_entries = Map.empty, ps_windows = Map.empty, ps_outside = \<lparr>rc_clock = 0, rc_default = 1, rc_items = Map.empty\<rparr>\<rparr>;
          request = h_prime_window s' (Some \<lparr>wi_current = ''e1'', wi_next = ['' e2'', ''e3'', ''e2'']\<rparr>) (sample_input [])
        in snd (result request w) = Some [''e2'', ''e3''] \<and> snd (result request (after request w)) = None"
proof (intro allI)
  fix s :: "ref_cache server" and p
  let ?s = "s\<lparr>sv_cache := window_cache, sv_predictive := Some p\<rparr>"
  let ?w = "\<lparr>ps_entries = Map.empty, ps_windows = Map.empty, ps_outside = \<lparr>rc_clock = 0, rc_default = 1, rc_items = Map.empty\<rparr>\<rparr>"
  let ?b = "\<lparr>wi_current = ''e1'', wi_next = ['' e2'', ''e3'', ''e2'']\<rparr>"
  have ids: "normalize_predictive_ids (wi_next ?b) 2 = [''e2'', ''e3'']" by code_simp
  have "ttl_store (sv_cache ?s) (\<lambda>w. rc_view (ps_outside w))" by (simp add: window_cache.ttl_store_axioms)
  from window_queued_once [OF this _ ids, where p = p and w = ?w and i = "sample_input []"]
  show "let s' = ?s; w = ?w; request = h_prime_window s' (Some ?b) (sample_input [])
    in snd (result request w) = Some [''e2'', ''e3''] \<and> snd (result request (after request w)) = None"
    unfolding Let_def by (simp add: rc_view_def)
qed

end
