(* ===== verification/Go_Regexp.thy ===== *)
theory Go_Regexp
  imports Go_Strings
begin

text \<open>
  The part of Go's package \<open>regexp\<close> the scrapers use. A pattern is a term of \<open>re\<close>, its
  matches at the start of a text are listed in order of preference (greedy repetition,
  left alternative first), so that the head of the list is the match Go reports; searching
  takes the leftmost position that has one. The matches are exactly those of the language of
  the pattern, \<open>re_match\<close>. Classes are sets of bytes: a negated class of ASCII characters
  matches the bytes of any other rune one by one.
\<close>

section \<open>Patterns\<close>

datatype re =
    Eps
  | Cls "char \<Rightarrow> bool"
  | Cat re re
  | Alt re re
  | Star re
  | Group re

definition re_plus :: "re \<Rightarrow> re" where
  "re_plus r = Cat r (Star r)"

definition re_opt :: "re \<Rightarrow> re" where
  "re_opt r = Alt r Eps"

fun lit :: "string \<Rightarrow> re" where
  "lit [] = Eps"
| "lit (c # s) = Cat (Cls (\<lambda>x. x = c)) (lit s)"

fun re_cat :: "re list \<Rightarrow> re" where
  "re_cat [] = Eps"
| "re_cat (r # rs) = Cat r (re_cat rs)"

definition re_digit :: re where
  "re_digit = Cls is_digit"

definition re_space :: re where
  "re_space = Cls (\<lambda>c. c \<in> {CHR 0x20, CHR 0x09, CHR 0x0A, CHR 0x0C, CHR 0x0D})"

definition none_of :: "char list \<Rightarrow> re" where
  "none_of cs = Cls (\<lambda>c. c \<notin> set cs)"

definition one_of :: "char list \<Rightarrow> re" where
  "one_of cs = Cls (\<lambda>c. c \<in> set cs)"

section \<open>Matching\<close>

text \<open>A match is what is left of the text, with the captured groups from left to right.\<close>

type_synonym match = "string \<times> string list"

fun star_matches :: "(string \<Rightarrow> match list) \<Rightarrow> nat \<Rightarrow> string \<Rightarrow> match list" where
  "star_matches f 0 s = [(s, [])]"
| "star_matches f (Suc n) s =
     concat (map (\<lambda>(t, c). map (\<lambda>(u, d). (u, c @ d)) (star_matches f n t))
       (filter (\<lambda>(t, c). length t < length s) (f s))) @ [(s, [])]"

primrec matches :: "re \<Rightarrow> string \<Rightarrow> match list" where
  "matches Eps s = [(s, [])]"
| "matches (Cls p) s = (case s of [] \<Rightarrow> [] | c # t \<Rightarrow> if p c then [(t, [])] else [])"
| "matches (Cat a b) s = concat (map (\<lambda>(t, c). map (\<lambda>(u, d). (u, c @ d)) (matches b t)) (matches a s))"
| "matches (Alt a b) s = matches a s @ matches b s"
| "matches (Star a) s = star_matches (matches a) (length s) s"
| "matches (Group a) s = map (\<lambda>(t, c). (t, take (length s - length t) s # c)) (matches a s)"

text \<open>The leftmost match: the text matched with its groups, and what follows it.\<close>

fun find_from :: "re \<Rightarrow> string \<Rightarrow> (string list \<times> string) option" where
  "find_from r s =
     (case matches r s of
        (t, c) # _ \<Rightarrow> Some (take (length s - length t) s # c, t)
      | [] \<Rightarrow> (case s of [] \<Rightarrow> None | _ # s' \<Rightarrow> find_from r s'))"

declare find_from.simps [simp del]

definition find_submatch :: "re \<Rightarrow> string \<Rightarrow> string list option" where
  "find_submatch r s = map_option fst (find_from r s)"

definition find_string :: "re \<Rightarrow> string \<Rightarrow> string" where
  "find_string r s = (case find_submatch r s of Some (m # _) \<Rightarrow> m | _ \<Rightarrow> [])"

text \<open>All matches, none overlapping, for patterns that never match the empty text.\<close>

function find_all :: "re \<Rightarrow> string \<Rightarrow> string list list" where
  "find_all r s =
     (case find_from r s of
        None \<Rightarrow> []
      | Some (m, t) \<Rightarrow> if length t < length s then m # find_all r t else [])"
  by pat_completeness auto

termination by (relation "measure (\<lambda>(r, s). length s)") auto

declare find_all.simps [simp del]

function replace_all_re :: "re \<Rightarrow> string \<Rightarrow> string \<Rightarrow> string" where
  "replace_all_re r new [] = []"
| "replace_all_re r new (x # s) =
     (case matches r (x # s) of
        (t, _) # _ \<Rightarrow> if length t \<le> length s then new @ replace_all_re r new t else x # replace_all_re r new s
      | [] \<Rightarrow> x # replace_all_re r new s)"
  by pat_completeness auto

termination by (relation "measure (\<lambda>(r, new, s). length s)") auto

section \<open>The language of a pattern\<close>

inductive re_match :: "re \<Rightarrow> string \<Rightarrow> string list \<Rightarrow> bool" where
  eps: "re_match Eps [] []"
| cls: "p c \<Longrightarrow> re_match (Cls p) [c] []"
| cat: "\<lbrakk>re_match a u c; re_match b v d\<rbrakk> \<Longrightarrow> re_match (Cat a b) (u @ v) (c @ d)"
| alt1: "re_match a u c \<Longrightarrow> re_match (Alt a b) u c"
| alt2: "re_match b u c \<Longrightarrow> re_match (Alt a b) u c"
| star0: "re_match (Star a) [] []"
| star1: "\<lbrakk>re_match a u c; u \<noteq> []; re_match (Star a) v d\<rbrakk> \<Longrightarrow> re_match (Star a) (u @ v) (c @ d)"
| group: "re_match a u c \<Longrightarrow> re_match (Group a) u (u # c)"

inductive_cases re_match_elims:
  "re_match Eps u c" "re_match (Cls p) u c" "re_match (Cat a b) u c" "re_match (Alt a b) u c" "re_match (Group a) u c"

inductive_cases re_match_star: "re_match (Star a) u c"

inductive_simps re_match_simps:
  "re_match Eps u c" "re_match (Cls p) u c" "re_match (Cat a b) u c" "re_match (Alt a b) u c" "re_match (Group a) u c"

lemma star_matches_step:
  "(t, c) \<in> set (star_matches f (Suc n) s) \<longleftrightarrow>
     (\<exists>t' c' d. (t', c') \<in> set (f s) \<and> length t' < length s \<and> (t, d) \<in> set (star_matches f n t') \<and> c = c' @ d)
     \<or> t = s \<and> c = []"
  by force

lemma star_matches_sound:
  assumes f: "\<And>s t c. (t, c) \<in> set (f s) \<longleftrightarrow> (\<exists>u. s = u @ t \<and> re_match a u c)"
  shows "(t, c) \<in> set (star_matches f n s) \<Longrightarrow> \<exists>u. s = u @ t \<and> re_match (Star a) u c"
proof (induction n arbitrary: s t c)
  case (Suc n)
  from Suc.prems [unfolded star_matches_step] show ?case
  proof (elim disjE exE conjE)
    fix t' c' d assume m: "(t', c') \<in> set (f s)" "length t' < length s" "(t, d) \<in> set (star_matches f n t')" "c = c' @ d"
    obtain u where u: "s = u @ t'" "re_match a u c'" using m(1) f by auto
    obtain v where "t' = v @ t" "re_match (Star a) v d" using Suc.IH [OF m(3)] by blast
    moreover have "u \<noteq> []" using u m(2) by auto
    ultimately show ?thesis using star1 [OF u(2)] u(1) m(4) by fastforce
  qed (auto intro: star0)
qed (auto intro: star0)

lemma star_matches_complete:
  assumes f: "\<And>s t c. (t, c) \<in> set (f s) \<longleftrightarrow> (\<exists>u. s = u @ t \<and> re_match a u c)"
  shows "\<lbrakk>re_match (Star a) w c; length (w @ t) \<le> n\<rbrakk> \<Longrightarrow> (t, c) \<in> set (star_matches f n (w @ t))"
proof (induction n arbitrary: w c)
  case 0
  then show ?case by (auto elim: re_match_star)
next
  case (Suc n)
  from Suc.prems(1) consider "w = []" "c = []"
    | u c' v d where "w = u @ v" "c = c' @ d" "re_match a u c'" "u \<noteq> []" "re_match (Star a) v d"
    by (auto elim: re_match_star)
  then show ?case
  proof cases
    case (2 u c' v d)
    have "(v @ t, c') \<in> set (f (w @ t))" using f 2 by fastforce
    moreover have "(t, d) \<in> set (star_matches f n (v @ t))"
      using Suc.IH [OF 2(5)] Suc.prems(2) 2 by (cases u) auto
    moreover have "length (v @ t) < length (w @ t)" using 2 by simp
    ultimately show ?thesis unfolding star_matches_step using 2(2) by blast
  qed (simp add: star_matches_step)
qed

lemma star_matches_iff:
  assumes "\<And>s t c. (t, c) \<in> set (f s) \<longleftrightarrow> (\<exists>u. s = u @ t \<and> re_match a u c)" and "length s \<le> n"
  shows "(t, c) \<in> set (star_matches f n s) \<longleftrightarrow> (\<exists>u. s = u @ t \<and> re_match (Star a) u c)"
  using star_matches_sound [OF assms(1)] star_matches_complete [OF assms(1)] assms(2) by blast

text \<open>The matches listed are those of the language.\<close>

lemma matches_iff: "(t, c) \<in> set (matches r s) \<longleftrightarrow> (\<exists>u. s = u @ t \<and> re_match r u c)"
proof (induction r arbitrary: s t c)
  case (Cat a b)
  have "(t, c) \<in> set (matches (Cat a b) s)
      \<longleftrightarrow> (\<exists>t' c' d. (t', c') \<in> set (matches a s) \<and> (t, d) \<in> set (matches b t') \<and> c = c' @ d)" by force
  also have "\<dots> \<longleftrightarrow> (\<exists>u. s = u @ t \<and> re_match (Cat a b) u c)"
    unfolding Cat.IH re_match_simps(3) by auto metis+
  finally show ?case .
next
  case (Star a)
  then show ?case using star_matches_iff [of "matches a" a s "length s"] by simp
next
  case (Group a)
  have "(t, c) \<in> set (matches (Group a) s)
      \<longleftrightarrow> (\<exists>d. (t, d) \<in> set (matches a s) \<and> c = take (length s - length t) s # d)" by force
  also have "\<dots> \<longleftrightarrow> (\<exists>u. s = u @ t \<and> re_match (Group a) u c)"
    unfolding Group.IH re_match_simps(5) by auto
  finally show ?case .
qed (auto simp: re_match_simps split: list.split)

text \<open>The match found belongs to the language, and there is one if any part of the text does.\<close>

lemma find_from_Some:
  "find_from r s = Some (m, t) \<Longrightarrow> \<exists>u c. s = u @ hd m @ t \<and> m = hd m # c \<and> re_match r (hd m) c"
proof (induction r s rule: find_from.induct)
  case (1 r s)
  show ?case
  proof (cases "matches r s")
    case Nil
    then obtain x s' where s: "s = x # s'" "find_from r s' = Some (m, t)"
      using 1(2) by (auto simp: find_from.simps [of r s] split: list.splits)
    then obtain u c where "s' = u @ hd m @ t" "m = hd m # c" "re_match r (hd m) c" using 1(1) [OF Nil s(1)] by blast
    then show ?thesis using s(1) by (intro exI [of _ "x # u"] exI [of _ c]) auto
  next
    case (Cons y ys)
    obtain t' c where y: "y = (t', c)" by force
    then have m: "m = take (length s - length t') s # c" "t' = t" using 1(2) Cons by (auto simp: find_from.simps [of r s])
    have "(t', c) \<in> set (matches r s)" using Cons y by simp
    then obtain u where "s = u @ t'" "re_match r u c" by (auto simp: matches_iff)
    then show ?thesis using m by auto
  qed
qed

lemma find_from_None: "find_from r s = None \<Longrightarrow> \<not> (\<exists>u v w c. s = u @ v @ w \<and> re_match r v c)"
proof (induction r s rule: find_from.induct)
  case (1 r s)
  have n: "matches r s = []" using 1(2) by (auto simp: find_from.simps [of r s] split: list.splits)
  then have none: "\<not> re_match r v c" if "s = v @ w" for v w c
    using matches_iff [of w c r s] that by auto
  show ?case
  proof (cases s)
    case Nil
    then show ?thesis using none by auto
  next
    case (Cons x s')
    have "find_from r s' = None" using 1(2) n unfolding Cons by (simp add: find_from.simps [of r "x # s'"])
    then have later: "\<not> re_match r v c" if "s' = u @ v @ w" for u v w c using 1(1) [OF n Cons] that by blast
    have "\<not> re_match r v c" if s: "s = u @ v @ w" for u v w c
    proof (cases u)
      case Nil
      then show ?thesis using none that by simp
    next
      case (Cons y u')
      then have "s' = u' @ v @ w" using \<open>s = x # s'\<close> s by simp
      then show ?thesis by (rule later)
    qed
    then show ?thesis by blast
  qed
qed

section \<open>Greedy classes\<close>

lemma concat_single: "concat (map (\<lambda>x. [f x]) xs) = map f xs"
  by (induction xs) auto

lemma drops_Cons:
  "map (\<lambda>k. (drop k (c # t), d)) (rev [0..<Suc n]) = map (\<lambda>k. (drop k t, d)) (rev [0..<n]) @ [(c # t, d)]"
  by (induction n) simp_all

lemma drops_Cons1:
  "map (\<lambda>k. (drop k (c # t), d)) (rev [1..<Suc n]) = map (\<lambda>k. (drop k t, d)) (rev [0..<n])"
  by (induction n) simp_all

lemma star_matches_cls:
  "length s \<le> n \<Longrightarrow> star_matches (matches (Cls p)) n s
     = map (\<lambda>k. (drop k s, [])) (rev [0..<Suc (length (takeWhile p s))])"
proof (induction n arbitrary: s)
  case (Suc n)
  show ?case
  proof (cases s)
    case (Cons c t)
    show ?thesis
    proof (cases "p c")
      case True
      then have "star_matches (matches (Cls p)) (Suc n) s = star_matches (matches (Cls p)) n t @ [(s, [])]"
        unfolding Cons by simp
      also have "star_matches (matches (Cls p)) n t = map (\<lambda>k. (drop k t, [])) (rev [0..<Suc (length (takeWhile p t))])"
        by (rule Suc.IH) (use Suc.prems Cons in simp)
      finally show ?thesis unfolding Cons using True by (simp only: drops_Cons takeWhile.simps if_True length_Cons)
    qed (simp add: Cons)
  qed simp
qed simp

lemma matches_star_cls:
  "matches (Star (Cls p)) s = map (\<lambda>k. (drop k s, [])) (rev [0..<Suc (length (takeWhile p s))])"
  by (simp only: matches.simps(5) star_matches_cls le_refl)

text \<open>A literal, and a class repeated at least once, both at the head of a text.\<close>

lemma matches_lit [simp]: "matches (lit w) s = (if prefix w s then [(drop (length w) s, [])] else [])"
  by (induction w arbitrary: s) (auto split: list.split)

lemma matches_plus_cls:
  "matches (re_plus (Cls p)) s = map (\<lambda>k. (drop k s, [])) (rev [1..<Suc (length (takeWhile p s))])"
proof (cases s)
  case (Cons c t)
  show ?thesis
  proof (cases "p c")
    case True
    then have "matches (re_plus (Cls p)) s = matches (Star (Cls p)) t"
      unfolding Cons re_plus_def by simp
    then show ?thesis unfolding Cons using True
      by (simp only: matches_star_cls drops_Cons1 takeWhile.simps if_True length_Cons)
  qed (simp add: Cons re_plus_def)
qed (simp add: re_plus_def)

end
