(* ===== verification/Html.thy ===== *)
theory Html
  imports Go_Regexp Provider Proxies
begin

text \<open>
  What the scrapers share: the HTML library they read pages with, which is not part of the
  repository and is a record of its operations, and fetching a page. A selection is a list of
  nodes; \<open>Each\<close> visits the nodes of a selection one by one, each as a selection of its own.
\<close>

record 'n html =
  hl_parse :: "string \<Rightarrow> string + 'n list"
  hl_print :: "'n list \<Rightarrow> string + string"
  hl_find :: "'n list \<Rightarrow> string \<Rightarrow> 'n list"
  hl_prev :: "'n list \<Rightarrow> 'n list"
  hl_attr :: "'n \<Rightarrow> string \<Rightarrow> string option"
  hl_text :: "'n list \<Rightarrow> string"
  hl_name :: "'n list \<Rightarrow> string"
  hl_has_class :: "'n list \<Rightarrow> string \<Rightarrow> bool"
  hl_unescape :: "string \<Rightarrow> string"

text \<open>\<open>First\<close>, \<open>Eq\<close>, and \<open>Attr\<close> of the first node, with and without the test for presence.\<close>

definition sel_first :: "'n list \<Rightarrow> 'n list" where
  "sel_first sel = take 1 sel"

definition sel_eq :: "nat \<Rightarrow> 'n list \<Rightarrow> 'n list" where
  "sel_eq k sel = take 1 (drop k sel)"

definition attr_opt :: "'n html \<Rightarrow> 'n list \<Rightarrow> string \<Rightarrow> string option" where
  "attr_opt h sel name = (case sel of [] \<Rightarrow> None | n # _ \<Rightarrow> hl_attr h n name)"

definition attr :: "'n html \<Rightarrow> 'n list \<Rightarrow> string \<Rightarrow> string" where
  "attr h sel name = (case attr_opt h sel name of None \<Rightarrow> [] | Some v \<Rightarrow> v)"

text \<open>The text of the nodes a selector finds, without the blanks around it.\<close>

definition trimmed_text :: "'n html \<Rightarrow> 'n list \<Rightarrow> string" where
  "trimmed_text h sel = trim_space (hl_text h sel)"

definition text_of_bytes :: "bytes \<Rightarrow> string" where
  "text_of_bytes bs = map (\<lambda>b. char_of (unat b)) bs"

text \<open>
  Sending a request and reading the page that is answered: an answer of status 400 or more
  is an error. \<open>http.NewRequest\<close> refuses a URL that does not parse.
\<close>

definition fetch_page ::
  "(http_request \<Rightarrow> ('w, string + http_response) eff) \<Rightarrow> (string \<Rightarrow> string + 'a) \<Rightarrow> http_request
   \<Rightarrow> ('w, string + 'a) eff" where
  "fetch_page client parse req =
     (case url_parse (hq_url req) of
        None \<Rightarrow> pass (Inl ''invalid url'')
      | Some _ \<Rightarrow>
          do { resp \<leftarrow> client req;
               pass (case resp of
                       Inl err \<Rightarrow> Inl err
                     | Inr r \<Rightarrow>
                         if hr_status r \<ge> 400 then Inl (''provider status '' @ itoa (hr_status r))
                         else (case hr_body r of Inl err \<Rightarrow> Inl err | Inr b \<Rightarrow> parse (text_of_bytes b))) })"

text \<open>The identifier error of the domain as text.\<close>

definition id_error_text :: "id_error \<Rightarrow> string" where
  "id_error_text err = (case err of ErrInvalidIdentifier \<Rightarrow> ''invalid identifier'' | ErrStore e \<Rightarrow> e)"

definition nil_if_empty :: "'a list \<Rightarrow> 'a list option" where
  "nil_if_empty xs = (if xs = [] then None else Some xs)"

end
