(* ===== verification/Go_Float.thy ===== *)
theory Go_Float
  imports Prelude
begin

text \<open>
  Double precision arithmetic as far as the code uses it: a whole number as the nearest
  double, and a quotient of whole numbers as a multiple of \<open>2^-s\<close> with 53 significant bits.
  Rounding is to nearest, ties to even. The numbers are positive and far from the ends of the
  exponent range.
\<close>

definition round_half_even :: "int \<Rightarrow> int \<Rightarrow> int" where
  "round_half_even a b =
     (let k = a div b; r = a mod b
      in if 2 * r < b then k else if 2 * r > b then k + 1 else if even k then k else k + 1)"

text \<open>The bits beyond 53, of a number below \<open>2^(53 + fuel)\<close>.\<close>

fun bits_over :: "nat \<Rightarrow> int \<Rightarrow> nat" where
  "bits_over 0 n = 0"
| "bits_over (Suc f) n = (if n < 2 ^ 53 then 0 else Suc (bits_over f (n div 2)))"

definition to_double :: "int \<Rightarrow> int" where
  "to_double n = (let k = bits_over 11 n in round_half_even n (2 ^ k) * 2 ^ k)"

text \<open>The product of two numbers of 64 and 53 bits.\<close>

definition round_product :: "int \<Rightarrow> int" where
  "round_product n = (let k = bits_over 64 n in round_half_even n (2 ^ k) * 2 ^ k)"

fun quotient_scale :: "nat \<Rightarrow> int \<Rightarrow> int \<Rightarrow> nat" where
  "quotient_scale 0 a b = 0"
| "quotient_scale (Suc f) a b = (if a \<ge> 2 ^ 52 * b then 0 else Suc (quotient_scale f (2 * a) b))"

end
