(* ===== verification/Kuramanime_Text.thy ===== *)
theory Kuramanime_Text
  imports Html Go_Float Go_Sort
begin

text \<open>
  The text helpers and card readers of the provider \<open>internal/provider/kuramanime\<close>, from
  \<open>client.go\<close>, \<open>discovery.go\<close> and \<open>discovery_provider.go\<close>: slugs and numbers found in links
  by regular expressions, labels, priorities, and the cards, filters and page links of a
  listing.
\<close>

section \<open>Patterns and slugs\<close>

definition km_name :: string where
  "km_name = ''kuramanime''"

definition anime_path_pattern :: re where
  "anime_path_pattern = re_cat [lit ''/anime/'', Group (re_plus re_digit), lit ''/'', Group (re_plus (none_of ''/?#''))]"

definition episode_path_pattern :: re where
  "episode_path_pattern =
     re_cat [lit ''/anime/'', Group (re_plus re_digit), lit ''/'', Group (re_plus (none_of ''/?#'')),
             lit ''/episode/'', Group (re_plus (none_of ''/?#''))]"

definition episode_num_pattern :: re where
  "episode_num_pattern = Group (re_plus re_digit)"

definition episode_range_pattern :: re where
  "episode_range_pattern =
     Cat (re_plus re_digit) (re_opt (re_cat [Star re_space, lit ''-'', Star re_space, re_plus re_digit]))"

definition space_pattern :: re where
  "space_pattern = re_plus re_space"

definition source_quality_pattern :: re where
  "source_quality_pattern = Group (re_cat [re_digit, re_digit, re_digit, re_opt re_digit])"

definition normalize_space :: "string \<Rightarrow> string" where
  "normalize_space v = trim_space (replace_all_re space_pattern '' '' v)"

definition anime_slug_from_href :: "string \<Rightarrow> string" where
  "anime_slug_from_href href =
     (case find_submatch anime_path_pattern href of
        Some [_, i, slug] \<Rightarrow> i @ ''/'' @ slug
      | _ \<Rightarrow> [])"

definition episode_slug_from_href :: "string \<Rightarrow> string" where
  "episode_slug_from_href href =
     (case find_submatch episode_path_pattern href of
        Some [_, i, slug, ep] \<Rightarrow> i @ ''/'' @ slug @ ''/episode/'' @ ep
      | _ \<Rightarrow> [])"

definition anime_id_from_slug :: "string \<Rightarrow> string" where
  "anime_id_from_slug slug = hd (split_char CHR ''/'' (trim_char CHR ''/'' slug))"

definition catalog_id_from_slug :: "string \<Rightarrow> string" where
  "catalog_id_from_slug slug = new_catalog_id km_name slug"

definition km_episode_number :: "string \<Rightarrow> int" where
  "km_episode_number label =
     (let m = find_string episode_num_pattern label in if m = [] then 0 else atoi_value m)"

fun first_non_empty :: "string list \<Rightarrow> string" where
  "first_non_empty [] = []"
| "first_non_empty (v # vs) = (if trim_space v \<noteq> [] then trim_space v else first_non_empty vs)"

section \<open>Labels and priorities\<close>

definition quality_label :: "string \<Rightarrow> string" where
  "quality_label raw =
     (let v = trim_space raw
      in if v = [] then [] else if suffix ''p'' (to_lower v) then v else v @ ''p'')"

definition km_stream_priority :: "string \<Rightarrow> int" where
  "km_stream_priority quality =
     100 + (if quality = ''720p'' then 70 else if quality = ''480p'' then 60 else if quality = ''360p'' then 50 else 10)"

definition sanitize_episode_badge :: "string \<Rightarrow> string" where
  "sanitize_episode_badge v =
     (let label = normalize_space (replace_all v ''/ ?'' []);
          label = replace_all label ''/?'' [];
          label = replace_all label '' / ? '' [];
          label = replace_all label '' / ?'' []
      in trim_space label)"

definition parse_integer :: "string \<Rightarrow> int" where
  "parse_integer v = atoi_value (trim_space v)"

text \<open>\<open>strings.Fields\<close>: every word is not empty, so that the length of the text is fuel enough.\<close>

fun take_word :: "string \<Rightarrow> string \<times> string" where
  "take_word [] = ([], [])"
| "take_word (c # s) =
     (if no_prefix space_runes (c # s) then (c # fst (take_word s), snd (take_word s)) else ([], c # s))"

fun fields_fuel :: "nat \<Rightarrow> string \<Rightarrow> string list" where
  "fields_fuel 0 s = []"
| "fields_fuel (Suc n) s =
     (let t = trim_left_space s
      in if t = [] then [] else fst (take_word t) # fields_fuel n (snd (take_word t)))"

definition fields :: "string \<Rightarrow> string list" where
  "fields s = fields_fuel (length s) s"

definition schedule_anime_id :: "string \<Rightarrow> string" where
  "schedule_anime_id class_name =
     (case find (\<lambda>w. prefix ''actual-schedule-ep-'' w \<and> suffix ''-real'' w) (fields class_name) of
        None \<Rightarrow> []
      | Some w \<Rightarrow> trim_suffix (trim_prefix w ''actual-schedule-ep-'') ''-real'')"

definition property_id_from_href :: "string \<Rightarrow> string" where
  "property_id_from_href href =
     (if trim_space href = [] then []
      else (case url_parse (trim_space href) of
              None \<Rightarrow> []
            | Some u \<Rightarrow>
                let path = trim_char CHR ''/'' (u_path u)
                in if path = [] then [] else last (split_char CHR ''/'' path)))"

definition query_value_from_url :: "string \<Rightarrow> string \<Rightarrow> string" where
  "query_value_from_url raw key =
     (case url_parse (trim_space raw) of None \<Rightarrow> [] | Some u \<Rightarrow> trim_space (query_get (u_raw_query u) key))"

definition discovery_order_labels :: "string \<rightharpoonup> string" where
  "discovery_order_labels =
     [''ascending'' \<mapsto> ''A-Z'', ''descending'' \<mapsto> ''Z-A'', ''oldest'' \<mapsto> ''Terlama'', ''latest'' \<mapsto> ''Terbaru'',
      ''popular'' \<mapsto> ''Teratas'', ''most_viewed'' \<mapsto> ''Terpopuler'', ''updated'' \<mapsto> ''Terupdate'', ''text'' \<mapsto> ''Mode Teks'']"

definition sanitize_order :: "string \<Rightarrow> string" where
  "sanitize_order v =
     (let order = trim_space v
      in if order = [] then ''ascending''
         else if discovery_order_labels order \<noteq> None then order else ''ascending'')"

definition safe_page :: "int \<Rightarrow> int" where
  "safe_page page = (if page < 1 then 1 else page)"

subsection \<open>Compact numbers\<close>

text \<open>
  The quotient of a non-negative number by a thousand or a million in double precision, as a
  number of \<open>2^-s\<close>: the number itself is rounded to 53 bits, then the quotient, both to
  nearest with ties to even. The digits are those of the double, to one decimal place,
  rounded the same way.
\<close>

definition one_decimal :: "int \<Rightarrow> int \<Rightarrow> string" where
  "one_decimal n unit =
     (let a = to_double n; s = quotient_scale 53 a unit;
          m = round_half_even (a * 2 ^ s) unit;
          tenths = round_half_even (10 * m) (2 ^ s)
      in itoa (tenths div 10) @ ''.'' @ itoa (tenths mod 10))"

definition format_compact_views :: "int \<Rightarrow> string" where
  "format_compact_views v =
     (if v \<ge> 1000000 then one_decimal v 1000000 @ ''M''
      else if v \<ge> 1000 then one_decimal v 1000 @ ''K''
      else itoa v)"

section \<open>Cards\<close>

definition card_anchor :: "'n html \<Rightarrow> 'n list \<Rightarrow> 'n list" where
  "card_anchor h sel =
     (if hl_name h sel = ''a'' then sel
      else (case sel_first (hl_find h sel ''a'') of [] \<Rightarrow> sel | a \<Rightarrow> a))"

definition card_root :: "'n html \<Rightarrow> 'n list \<Rightarrow> 'n list" where
  "card_root h sel =
     (if hl_has_class h sel ''product__item'' \<or> hl_has_class h sel ''product__sidebar__view__item'' then sel
      else (case sel_first (hl_find h sel ''.product__item'') of
              [] \<Rightarrow> (case sel_first (hl_find h sel ''.product__sidebar__view__item'') of [] \<Rightarrow> sel | r \<Rightarrow> r)
            | r \<Rightarrow> r))"

definition card_text :: "'n html \<Rightarrow> 'n list \<Rightarrow> string \<Rightarrow> string" where
  "card_text h root q = hl_text h (hl_find h root q)"

definition title_of_card :: "'n html \<Rightarrow> 'n list \<Rightarrow> string" where
  "title_of_card h root =
     normalize_space (first_non_empty
       [card_text h root ''.product__item__text h5'', card_text h root ''.sidebar-title-h5'',
        hl_text h (sel_first (hl_find h root ''h5''))])"

definition cover_of_card :: "'n html \<Rightarrow> 'n list \<Rightarrow> string" where
  "cover_of_card h root =
     (let cover = attr h (hl_find h root ''.product__item__pic'') ''data-setbg''
      in if cover = [] then attr h root ''data-setbg'' else cover)"

definition quality_of_card :: "'n html \<Rightarrow> 'n list \<Rightarrow> string" where
  "quality_of_card h root =
     normalize_space (first_non_empty
       [hl_text h (sel_first (hl_find h root ''.view'')), card_text h root ''.product__item__text ul a:nth-child(2)''])"

definition parse_anime_card :: "'n html \<Rightarrow> 'n list \<Rightarrow> anime_card" where
  "parse_anime_card h sel =
     (let root = card_root h sel;
          badge = normalize_space (card_text h root ''.ep'');
          badge = (if hl_find h root ''.ep i.fa-star'' \<noteq> [] then [] else badge);
          status = normalize_space (card_text h root ''.d-none span'');
          quality = quality_of_card h root
      in \<lparr>card_id = catalog_id_from_slug (anime_slug_from_href (attr h (card_anchor h sel) ''href'')),
          card_title = title_of_card h root, card_cover = cover_of_card h root,
          card_status = first_non_empty [status, quality], card_episode = sanitize_episode_badge badge,
          card_rating = quality, card_views = [], card_provider = km_name\<rparr>)"

text \<open>The part of an episode slug before \<open>/episode/\<close>.\<close>

definition before_episode :: "string \<Rightarrow> string" where
  "before_episode slug = (case find_from (lit ''/episode/'') slug of
     None \<Rightarrow> slug | Some (_, rest) \<Rightarrow> take (length slug - length rest - 9) slug)"

definition parse_episode_card :: "'n html \<Rightarrow> 'n list \<Rightarrow> anime_card" where
  "parse_episode_card h sel =
     (let root = card_root h sel;
          slug = episode_slug_from_href (attr h (card_anchor h sel) ''href'');
          badge = normalize_space (card_text h root ''.ep'');
          quality = quality_of_card h root
      in \<lparr>card_id = catalog_id_from_slug (before_episode slug),
          card_title = title_of_card h root, card_cover = cover_of_card h root,
          card_status = quality, card_episode = sanitize_episode_badge badge,
          card_rating = quality, card_views = [], card_provider = km_name\<rparr>)"

definition full_card :: "anime_card \<Rightarrow> bool" where
  "full_card c \<longleftrightarrow> \<not> (card_id c = [] \<or> card_title c = [])"

definition parse_card_list :: "'n html \<Rightarrow> 'n list \<Rightarrow> anime_card list" where
  "parse_card_list h doc =
     filter full_card (map (\<lambda>n. parse_anime_card h [n]) (hl_find h doc ''#animeList .product__item''))"

section \<open>Reading a listing\<close>

text \<open>A page that does not parse yields nothing.\<close>

definition parsed :: "'n html \<Rightarrow> string \<Rightarrow> ('n list \<Rightarrow> 'a) \<Rightarrow> 'a \<Rightarrow> 'a" where
  "parsed h raw f fallback = (case hl_parse h raw of Inl _ \<Rightarrow> fallback | Inr doc \<Rightarrow> f doc)"

definition property_item_of :: "'n html \<Rightarrow> 'n \<Rightarrow> property_item" where
  "property_item_of h a = \<lparr>pi_id = property_id_from_href (attr h [a] ''href''), pi_title = normalize_space (hl_text h [a])\<rparr>"

definition parse_property_links :: "'n html \<Rightarrow> string \<Rightarrow> string \<Rightarrow> property_item list" where
  "parse_property_links h raw kind =
     parsed h raw (\<lambda>doc. dedup_by pi_id {} (filter (\<lambda>i. \<not> (pi_id i = [] \<or> pi_title i = []))
       (map (property_item_of h)
         (hl_find h doc (''#animeList a[href*='' @ [CHR 0x27] @ ''/properties/'' @ kind @ ''/'' @ [CHR 0x27] @ '']''))))) []"

definition option_step ::
  "'n html \<Rightarrow> select_option list \<times> string \<Rightarrow> 'n \<Rightarrow> select_option list \<times> string" where
  "option_step h acc n =
     (case acc of (options, current) \<Rightarrow>
       let order = query_value_from_url (attr h [n] ''value'') ''order_by''; label = normalize_space (hl_text h [n])
       in if order = [] \<or> label = [] then acc
          else (options @ [\<lparr>so_value = order,
                            so_label = first_non_empty [label, case discovery_order_labels order of None \<Rightarrow> [] | Some l \<Rightarrow> l]\<rparr>],
                if attr_opt h [n] ''selected'' \<noteq> None then order else current))"

text \<open>The neighbouring pages, and the last one seen so far.\<close>

definition page_step :: "pagination \<Rightarrow> int \<Rightarrow> pagination" where
  "page_step pg page =
     (let last_page = (if page > pg_total pg then page else pg_total pg);
          next_page = (if page > pg_current pg \<and> (pg_next pg = 0 \<or> page < pg_next pg) then page else pg_next pg);
          prev_page = (if page < pg_current pg \<and> page > pg_prev pg then page else pg_prev pg)
      in pg\<lparr>pg_total := last_page, pg_next := next_page, pg_prev := prev_page\<rparr>)"

definition empty_pagination :: pagination where
  "empty_pagination = \<lparr>pg_current = 0, pg_prev = 0, pg_next = 0, pg_total = 0\<rparr>"

definition read_pagination :: "int \<Rightarrow> int list \<Rightarrow> pagination" where
  "read_pagination current pages = foldl page_step (empty_pagination\<lparr>pg_current := current\<rparr>) pages"

definition parse_discovery_controls :: "'n html \<Rightarrow> string \<Rightarrow> select_option list \<times> string \<times> pagination" where
  "parse_discovery_controls h raw =
     parsed h raw (\<lambda>doc.
       let (options, current) = foldl (option_step h) ([], []) (hl_find h doc ''#filterAnime option'');
           node = sel_first (hl_find h doc ''.product__pagination .current-page'');
           pages = map (\<lambda>n. parse_integer (query_value_from_url (attr h [n] ''href'') ''page''))
                     (hl_find h doc ''.product__pagination a.page__link'')
       in (options, current, read_pagination (if node = [] then 0 else parse_integer (hl_text h node)) pages))
     ([], [], empty_pagination)"

definition schedule_numbers :: "'n html \<Rightarrow> 'n list \<Rightarrow> (string \<rightharpoonup> string)" where
  "schedule_numbers h doc =
     (let q = [CHR 0x27]
      in foldl (\<lambda>m n.
           let anime = schedule_anime_id (attr h [n] ''class''); v = trim_space (attr h [n] ''value'')
           in if anime \<noteq> [] \<and> v \<noteq> [] then m(anime \<mapsto> v) else m) Map.empty
         (hl_find h doc (''input.actual-schedule-ep-1480-real, input[class*='' @ q @ ''actual-schedule-ep-'' @ q
            @ ''][class$='' @ q @ ''-real'' @ q @ '']'')))"

definition schedule_item :: "'n html \<Rightarrow> (string \<rightharpoonup> string) \<Rightarrow> 'n \<Rightarrow> anime_card list" where
  "schedule_item h numbers n =
     (let card = parse_anime_card h [n];
          anime = anime_id_from_slug (trim_prefix (card_id card) (km_name @ '':''));
          next_ep = trim_space (case numbers anime of None \<Rightarrow> [] | Some v \<Rightarrow> v);
          status = normalize_space (hl_text h (sel_first (hl_find h [n] ''.view-end li'')))
      in if \<not> full_card card then []
         else [card\<lparr>card_episode := (if next_ep \<noteq> [] then ''Ep '' @ next_ep else card_episode card),
                    card_status := (if status = []
                      then normalize_space (hl_text h (sel_first (hl_find h [n] (''.actual-schedule-info-'' @ anime))))
                      else status),
                    card_rating := normalize_space (card_text h [n] ''.product__item__text ul a:nth-child(2)'')\<rparr>])"

definition parse_schedule_cards :: "'n html \<Rightarrow> string \<Rightarrow> anime_card list" where
  "parse_schedule_cards h raw =
     parsed h raw (\<lambda>doc. concat (map (schedule_item h (schedule_numbers h doc))
       (hl_find h doc ''#animeList .product__item''))) []"

definition text_card :: "'n html \<Rightarrow> 'n \<Rightarrow> anime_card list" where
  "text_card h a =
     (let slug = anime_slug_from_href (attr h [a] ''href''); title = normalize_space (hl_text h [a])
      in if slug = [] \<or> title = [] then []
         else [\<lparr>card_id = catalog_id_from_slug slug, card_title = title, card_cover = [], card_status = [],
                card_episode = [], card_rating = [], card_views = [], card_provider = km_name\<rparr>])"

definition parse_text_mode_cards :: "'n html \<Rightarrow> string \<Rightarrow> anime_card list" where
  "parse_text_mode_cards h raw =
     parsed h raw (\<lambda>doc. concat (map (text_card h)
       (hl_find h doc (''#animeList a.anime__list__link[href*='' @ [CHR 0x27] @ ''/anime/'' @ [CHR 0x27] @ '']'')))) []"

end
