(* ===== verification/Kuramanime_Episodes.thy ===== *)
theory Kuramanime_Episodes
  imports Kuramanime_Text
begin

text \<open>
  Fetching pages and collecting the episodes of a title, from \<open>client.go\<close>, \<open>catalog.go\<close> and
  \<open>episodes.go\<close> of \<open>internal/provider/kuramanime\<close>. The episodes of the first page and of at
  most 24 further pages are merged by their slug; each page is visited once. The release dates
  are looked up by eight workers, each job writing its own element: the order in which the
  jobs are done is the parameter \<open>km_schedule\<close>. The order in which Go visits a map is
  \<open>km_order\<close>.
\<close>

section \<open>Client\<close>

record episode_ref =
  er_slug :: string
  er_path :: string
  er_number :: int
  er_display :: string

record ('w, 'n) kuramanime =
  km_base :: string
  km_agent :: string
  km_client :: "http_request \<Rightarrow> ('w, string + http_response) eff"
  km_html :: "'n html"
  km_render :: "string \<Rightarrow> ('w, string + string) eff"
  km_rows :: "string \<Rightarrow> string + (string \<times> int) list"
  km_sort_refs :: "(episode_ref \<Rightarrow> episode_ref \<Rightarrow> bool) \<Rightarrow> episode_ref list \<Rightarrow> episode_ref list"
  km_sort_links :: "(string \<Rightarrow> string \<Rightarrow> bool) \<Rightarrow> string list \<Rightarrow> string list"
  km_sort_episodes :: "(episode \<Rightarrow> episode \<Rightarrow> bool) \<Rightarrow> episode list \<Rightarrow> episode list"
  km_sort_candidates :: "(stream_candidate \<Rightarrow> stream_candidate \<Rightarrow> bool) \<Rightarrow> stream_candidate list \<Rightarrow> stream_candidate list"
  km_order :: "string set \<Rightarrow> string list"
  km_wide_letter :: "string \<Rightarrow> string option"
  km_schedule :: "nat \<Rightarrow> nat list"

definition km_target :: "('w, 'n) kuramanime \<Rightarrow> string \<Rightarrow> string" where
  "km_target p path =
     (let target = trim_space path
      in if \<not> prefix ''http://'' target \<and> \<not> prefix ''https://'' target
         then km_base p @ ''/'' @ trim_left_char CHR ''/'' target else target)"

definition with_header :: "string \<Rightarrow> string \<Rightarrow> (string \<rightharpoonup> string) \<Rightarrow> (string \<rightharpoonup> string)" where
  "with_header key v h = (if trim_space v \<noteq> [] then h(key \<mapsto> v) else h)"

definition get_doc_as :: "('w, 'n) kuramanime \<Rightarrow> string \<Rightarrow> string \<Rightarrow> string \<Rightarrow> ('w, string + 'n list) eff" where
  "get_doc_as p path ref agent =
     fetch_page (km_client p) (hl_parse (km_html p))
       \<lparr>hq_url = km_target p path,
        hq_headers = with_header ''Referer'' ref
          ((with_header ''User-Agent'' agent Map.empty)(''Accept-Language'' \<mapsto> ''en-US,en;q=0.9,id;q=0.8''))\<rparr>"

definition get_doc :: "('w, 'n) kuramanime \<Rightarrow> string \<Rightarrow> string \<Rightarrow> ('w, string + 'n list) eff" where
  "get_doc p path ref = get_doc_as p path ref (km_agent p)"

definition get_text :: "('w, 'n) kuramanime \<Rightarrow> string \<Rightarrow> string \<Rightarrow> ('w, string + string) eff" where
  "get_text p path ref =
     fetch_page (km_client p)
       (\<lambda>raw. case hl_parse (km_html p) raw of Inl err \<Rightarrow> Inl err | Inr doc \<Rightarrow> Inr (hl_text (km_html p) doc))
       \<lparr>hq_url = km_target p path,
        hq_headers = with_header ''Referer'' ref
          [''User-Agent'' \<mapsto> km_agent p, ''Accept-Language'' \<mapsto> ''en-US,en;q=0.9,id;q=0.8'']\<rparr>"

section \<open>Episode references\<close>

definition quotes :: "char list" where
  "quotes = [CHR 0x27, CHR 0x22]"

definition raw_episode_href_pattern :: re where
  "raw_episode_href_pattern =
     re_cat [lit ''href='', one_of quotes,
       Group (re_cat [re_plus (none_of quotes), lit ''/anime/'', re_plus (none_of quotes), lit ''/episode/'',
                      re_plus (none_of (CHR ''?'' # quotes)), re_opt (Cat (lit ''?'') (Star (none_of quotes)))]),
       one_of quotes]"

definition raw_episode_page_pattern :: re where
  "raw_episode_page_pattern =
     re_cat [lit ''href='', one_of quotes,
       Group (re_cat [re_plus (none_of quotes), lit ''/anime/'', re_plus (none_of quotes), lit ''?page='', re_plus re_digit]),
       one_of quotes]"

definition episode_range_value :: "string \<Rightarrow> string" where
  "episode_range_value v =
     (let v = (case find_from (lit ''/episode/'') v of None \<Rightarrow> v | Some (_, rest) \<Rightarrow> rest)
      in replace_all (find_string episode_range_pattern v) '' '' [])"

definition episode_display_value :: "string \<Rightarrow> string \<Rightarrow> string" where
  "episode_display_value text slug =
     (let v = trim_space (first_non_empty [episode_range_value text, episode_range_value slug])
      in if v = [] then itoa (km_episode_number slug) else v)"

definition make_ref :: "string \<Rightarrow> string \<Rightarrow> episode_ref" where
  "make_ref slug text =
     (let display = episode_display_value (normalize_space text) slug
      in \<lparr>er_slug = slug, er_path = ''/anime/'' @ slug, er_number = km_episode_number display, er_display = display\<rparr>)"

definition append_episode_ref ::
  "string \<Rightarrow> (string \<rightharpoonup> episode_ref) \<Rightarrow> string \<times> string \<Rightarrow> (string \<rightharpoonup> episode_ref)" where
  "append_episode_ref anime_slug seen link =
     (let slug = episode_slug_from_href (fst link)
      in if slug = [] \<or> \<not> prefix (anime_slug @ ''/episode/'') slug then seen
         else if seen slug \<noteq> None then seen
         else seen(slug \<mapsto> make_ref slug (snd link)))"

definition ref_less :: "episode_ref \<Rightarrow> episode_ref \<Rightarrow> bool" where
  "ref_less a b \<longleftrightarrow> (if er_number a = er_number b then er_slug a < er_slug b else er_number a < er_number b)"

definition sorted_refs :: "('w, 'n) kuramanime \<Rightarrow> (string \<rightharpoonup> episode_ref) \<Rightarrow> episode_ref list" where
  "sorted_refs p seen = km_sort_refs p ref_less (List.map_filter seen (km_order p (dom seen)))"

text \<open>The links of a page: those the parser finds, then those found in the text itself.\<close>

definition anchor_link :: "'n html \<Rightarrow> 'n \<Rightarrow> (string \<times> string) list" where
  "anchor_link h n =
     (case attr_opt h [n] ''href'' of
        None \<Rightarrow> []
      | Some href \<Rightarrow>
          if contains_str href ''?page='' \<or> hl_has_class h [n] ''page__link__episode'' then []
          else [(href, normalize_space (hl_text h [n]))])"

definition raw_links :: "string \<Rightarrow> (string \<times> string) list" where
  "raw_links raw =
     map (\<lambda>href. (href, [])) (filter (\<lambda>href. \<not> contains_str href ''?page='')
       (map (\<lambda>m. m ! 1) (find_all raw_episode_href_pattern raw)))"

definition episode_links :: "'n html \<Rightarrow> string \<Rightarrow> (string \<times> string) list" where
  "episode_links h raw =
     parsed h raw (\<lambda>doc. concat (map (anchor_link h)
       (hl_find h doc (''a[href*='' @ [CHR 0x27] @ ''/anime/'' @ [CHR 0x27] @ ''][href*='' @ [CHR 0x27] @ ''/episode/''
          @ [CHR 0x27] @ '']'')))) [] @ raw_links raw"

definition extract_episode_refs :: "('w, 'n) kuramanime \<Rightarrow> string \<Rightarrow> string \<Rightarrow> episode_ref list" where
  "extract_episode_refs p raw anime_slug =
     sorted_refs p (foldl (append_episode_ref anime_slug) Map.empty (episode_links (km_html p) raw))"

definition put_ref :: "(string \<rightharpoonup> episode_ref) \<Rightarrow> episode_ref \<Rightarrow> (string \<rightharpoonup> episode_ref)" where
  "put_ref seen r = seen(er_slug r \<mapsto> r)"

definition add_ref :: "(string \<rightharpoonup> episode_ref) \<Rightarrow> episode_ref \<Rightarrow> (string \<rightharpoonup> episode_ref)" where
  "add_ref seen r = (if seen (er_slug r) = None then put_ref seen r else seen)"

definition merge_episode_refs :: "('w, 'n) kuramanime \<Rightarrow> episode_ref list \<Rightarrow> episode_ref list \<Rightarrow> episode_ref list" where
  "merge_episode_refs p base extra =
     sorted_refs p (foldl add_ref (foldl put_ref Map.empty base) extra)"

section \<open>Further pages\<close>

text \<open>
  \<open>URL.RequestURI\<close> prints the path as it was written if that is a valid encoding, and
  encodes it anew otherwise.
\<close>

definition path_char :: "char \<Rightarrow> bool" where
  "path_char c \<longleftrightarrow> unreserved c \<or> c \<in> set ''$&+,/:;=@''"

definition written_path_char :: "char \<Rightarrow> bool" where
  "written_path_char c \<longleftrightarrow> path_char c \<or> c \<in> set ''!()*[]%'' \<or> c = CHR 0x27"

definition escape_path_char :: "char \<Rightarrow> string" where
  "escape_path_char c =
     (if path_char c then [c] else [CHR ''%'', upper_hex (of_char c div 16), upper_hex (of_char c mod 16)])"

definition written_path :: "string \<Rightarrow> string" where
  "written_path raw =
     (let s = (case cut CHR ''#'' raw of None \<Rightarrow> raw | Some (u, _) \<Rightarrow> u);
          rest = fst (cut_query (case get_scheme s of Some (_, r) \<Rightarrow> r | None \<Rightarrow> s))
      in if prefix ''//'' rest then dropWhile (\<lambda>c. c \<noteq> CHR ''/'') (drop 2 rest) else rest)"

definition escaped_path :: "string \<Rightarrow> url \<Rightarrow> string" where
  "escaped_path raw u =
     (if list_all written_path_char (written_path raw) then written_path raw
      else concat (map escape_path_char (u_path u)))"

definition request_uri :: "string \<Rightarrow> url \<Rightarrow> string" where
  "request_uri raw u =
     (let result = (if u_opaque u = [] then (if escaped_path raw u = [] then ''/'' else escaped_path raw u) else u_opaque u)
      in if u_force_query u \<or> u_raw_query u \<noteq> [] then result @ ''?'' @ u_raw_query u else result)"

definition normalize_page_path :: "string \<Rightarrow> string" where
  "normalize_page_path raw =
     (if trim_space raw = [] then []
      else (case url_parse (trim_space raw) of
              None \<Rightarrow> []
            | Some u \<Rightarrow>
                if is_abs u then request_uri (trim_space raw) u
                else if u_path u = [] then []
                else if u_raw_query u = [] then u_path u
                else u_path u @ ''?'' @ u_raw_query u))"

definition page_value :: "string \<Rightarrow> int" where
  "page_value raw = (case url_parse raw of None \<Rightarrow> 0 | Some u \<Rightarrow> atoi_value (query_get (u_raw_query u) ''page''))"

definition page_links_in :: "('w, 'n) kuramanime \<Rightarrow> string \<Rightarrow> string list" where
  "page_links_in p raw =
     (let h = km_html p in
      case hl_parse h raw of
        Inl _ \<Rightarrow> []
      | Inr doc \<Rightarrow>
          let hrefs = List.map_filter (\<lambda>n. attr_opt h [n] ''href'')
                (hl_find h doc (''a.page__link__episode[href*='' @ [CHR 0x27] @ ''?page='' @ [CHR 0x27] @ '']''))
                @ map (\<lambda>m. m ! 1) (find_all raw_episode_page_pattern raw)
          in km_sort_links p (\<lambda>a b. page_value a < page_value b)
               (dedup_by id {} (filter (\<lambda>path. path \<noteq> []) (map normalize_page_path hrefs))))"

text \<open>
  The loop over the queue of pages: \<open>n\<close> pages may still be fetched, \<open>todo\<close> is what is left
  of the queue, \<open>visited\<close> everything that was ever put into it.
\<close>

fun page_loop ::
  "('w, 'n) kuramanime \<Rightarrow> string \<Rightarrow> nat \<Rightarrow> string list \<Rightarrow> string set \<Rightarrow> episode_ref list \<Rightarrow> ('w, episode_ref list) eff" where
  "page_loop p slug 0 todo visited refs = pass refs"
| "page_loop p slug (Suc n) [] visited refs = pass refs"
| "page_loop p slug (Suc n) (path # todo) visited refs =
     do { fetched \<leftarrow> get_doc p path (km_base p @ ''/anime/'' @ slug);
          case (case fetched of Inl err \<Rightarrow> Inl err | Inr doc \<Rightarrow> hl_print (km_html p) doc) of
            Inl _ \<Rightarrow> page_loop p slug n todo visited refs
          | Inr html \<Rightarrow>
              (let content = hl_unescape (km_html p) html;
                   fresh = dedup_by id visited (page_links_in p content)
               in page_loop p slug n (todo @ fresh) (visited \<union> set fresh)
                    (merge_episode_refs p refs (extract_episode_refs p content slug))) }"

definition max_episode_pages :: nat where
  "max_episode_pages = 24"

definition first_queue :: "('w, 'n) kuramanime \<Rightarrow> string \<Rightarrow> episode_ref list \<Rightarrow> string list" where
  "first_queue p content refs =
     (let pages = dedup_by id {} (page_links_in p content); seed = er_path (hd refs)
      in if seed \<noteq> [] \<and> seed \<notin> set pages then pages @ [seed] else pages)"

definition episode_of_ref :: "string \<Rightarrow> episode_ref \<Rightarrow> episode" where
  "episode_of_ref catalog r =
     (let display = (if er_display r = [] then itoa (er_number r) else er_display r)
      in \<lparr>ep_id = new_catalog_id km_name (er_slug r), ep_catalog_id = catalog, ep_number = er_number r,
          ep_title = ''Episode '' @ display, ep_label = display, ep_released_at = []\<rparr>)"

definition newest_first :: "episode \<Rightarrow> episode \<Rightarrow> bool" where
  "newest_first a b \<longleftrightarrow> (if ep_number a = ep_number b then ep_id a < ep_id b else ep_number a > ep_number b)"

section \<open>Release dates\<close>

text \<open>The calendar date of \<open>time.Parse(time.RFC3339, s)\<close>, as written in the zone of the text.\<close>

definition take_hour :: "string \<Rightarrow> (int \<times> string) option" where
  "take_hour s = (case take_num 2 s of Some r \<Rightarrow> Some r | None \<Rightarrow> take_num 1 s)"

definition take_char :: "char \<Rightarrow> string \<Rightarrow> string option" where
  "take_char c s = (case s of [] \<Rightarrow> None | x # r \<Rightarrow> if x = c then Some r else None)"

definition zone_ok :: "string \<Rightarrow> bool" where
  "zone_ok s \<longleftrightarrow>
     (case s of
        [z] \<Rightarrow> z = CHR ''Z''
      | [sg, h1, h2, c, m1, m2] \<Rightarrow>
          (sg = CHR ''+'' \<or> sg = CHR ''-'') \<and> c = CHR '':'' \<and> list_all is_digit [h1, h2, m1, m2]
          \<and> digits_val [h1, h2] \<le> 24 \<and> digits_val [m1, m2] \<le> 60
      | _ \<Rightarrow> False)"

definition parse_rfc3339_date :: "string \<Rightarrow> (int \<times> int \<times> int) option" where
  "parse_rfc3339_date s0 =
     Option.bind (take_num 4 s0) (\<lambda>(y, s1).
     Option.bind (take_char CHR ''-'' s1) (\<lambda>s2.
     Option.bind (take_num 2 s2) (\<lambda>(mo, s3).
     Option.bind (take_char CHR ''-'' s3) (\<lambda>s4.
     Option.bind (take_num 2 s4) (\<lambda>(d, s5).
     Option.bind (take_char CHR ''T'' s5) (\<lambda>s6.
     Option.bind (take_hour s6) (\<lambda>(h, s7).
     Option.bind (take_char CHR '':'' s7) (\<lambda>s8.
     Option.bind (take_num 2 s8) (\<lambda>(mi, s9).
     Option.bind (take_char CHR '':'' s9) (\<lambda>s10.
     Option.bind (take_num 2 s10) (\<lambda>(s, s11).
     if zone_ok (snd (parse_fraction s11)) \<and> valid_date y mo d \<and> valid_clock h mi s
     then Some (y, mo, d) else None)))))))))))"

definition month_names :: "string list" where
  "month_names =
     [''Januari'', ''Februari'', ''Maret'', ''April'', ''Mei'', ''Juni'',
      ''Juli'', ''Agustus'', ''September'', ''Oktober'', ''November'', ''Desember'']"

definition episode_release_label :: "string \<Rightarrow> string" where
  "episode_release_label v =
     (if trim_space v = [] then []
      else (case parse_rfc3339_date (trim_space v) of
              None \<Rightarrow> []
            | Some (y, m, d) \<Rightarrow> itoa d @ '' '' @ month_names ! nat (m - 1) @ '' '' @ itoa y))"

text \<open>One job of the workers: the label for one episode, or nothing.\<close>

definition release_job :: "('w, 'n) kuramanime \<Rightarrow> episode \<Rightarrow> ('w, string) eff" where
  "release_job p e =
     (case parse_qualified_id (ep_id e) of
        Inl _ \<Rightarrow> pass []
      | Inr (_, slug) \<Rightarrow>
          do { doc \<leftarrow> get_doc p (''/anime/'' @ slug) (km_base p);
               pass (case doc of
                       Inl _ \<Rightarrow> []
                     | Inr d \<Rightarrow>
                         let label = episode_release_label (attr (km_html p) (hl_find (km_html p) d
                               (''meta[property='' @ [CHR 0x27] @ ''article:published_time'' @ [CHR 0x27] @ '']'')) ''content'')
                         in if trim_space label = [] then [] else label) })"

fun run_jobs :: "(episode \<Rightarrow> ('w, string) eff) \<Rightarrow> episode list \<Rightarrow> nat list \<Rightarrow> episode list \<Rightarrow> ('w, episode list) eff" where
  "run_jobs job episodes [] cloned = pass cloned"
| "run_jobs job episodes (i # is) cloned =
     do { label \<leftarrow> job (episodes ! i);
          run_jobs job episodes is (if label = [] then cloned else cloned[i := (cloned ! i)\<lparr>ep_released_at := label\<rparr>]) }"

definition enrich_release_dates :: "('w, 'n) kuramanime \<Rightarrow> episode list \<Rightarrow> ('w, episode list) eff" where
  "enrich_release_dates p episodes =
     (if episodes = [] then pass episodes
      else run_jobs (release_job p) episodes (km_schedule p (length episodes)) episodes)"

section \<open>All episodes of a title\<close>

definition collect_episodes ::
  "('w, 'n) kuramanime \<Rightarrow> 'n list \<Rightarrow> string \<Rightarrow> string \<Rightarrow> ('w, string + episode list) eff" where
  "collect_episodes p doc catalog slug =
     (case hl_print (km_html p) doc of
        Inl err \<Rightarrow> pass (Inl err)
      | Inr html \<Rightarrow>
          let content = hl_unescape (km_html p) html; refs = extract_episode_refs p content slug
          in if refs = [] then pass (Inl ''episode list content missing'')
             else do { let queue = first_queue p content refs;
                       all_refs \<leftarrow> page_loop p slug max_episode_pages queue (set queue) refs;
                       episodes \<leftarrow> enrich_release_dates p
                         (km_sort_episodes p newest_first (map (episode_of_ref catalog) all_refs));
                       pass (Inr episodes) })"

end
