(* ===== verification/Kuramanime.thy ===== *)
theory Kuramanime
  imports Kuramanime_Episodes Stream
begin

text \<open>
  The provider \<open>internal/provider/kuramanime\<close>: the pages of \<open>catalog.go\<close> and
  \<open>discovery_provider.go\<close> and the streams of \<open>stream.go\<close>, put together as a \<open>provider\<close>.
  Decoding the JSON of the view counts, rendering a page in a browser, and telling letters
  outside ASCII are parameters of the record.
\<close>

section \<open>View counts\<close>

definition card_anime_id :: "anime_card \<Rightarrow> string" where
  "card_anime_id c = (case parse_qualified_id (card_id c) of Inl _ \<Rightarrow> [] | Inr (_, slug) \<Rightarrow> anime_id_from_slug slug)"

definition count_ids :: "anime_card list \<Rightarrow> string list" where
  "count_ids items = dedup_by id {} (filter (\<lambda>i. i \<noteq> []) (map card_anime_id items))"

definition set_views :: "anime_card list \<Rightarrow> string \<times> int \<Rightarrow> anime_card list" where
  "set_views items row =
     map (\<lambda>c. if card_anime_id c \<noteq> [] \<and> card_anime_id c = fst row
              then c\<lparr>card_views := format_compact_views (snd row)\<rparr> else c) items"

definition populate_card_counts :: "('w, 'n) kuramanime \<Rightarrow> anime_card list \<Rightarrow> ('w, anime_card list) eff" where
  "populate_card_counts p items =
     (let ids = count_ids items
      in if ids = [] then pass items
         else do { rows \<leftarrow> fetch_page (km_client p) (km_rows p)
                     \<lparr>hq_url = km_base p @ ''/misc/anime/data-count?anime_id='' @ join '','' ids,
                      hq_headers = [''User-Agent'' \<mapsto> km_agent p, ''Accept-Language'' \<mapsto> ''en-US,en;q=0.9,id;q=0.8'',
                        ''Referer'' \<mapsto> km_base p]\<rparr>;
                   pass (case rows of Inl _ \<Rightarrow> items | Inr rs \<Rightarrow> foldl set_views items rs) })"

section \<open>Catalog\<close>

definition section_cards :: "'n html \<Rightarrow> nat \<Rightarrow> 'n \<Rightarrow> anime_card list" where
  "section_cards h index n =
     filter full_card (map (\<lambda>i. if index = 0 then parse_episode_card h [i] else parse_anime_card h [i])
       (hl_find h [n] ''.product__item''))"

definition km_home :: "('w, 'n) kuramanime \<Rightarrow> ('w, string + home_feed) eff" where
  "km_home p =
     do { doc \<leftarrow> get_doc p ''/'' ''https://google.com'';
          case doc of
            Inl err \<Rightarrow> pass (Inl err)
          | Inr d \<Rightarrow>
              (let h = km_html p;
                   sections = map (\<lambda>(i, n). section_cards h i n) (enumerate 0 (hl_find h d ''.trending__product''));
                   ongoing = concat (take 1 sections);
                   completed = concat (take 1 (drop 1 sections));
                   movie = concat (drop 2 sections);
                   featured = (if length ongoing > 6 then take 6 ongoing else ongoing);
                   recent = (if completed = [] then movie else completed)
               in do { featured \<leftarrow> populate_card_counts p featured;
                       ongoing \<leftarrow> populate_card_counts p ongoing;
                       recent \<leftarrow> populate_card_counts p recent;
                       pass (Inr \<lparr>hf_featured = featured, hf_ongoing = ongoing, hf_recent = recent\<rparr>) }) }"

definition url_query_escape :: "string \<Rightarrow> string" where
  "url_query_escape v = map (\<lambda>c. if c = CHR 0x20 then CHR ''+'' else c) (trim_space v)"

definition km_search :: "('w, 'n) kuramanime \<Rightarrow> string \<Rightarrow> ('w, string + anime_card list option) eff" where
  "km_search p query =
     do { doc \<leftarrow> get_doc p (''/anime?order_by=latest&page=1&search='' @ url_query_escape query) (km_base p);
          case doc of
            Inl err \<Rightarrow> pass (Inl err)
          | Inr d \<Rightarrow> do { items \<leftarrow> populate_card_counts p (parse_card_list (km_html p) d); pass (Inr (Some items)) } }"

definition schedule_days :: "(string \<times> string) list" where
  "schedule_days =
     [(''Senin'', ''monday''), (''Selasa'', ''tuesday''), (''Rabu'', ''wednesday''), (''Kamis'', ''thursday''),
      (''Jumat'', ''friday''), (''Sabtu'', ''saturday''), (''Minggu'', ''sunday'')]"

fun schedule_loop :: "('w, 'n) kuramanime \<Rightarrow> (string \<times> string) list \<Rightarrow> schedule_day list \<Rightarrow> ('w, string + schedule_day list) eff" where
  "schedule_loop p [] acc = pass (Inr acc)"
| "schedule_loop p ((label, key) # days) acc =
     do { doc \<leftarrow> get_doc p (''/schedule?scheduled_day='' @ key @ ''&page=1'') (km_base p);
          case doc of
            Inl err \<Rightarrow> pass (Inl err)
          | Inr d \<Rightarrow>
              do { items \<leftarrow> populate_card_counts p (parse_card_list (km_html p) d);
                   schedule_loop p days (acc @ [\<lparr>sd_day = label, sd_items = items\<rparr>]) } }"

definition km_schedule_days :: "('w, 'n) kuramanime \<Rightarrow> ('w, string + schedule_day list) eff" where
  "km_schedule_days p = schedule_loop p schedule_days []"

text \<open>The bucket of a title: its first letter in upper case.\<close>

definition index_bucket :: "('w, 'n) kuramanime \<Rightarrow> string \<Rightarrow> string" where
  "index_bucket p title =
     (case trim_space title of
        [] \<Rightarrow> ''#''
      | c # s \<Rightarrow>
          if (of_char c :: nat) < 128 then (if is_alpha c then to_upper [c] else ''#'')
          else (case km_wide_letter p (c # s) of None \<Rightarrow> ''#'' | Some up \<Rightarrow> up))"

definition bucket_card ::
  "('w, 'n) kuramanime \<Rightarrow> (string \<rightharpoonup> anime_card list) \<Rightarrow> anime_card \<Rightarrow> (string \<rightharpoonup> anime_card list)" where
  "bucket_card p m item =
     (let key = index_bucket p (card_title item)
      in m(key \<mapsto> (case m key of None \<Rightarrow> [] | Some cs \<Rightarrow> cs) @ [item]))"

text \<open>The index: page after page, up to the given number of further pages or an empty one.\<close>

fun index_loop ::
  "('w, 'n) kuramanime \<Rightarrow> nat \<Rightarrow> int \<Rightarrow> (string \<rightharpoonup> anime_card list) \<Rightarrow> ('w, string + (string \<rightharpoonup> anime_card list)) eff" where
  "index_loop p 0 page index = pass (Inr index)"
| "index_loop p (Suc n) page index =
     do { doc \<leftarrow> get_doc p (''/anime?order_by=ascending&page='' @ itoa page) (km_base p);
          case doc of
            Inl err \<Rightarrow> pass (Inl err)
          | Inr d \<Rightarrow>
              (let items = parse_card_list (km_html p) d
               in if items = [] then pass (Inr index)
                  else index_loop p n (page + 1) (foldl (bucket_card p) index items)) }"

definition km_index :: "('w, 'n) kuramanime \<Rightarrow> ('w, string + (string \<rightharpoonup> anime_card list)) eff" where
  "km_index p = index_loop p 60 1 Map.empty"

definition detail_cover :: "'n html \<Rightarrow> 'n list \<Rightarrow> string" where
  "detail_cover h doc =
     (let cover = trim_space (attr h (sel_first (hl_find h doc ''.anime__details__pic'')) ''data-setbg'')
      in if cover \<noteq> [] then cover
         else trim_space (attr h (sel_first (hl_find h doc ''.anime__details__pic__mobile'')) ''data-setbg''))"

definition is_mal_cover :: "string \<Rightarrow> bool" where
  "is_mal_cover v \<longleftrightarrow> contains_str (to_lower (trim_space v)) ''cdn.myanimelist.net/''"

definition preferred_cover :: "string \<Rightarrow> string \<Rightarrow> string" where
  "preferred_cover primary alternative =
     (let pr = trim_space primary; alt = trim_space alternative
      in if alt \<noteq> [] \<and> is_mal_cover pr \<and> \<not> is_mal_cover alt then alt
         else if pr \<noteq> [] then pr else alt)"

definition metadata_step :: "'n html \<Rightarrow> (string \<rightharpoonup> string) \<Rightarrow> 'n \<Rightarrow> (string \<rightharpoonup> string)" where
  "metadata_step h m n =
     (let label = normalize_space (hl_text h (hl_find h [n] ''.col-3''));
          v = normalize_space (hl_text h (hl_find h [n] ''.col-9''))
      in if label = [] \<or> v = [] then m
         else m(trim_suffix (trim_suffix (to_lower label) '':'') '' :'' \<mapsto> v))"

definition counted_metadata :: "(string \<rightharpoonup> string) \<Rightarrow> nat \<Rightarrow> (string \<rightharpoonup> string)" where
  "counted_metadata m n =
     (let m = m(''eksplisit'' := None);
          current = trim_space (case m ''episode'' of None \<Rightarrow> [] | Some v \<Rightarrow> v)
      in if n > 0 \<and> (current = [] \<or> current = ''?'') then m(''episode'' \<mapsto> itoa (int n)) else m)"

definition recommendation_of :: "'n html \<Rightarrow> 'n \<Rightarrow> anime_card list" where
  "recommendation_of h a =
     (let slug = anime_slug_from_href (attr h [a] ''href''); title = trim_prefix (normalize_space (hl_text h [a])) ''- ''
      in if slug = [] \<or> title = [] then []
         else [\<lparr>card_id = catalog_id_from_slug slug, card_title = title, card_cover = [], card_status = [],
                card_episode = [], card_rating = [], card_views = [], card_provider = km_name\<rparr>])"

definition contains_selector :: "string \<Rightarrow> string \<Rightarrow> string" where
  "contains_selector what part = what @ ''[href*='' @ [CHR 0x27] @ part @ [CHR 0x27] @ '']''"

definition km_catalog :: "('w, 'n) kuramanime \<Rightarrow> string \<Rightarrow> ('w, string + anime_detail) eff" where
  "km_catalog p catalog =
     (case parse_qualified_id catalog of
        Inl err \<Rightarrow> pass (Inl (id_error_text err))
      | Inr (_, slug) \<Rightarrow>
          do { doc \<leftarrow> get_doc p (''/anime/'' @ slug) (km_base p);
               case doc of
                 Inl err \<Rightarrow> pass (Inl err)
               | Inr d \<Rightarrow>
                   (let h = km_html p; cover = detail_cover h d
                    in do { cover \<leftarrow> (if is_mal_cover cover
                                      then do { other \<leftarrow> get_doc_as p (''/anime/'' @ slug) (km_base p) ''curl/8.5.0'';
                                                pass (case other of
                                                        Inl _ \<Rightarrow> cover
                                                      | Inr d' \<Rightarrow> preferred_cover cover (detail_cover h d')) }
                                      else pass cover);
                            episodes \<leftarrow> collect_episodes p d catalog slug;
                            pass (case episodes of
                              Inl err \<Rightarrow> Inl err
                            | Inr es \<Rightarrow>
                                Inr \<lparr>det_id = catalog,
                                     det_title = normalize_space (hl_text h (sel_first (hl_find h d ''.anime__details__title h3''))),
                                     det_synopsis = normalize_space (hl_text h (hl_find h d ''#synopsisField'')),
                                     det_cover = cover, det_banner = [],
                                     det_genres = filter (\<lambda>g. g \<noteq> []) (map (\<lambda>a. normalize_space (hl_text h [a]))
                                       (hl_find h d (contains_selector ''.anime__details__widget ul li .col-9 a'' ''/properties/genre/''))),
                                     det_metadata = Some (counted_metadata
                                       (foldl (metadata_step h) Map.empty (hl_find h d ''.anime__details__widget ul li''))
                                       (length es)),
                                     det_episodes = es,
                                     det_recommendations = concat (map (recommendation_of h)
                                       (hl_find h d (contains_selector ''.breadcrumb__links__v2 a'' ''/anime/''))),
                                     det_provider = km_name\<rparr>) }) })"

definition km_episodes :: "('w, 'n) kuramanime \<Rightarrow> string \<Rightarrow> ('w, string + episode list) eff" where
  "km_episodes p catalog =
     do { detail \<leftarrow> km_catalog p catalog;
          pass (case detail of Inl err \<Rightarrow> Inl err | Inr d \<Rightarrow> Inr (det_episodes d)) }"

section \<open>Discovery\<close>

definition schedule_day_options :: "select_option list" where
  "schedule_day_options =
     map (\<lambda>(v, l). \<lparr>so_value = v, so_label = l\<rparr>)
       [(''all'', ''Semua''), (''monday'', ''Senin''), (''tuesday'', ''Selasa''), (''wednesday'', ''Rabu''),
        (''thursday'', ''Kamis''), (''friday'', ''Jumat''), (''saturday'', ''Sabtu''), (''sunday'', ''Minggu''),
        (''random'', ''Tidak Tentu''), (''text'', ''Mode Teks'')]"

definition property_titles :: "string \<Rightarrow> string" where
  "property_titles kind =
     (case map_of [(''genre'', ''Daftar Genre''), (''season'', ''Daftar Musim''), (''studio'', ''Daftar Studio''),
                   (''country'', ''Daftar Negara'')] kind of None \<Rightarrow> [] | Some t \<Rightarrow> t)"

text \<open>A page with its printed text, or the first error.\<close>

definition printed_page ::
  "('w, 'n) kuramanime \<Rightarrow> string \<Rightarrow> string \<Rightarrow> ('w, string + ('n list \<times> string)) eff" where
  "printed_page p path ref =
     do { doc \<leftarrow> get_doc p path ref;
          pass (case doc of
                  Inl err \<Rightarrow> Inl err
                | Inr d \<Rightarrow> (case hl_print (km_html p) d of Inl err \<Rightarrow> Inl err | Inr html \<Rightarrow> Inr (d, html))) }"

definition section_title :: "'n html \<Rightarrow> 'n list \<Rightarrow> string" where
  "section_title h d = normalize_space (hl_text h (sel_first (hl_find h d ''.section-title h4'')))"

definition km_property_list :: "('w, 'n) kuramanime \<Rightarrow> string \<Rightarrow> ('w, string + property_list) eff" where
  "km_property_list p kind =
     do { page \<leftarrow> printed_page p (''/properties/'' @ trim_char CHR ''/'' (trim_space kind)) (km_base p);
          pass (case page of
                  Inl err \<Rightarrow> Inl err
                | Inr (d, html) \<Rightarrow>
                    Inr \<lparr>pl_kind = kind, pl_title = first_non_empty [property_titles kind, section_title (km_html p) d],
                         pl_items = parse_property_links (km_html p) html kind\<rparr>) }"

definition collection_of ::
  "('w, 'n) kuramanime \<Rightarrow> string \<Rightarrow> string \<Rightarrow> string \<Rightarrow> ('w, string + collection_page) eff" where
  "collection_of p path key kind =
     do { page \<leftarrow> printed_page p path (km_base p);
          case page of
            Inl err \<Rightarrow> pass (Inl err)
          | Inr (d, html) \<Rightarrow>
              (case parse_discovery_controls (km_html p) html of
                 (options, current_order, pages) \<Rightarrow>
                   let cards = parse_card_list (km_html p) d;
                       cards = (if cards = [] \<and> equal_fold current_order ''text''
                                then parse_text_mode_cards (km_html p) html else cards)
                   in do { items \<leftarrow> populate_card_counts p cards;
                           pass (Inr \<lparr>cp_kind = kind, cp_key = trim_space key, cp_title = section_title (km_html p) d,
                                      cp_subtitle = [], cp_items = items, cp_current_filter = [],
                                      cp_current_order = current_order, cp_filter_options = [],
                                      cp_order_options = options, cp_pagination = pages\<rparr>) }) }"

definition km_property_catalog ::
  "('w, 'n) kuramanime \<Rightarrow> string \<Rightarrow> string \<Rightarrow> string \<Rightarrow> int \<Rightarrow> ('w, string + collection_page) eff" where
  "km_property_catalog p kind property order page =
     collection_of p (''/properties/'' @ trim_char CHR ''/'' kind @ ''/'' @ trim_char CHR ''/'' property
       @ ''?order_by='' @ sanitize_order order @ ''&page='' @ itoa (safe_page page)) property kind"

definition km_quick_catalog :: "('w, 'n) kuramanime \<Rightarrow> string \<Rightarrow> string \<Rightarrow> int \<Rightarrow> ('w, string + collection_page) eff" where
  "km_quick_catalog p kind order page =
     collection_of p (''/quick/'' @ trim_char CHR ''/'' kind @ ''?order_by='' @ sanitize_order order
       @ ''&page='' @ itoa (safe_page page)) kind ''quick''"

definition schedule_title :: "'n html \<Rightarrow> 'n list \<Rightarrow> string" where
  "schedule_title h d =
     first_non_empty
       [normalize_space (replace_all (section_title h d) ''Jadwal Rilis:'' ''Jadwal Rilis''), ''Jadwal Rilis'']"

definition km_schedule_page :: "('w, 'n) kuramanime \<Rightarrow> string \<Rightarrow> int \<Rightarrow> ('w, string + collection_page) eff" where
  "km_schedule_page p day page_no =
     (let selected = (if trim_space day = [] then ''all'' else trim_space day)
      in do { page \<leftarrow> printed_page p (''/schedule?scheduled_day='' @ selected @ ''&page='' @ itoa (safe_page page_no)) (km_base p);
              case page of
                Inl err \<Rightarrow> pass (Inl err)
              | Inr (d, html) \<Rightarrow>
                  do { items \<leftarrow> populate_card_counts p (parse_schedule_cards (km_html p) html);
                       pass (Inr \<lparr>cp_kind = ''schedule'', cp_key = selected, cp_title = schedule_title (km_html p) d,
                                  cp_subtitle = [], cp_items = items, cp_current_filter = selected,
                                  cp_current_order = [], cp_filter_options = schedule_day_options,
                                  cp_order_options = [],
                                  cp_pagination = snd (snd (parse_discovery_controls (km_html p) html))\<rparr>) } })"

definition latest_season :: "property_item list \<Rightarrow> property_item option" where
  "latest_season items = (if items = [] then None else Some (last items))"

definition km_seasonal_popular :: "('w, 'n) kuramanime \<Rightarrow> ('w, string + collection_page) eff" where
  "km_seasonal_popular p =
     do { seasons \<leftarrow> km_property_list p ''season'';
          case seasons of
            Inl err \<Rightarrow> pass (Inl err)
          | Inr list \<Rightarrow>
              (case latest_season (pl_items list) of
                 None \<Rightarrow> pass (Inl ''season list is empty'')
               | Some current \<Rightarrow>
                   do { page \<leftarrow> km_property_catalog p ''season'' (pi_id current) ''most_viewed'' 1;
                        pass (case page of
                                Inl err \<Rightarrow> Inl err
                              | Inr c \<Rightarrow>
                                  Inr (c\<lparr>cp_kind := ''seasonal-popular'', cp_key := pi_id current, cp_subtitle := pi_title current,
                                         cp_title := (if cp_title c = [] then ''Terpopuler Musim Ini'' else cp_title c)\<rparr>)) }) }"

section \<open>Streams\<close>

definition quality_from_url :: "string \<Rightarrow> string" where
  "quality_from_url raw = (case find_submatch source_quality_pattern raw of Some [_, q] \<Rightarrow> q | _ \<Rightarrow> [])"

definition quality_number :: "string \<Rightarrow> int" where
  "quality_number label = (case find_submatch source_quality_pattern label of Some [_, q] \<Rightarrow> atoi_value q | _ \<Rightarrow> 0)"

definition player_candidate :: "string \<Rightarrow> string \<Rightarrow> stream_candidate list" where
  "player_candidate raw raw_quality =
     (let quality = quality_label raw_quality
      in if trim_space raw = [] then []
         else [\<lparr>sc_url = trim_space raw, sc_container = ''mp4'', sc_quality = quality, sc_codec = [], sc_direct = True,
                sc_playable = True, sc_priority = km_stream_priority quality, sc_label = ''kuramadrive''\<rparr>])"

definition video_candidate :: "'n html \<Rightarrow> 'n \<Rightarrow> stream_candidate list" where
  "video_candidate h n = (let raw = attr h [n] ''src'' in player_candidate raw (quality_from_url raw))"

definition source_candidate :: "'n html \<Rightarrow> 'n \<Rightarrow> stream_candidate list" where
  "source_candidate h n =
     (let raw = attr h [n] ''src''; size = attr h [n] ''size''
      in player_candidate raw (if size = [] then quality_from_url raw else size))"

definition candidate_identity :: "stream_candidate \<Rightarrow> string" where
  "candidate_identity c = to_lower (sc_quality c @ ''|'' @ sc_url c)"

definition by_quality :: "stream_candidate \<Rightarrow> stream_candidate \<Rightarrow> bool" where
  "by_quality a b \<longleftrightarrow> quality_number (sc_quality a) > quality_number (sc_quality b)"

definition dedupe_candidates :: "('w, 'n) kuramanime \<Rightarrow> stream_candidate list \<Rightarrow> stream_candidate list" where
  "dedupe_candidates p items = km_sort_candidates p by_quality (dedup_by candidate_identity {} items)"

definition extract_stream_candidates :: "('w, 'n) kuramanime \<Rightarrow> string \<Rightarrow> string + stream_candidate list" where
  "extract_stream_candidates p raw =
     (let h = km_html p in
      case hl_parse h raw of
        Inl err \<Rightarrow> Inl err
      | Inr doc \<Rightarrow>
          let candidates = concat (map (video_candidate h) (hl_find h doc ''#player''))
                @ concat (map (source_candidate h) (hl_find h doc ''#player source''))
          in if candidates = [] then Inl ''no stream candidates found''
             else Inr (dedupe_candidates p (km_sort_candidates p by_priority candidates)))"

definition fetch_secret :: "('w, 'n) kuramanime \<Rightarrow> string \<Rightarrow> ('w, string + string) eff" where
  "fetch_secret p ref =
     do { text \<leftarrow> get_text p ''/assets/Ks6sqSgloPTlHMl.txt'' ref;
          pass (case text of Inl err \<Rightarrow> Inl err | Inr t \<Rightarrow> Inr (trim_space t)) }"

definition km_stream_candidates :: "('w, 'n) kuramanime \<Rightarrow> string \<Rightarrow> ('w, string + stream_candidate list) eff" where
  "km_stream_candidates p ep =
     (case parse_qualified_id ep of
        Inl err \<Rightarrow> pass (Inl (id_error_text err))
      | Inr (_, slug) \<Rightarrow>
          (let main_path = ''/anime/'' @ slug; ref = km_base p @ main_path
           in do { secret \<leftarrow> fetch_secret p ref;
                   case secret of
                     Inl err \<Rightarrow> pass (Inl err)
                   | Inr key \<Rightarrow>
                       (let player_path = main_path @ ''?Ub3BzhijicHXZdv='' @ key @ ''&C2XAPerzX1BM7V9=kuramadrive&page=1''
                        in do { page \<leftarrow> printed_page p player_path ref;
                                case page of
                                  Inl err \<Rightarrow> pass (Inl err)
                                | Inr (_, html) \<Rightarrow>
                                    (case extract_stream_candidates p html of
                                       Inr cs \<Rightarrow> pass (Inr cs)
                                     | Inl err \<Rightarrow>
                                         do { rendered \<leftarrow> km_render p (km_base p @ ''/'' @ trim_left_char CHR ''/'' player_path);
                                              pass (case rendered of
                                                      Inl _ \<Rightarrow> Inl err
                                                    | Inr html' \<Rightarrow> extract_stream_candidates p html') }) }) }))"

definition kuramanime_provider :: "('w, 'n) kuramanime \<Rightarrow> 'w provider" where
  "kuramanime_provider p =
     \<lparr>pr_name = km_name, pr_home = km_home p, pr_search = km_search p, pr_schedule = km_schedule_days p,
      pr_schedule_page = km_schedule_page p, pr_index = km_index p, pr_property_list = km_property_list p,
      pr_property_catalog = km_property_catalog p, pr_quick_catalog = km_quick_catalog p,
      pr_seasonal_popular = km_seasonal_popular p, pr_catalog = km_catalog p, pr_episodes = km_episodes p,
      pr_stream_candidates = km_stream_candidates p\<rparr>"

end
