(* ===== verification/Kuramanime_Props.thy ===== *)
theory Kuramanime_Props
  imports Kuramanime
begin

text \<open>
  What is shown of the provider \<open>kuramanime\<close>: the identifiers made from links lead back to
  the pages, collecting episodes visits every page once and loses nothing, release dates do
  not depend on the order of the workers, pages and view counts are read correctly, and the
  streams are distinct and playable.
\<close>

section \<open>Links\<close>

lemma find_from_skip:
  "(\<And>v w. \<lbrakk>u = v @ w; w \<noteq> []\<rbrakk> \<Longrightarrow> matches r (w @ s) = []) \<Longrightarrow> find_from r (u @ s) = find_from r s"
proof (induction u)
  case (Cons c u)
  have "matches r ((c # u) @ s) = []" using Cons.prems [of "[]" "c # u"] by simp
  then have "find_from r ((c # u) @ s) = find_from r (u @ s)" by (simp add: find_from.simps [of r "c # u @ s"])
  also have "\<dots> = find_from r s"
  proof (rule Cons.IH)
    fix v w
    assume "u = v @ w" "w \<noteq> []"
    then show "matches r (w @ s) = []" using Cons.prems [of "c # v" w] by simp
  qed
  finally show ?case .
qed simp

lemma takeWhile_run:
  assumes "\<forall>c\<in>set u. p c" and "t = [] \<or> \<not> p (hd t)"
  shows "takeWhile p (u @ t) = u"
  using assms by (cases t) auto

lemma matches_group_run:
  assumes "u \<noteq> []" "\<forall>c\<in>set u. p c" "t = [] \<or> \<not> p (hd t)"
  shows "matches (Group (re_plus (Cls p))) (u @ t)
    = (t, [u]) # map (\<lambda>k. (drop k (u @ t), [take k (u @ t)])) (rev [1..<length u])"
proof -
  have "rev [1..<Suc (length u)] = length u # rev [1..<length u]" using assms(1) by (cases u) simp_all
  moreover have "length u + length t - (length u + length t - k) = k" if "k < length u" for k using that by simp
  ultimately show ?thesis
    using assms takeWhile_run [OF assms(2,3)] by (simp add: matches_plus_cls min_def)
qed

text \<open>A greedy run takes everything when what follows cannot start with one of its characters.\<close>

lemma matches_run_then:
  assumes "u \<noteq> []" "\<forall>c\<in>set u. p c" "t = [] \<or> \<not> p (hd t)" "\<And>c s. p c \<Longrightarrow> matches r (c # s) = []"
  shows "matches (Cat (Group (re_plus (Cls p))) r) (u @ t) = map (\<lambda>(x, d). (x, u # d)) (matches r t)"
proof -
  have none: "matches r (drop k (u @ t)) = []" if "k < length u" for k
  proof -
    have "drop k (u @ t) = u ! k # drop (Suc k) (u @ t)"
      using that by (metis Cons_nth_drop_Suc length_append nth_append trans_less_add1)
    then show ?thesis using assms(2,4) that by (metis nth_mem)
  qed
  have "concat (map (\<lambda>k. map (\<lambda>(x, d). (x, take k (u @ t) # d)) (matches r (drop k (u @ t)))) (rev [1..<length u])) = []"
    using none by auto
  then show ?thesis
    unfolding matches.simps(3) matches_group_run [OF assms(1-3)] by (simp add: comp_def del: drop_append take_append)
qed

lemma matches_lit_then:
  "matches (Cat (lit a) r) s = (if prefix a s then matches r (drop (length a) s) else [])"
  by simp

lemma find_from_hit:
  assumes "matches r s = (t, c) # ms"
  shows "find_from r s = Some (take (length s - length t) s # c, t)"
  by (subst find_from.simps) (simp add: assms)

text \<open>The search for a pattern that begins with a literal goes to its first occurrence.\<close>

lemma find_from_literal:
  assumes "\<not> contains_str (base @ butlast a) a" and "a \<noteq> []"
  shows "find_from (Cat (lit a) r) (base @ a @ s) = find_from (Cat (lit a) r) (a @ s)"
proof (rule find_from_skip)
  fix v w
  assume w: "base = v @ w" "w \<noteq> []"
  have "\<not> prefix a (w @ a @ s)"
  proof
    assume "prefix a (w @ a @ s)"
    then have "prefix a (w @ butlast a @ last a # s)" using assms(2) by (metis append_butlast_last_id append.assoc append_Cons append_Nil)
    then have "prefix a ((w @ butlast a) @ last a # s)" by simp
    moreover have "length a \<le> length (w @ butlast a)" using w(2) by (cases w) simp_all
    ultimately have "prefix a (w @ butlast a)" by (metis prefix_length_prefix prefixI)
    then obtain z where "w @ butlast a = a @ z" by (auto simp: prefix_def)
    then have "base @ butlast a = v @ a @ z" using w(1) by simp
    then show False using assms(1) contains_str_iff by blast
  qed
  then show "matches (Cat (lit a) r) (w @ a @ s) = []" by (simp only: matches_lit_then if_False)
qed

lemma matches_lit_here: "matches (Cat (lit a) r) (a @ s) = matches r s"
  by (simp add: matches_lit_then)

lemma matches_lit_not: "a \<noteq> [] \<Longrightarrow> c \<noteq> hd a \<Longrightarrow> matches (Cat (lit a) r) (c # s) = []"
  by (cases a) (simp_all add: matches_lit_then)

declare matches.simps [simp del] lit.simps [simp del]

definition path_segment :: "string \<Rightarrow> bool" where
  "path_segment s \<longleftrightarrow> s \<noteq> [] \<and> (\<forall>c\<in>set s. c \<notin> set ''/?#'')"

definition numeric :: "string \<Rightarrow> bool" where
  "numeric s \<longleftrightarrow> s \<noteq> [] \<and> (\<forall>c\<in>set s. is_digit c)"

definition anime_link :: "string \<Rightarrow> string \<Rightarrow> string \<Rightarrow> string \<Rightarrow> string" where
  "anime_link base i slug rest = base @ ''/anime/'' @ i @ ''/'' @ slug @ rest"

lemma segment_then:
  assumes "path_segment slug" "rest = [] \<or> hd rest \<in> set ''/?#''"
    and "\<And>c s. c \<notin> set ''/?#'' \<Longrightarrow> matches r (c # s) = []"
  shows "matches (Cat (Group (re_plus (none_of ''/?#''))) r) (slug @ rest) = map (\<lambda>(x, d). (x, slug # d)) (matches r rest)"
  unfolding none_of_def
  by (rule matches_run_then) (use assms in \<open>auto simp: path_segment_def\<close>)

lemma segment_last:
  assumes "path_segment slug" "rest = [] \<or> hd rest \<in> set ''/?#''"
  shows "\<exists>ms. matches (Cat (Group (re_plus (none_of ''/?#''))) Eps) (slug @ rest) = (rest, [slug]) # ms"
proof -
  have "matches (Group (re_plus (none_of ''/?#''))) (slug @ rest)
      = (rest, [slug]) # map (\<lambda>k. (drop k (slug @ rest), [take k (slug @ rest)])) (rev [1..<length slug])"
    unfolding none_of_def by (rule matches_group_run) (use assms in \<open>auto simp: path_segment_def\<close>)
  then show ?thesis by (simp add: matches.simps(1,3))
qed

text \<open>A number and a segment after \<open>/anime/\<close>.\<close>

lemma number_then:
  assumes "numeric i"
  shows "matches (Cat (Group (re_plus re_digit)) (Cat (lit ''/'') r)) (i @ ''/'' @ s)
    = map (\<lambda>(x, d). (x, i # d)) (matches r s)"
proof -
  have "matches (Cat (lit ''/'') r) (c # t) = []" if "is_digit c" for c t
    using that by (intro matches_lit_not) (auto simp: is_digit_def)
  moreover have "\<not> is_digit (hd (''/'' @ s))" by (simp add: is_digit_def)
  moreover have "matches (Cat (lit ''/'') r) (''/'' @ s) = matches r s" by (rule matches_lit_here)
  ultimately show ?thesis
    using assms matches_run_then [of i is_digit "''/'' @ s" "Cat (lit ''/'') r"] by (simp add: numeric_def re_digit_def)
qed

lemma anime_slug_of_link:
  assumes "\<not> contains_str (base @ ''/anime'') ''/anime/''" "numeric i" "path_segment slug"
    and "rest = [] \<or> hd rest \<in> set ''/?#''"
  shows "anime_slug_from_href (anime_link base i slug rest) = i @ ''/'' @ slug"
proof -
  let ?p = "Cat (Group (re_plus re_digit)) (Cat (lit ''/'') (Cat (Group (re_plus (none_of ''/?#''))) Eps))"
  let ?t = "i @ ''/'' @ slug @ rest"
  have p: "anime_path_pattern = Cat (lit ''/anime/'') ?p" by (simp add: anime_path_pattern_def)
  obtain ms where "matches (Cat (Group (re_plus (none_of ''/?#''))) Eps) (slug @ rest) = (rest, [slug]) # ms"
    using segment_last [OF assms(3,4)] by blast
  then have "matches ?p ?t = (rest, [i, slug]) # map (\<lambda>(x, d). (x, i # d)) ms"
    by (subst number_then [OF assms(2)]) simp
  then have "matches anime_path_pattern (''/anime/'' @ ?t) = (rest, [i, slug]) # map (\<lambda>(x, d). (x, i # d)) ms"
    unfolding p matches_lit_here .
  from find_from_hit [OF this] have "\<exists>m. find_from anime_path_pattern (''/anime/'' @ ?t) = Some ([m, i, slug], rest)"
    by blast
  moreover have "find_from anime_path_pattern (anime_link base i slug rest) = find_from anime_path_pattern (''/anime/'' @ ?t)"
    unfolding anime_link_def p by (rule find_from_literal) (use assms(1) in simp_all)
  ultimately show ?thesis by (auto simp: anime_slug_from_href_def find_submatch_def)
qed

definition episode_link :: "string \<Rightarrow> string \<Rightarrow> string \<Rightarrow> string \<Rightarrow> string \<Rightarrow> string" where
  "episode_link base i slug ep rest = anime_link base i slug (''/episode/'' @ ep @ rest)"

lemma episode_slug_of_link:
  assumes "\<not> contains_str (base @ ''/anime'') ''/anime/''" "numeric i" "path_segment slug" "path_segment ep"
    and "rest = [] \<or> hd rest \<in> set ''/?#''"
  shows "episode_slug_from_href (episode_link base i slug ep rest) = i @ ''/'' @ slug @ ''/episode/'' @ ep"
proof -
  let ?e = "Cat (Group (re_plus (none_of ''/?#''))) Eps"
  let ?g = "Cat (Group (re_plus (none_of ''/?#''))) (Cat (lit ''/episode/'') ?e)"
  let ?p = "Cat (Group (re_plus re_digit)) (Cat (lit ''/'') ?g)"
  let ?t = "i @ ''/'' @ slug @ ''/episode/'' @ ep @ rest"
  have p: "episode_path_pattern = Cat (lit ''/anime/'') ?p" by (simp add: episode_path_pattern_def)
  obtain ms where "matches ?e (ep @ rest) = (rest, [ep]) # ms" using segment_last [OF assms(4,5)] by blast
  then have e: "matches (Cat (lit ''/episode/'') ?e) (''/episode/'' @ ep @ rest) = (rest, [ep]) # ms"
    unfolding matches_lit_here .
  have "matches (Cat (lit ''/episode/'') ?e) (c # s) = []" if "c \<notin> set ''/?#''" for c s
    using that by (intro matches_lit_not) auto
  from segment_then [OF assms(3) _ this, of "''/episode/'' @ ep @ rest"]
  have "matches ?g (slug @ ''/episode/'' @ ep @ rest) = (rest, [slug, ep]) # map (\<lambda>(x, d). (x, slug # d)) ms"
    unfolding e by simp
  then have "\<exists>ms. matches ?p ?t = (rest, [i, slug, ep]) # ms"
    by (subst number_then [OF assms(2)]) simp
  then obtain ms' where "matches episode_path_pattern (''/anime/'' @ ?t) = (rest, [i, slug, ep]) # ms'"
    unfolding p matches_lit_here by blast
  from find_from_hit [OF this] have "\<exists>m. find_from episode_path_pattern (''/anime/'' @ ?t) = Some ([m, i, slug, ep], rest)"
    by blast
  moreover have "find_from episode_path_pattern (episode_link base i slug ep rest)
      = find_from episode_path_pattern (''/anime/'' @ ?t)"
    unfolding episode_link_def anime_link_def p by (rule find_from_literal) (use assms(1) in simp_all)
  ultimately show ?thesis by (auto simp: episode_slug_from_href_def find_submatch_def)
qed

lemma numeric_plain: "numeric i \<Longrightarrow> list_all plain_char i"
  by (auto simp: numeric_def list_all_iff is_digit_def plain_char_def)

lemma path_id_parses:
  assumes "numeric i" "path_segment s" "list_all plain_char rest" "rest \<noteq> [] \<and> last rest \<noteq> CHR ''/''"
  shows "parse_qualified_id (new_catalog_id km_name (i @ ''/'' @ rest)) = Inr (km_name, i @ ''/'' @ rest)"
proof -
  let ?p = "i @ ''/'' @ rest"
  have pl: "list_all plain_char ?p" using numeric_plain [OF assms(1)] assms(3) by (simp add: plain_char_def)
  have "is_digit (hd i)" "i \<noteq> []" using assms(1) by (auto simp: numeric_def)
  then have "hd ?p \<noteq> CHR ''/''" by (auto simp: is_digit_def)
  then have t: "trim_char CHR ''/'' (trim_space ?p) = ?p"
    using assms(4) by (simp only: all_plain_trim_space [OF pl]) (simp add: trim_char_id)
  have "list_all plain_char (new_catalog_id km_name ?p)"
    using pl by (simp only: new_catalog_id_def t) (simp add: km_name_def plain_char_def)
  then show ?thesis
    using parse_new_catalog_id [of km_name ?p] all_plain_trimmed t by (simp add: km_name_def)
qed

text \<open>
  The identifiers made of links lead back: for a link to a title, and to an episode of
  it, under any address in which \<open>/anime/\<close> occurs there first, the catalog identifier of the
  card and the identifier of the episode parse to the provider and to the path the link has.
\<close>

theorem link_identifiers:
  assumes "\<not> contains_str (base @ ''/anime'') ''/anime/''" and "numeric i"
    and "path_segment slug" "list_all plain_char slug" and "path_segment ep" "list_all plain_char ep"
    and "rest = [] \<or> hd rest \<in> set ''/?#''"
  shows "parse_qualified_id (catalog_id_from_slug (anime_slug_from_href (anime_link base i slug rest)))
      = Inr (km_name, i @ ''/'' @ slug)
    \<and> parse_qualified_id (new_catalog_id km_name (episode_slug_from_href (episode_link base i slug ep rest)))
      = Inr (km_name, i @ ''/'' @ slug @ ''/episode/'' @ ep)"
proof -
  have l: "slug \<noteq> [] \<and> last slug \<noteq> CHR ''/''" "ep \<noteq> [] \<and> last ep \<noteq> CHR ''/''"
    using assms(3,5) last_in_set unfolding path_segment_def by fastforce+
  have "list_all plain_char (slug @ ''/episode/'' @ ep)" using assms(4,6) by (simp add: plain_char_def)
  then show ?thesis
    using path_id_parses [OF assms(2,3,4) l(1)] path_id_parses [OF assms(2,3), of "slug @ ''/episode/'' @ ep"] l(2)
    by (simp add: anime_slug_of_link [OF assms(1,2,3,7)] episode_slug_of_link [OF assms(1,2,3,5,7)] catalog_id_from_slug_def)
qed

theorem link_identifiers_witness:
  "parse_qualified_id (new_catalog_id km_name (episode_slug_from_href
     (episode_link ''https://v17.kuramanime.ink'' ''1929'' ''pokemon-2023'' ''1-2'' ''?page=2'')))
   = Inr (''kuramanime'', ''1929/pokemon-2023/episode/1-2'')"
proof -
  have c: "\<not> contains_str (''https://v17.kuramanime.ink'' @ ''/anime'') ''/anime/''" by code_simp
  have n: "numeric ''1929''" by (simp add: numeric_def is_digit_def)
  have s: "path_segment ''pokemon-2023''" "path_segment ''1-2''" by (simp_all add: path_segment_def)
  have p: "list_all plain_char ''pokemon-2023''" "list_all plain_char ''1-2''" by code_simp+
  show ?thesis
    using link_identifiers [OF c n s(1) p(1) s(2) p(2), of "''?page=2''"] by (simp add: km_name_def)
qed

section \<open>Pages of a listing\<close>

definition neighbours :: "int list \<Rightarrow> int \<Rightarrow> pagination" where
  "neighbours pages current =
     \<lparr>pg_current = current,
      pg_prev = Max (insert 0 {x \<in> set pages. x < current}),
      pg_next = (if \<exists>x\<in>set pages. current < x then Min {x \<in> set pages. current < x} else 0),
      pg_total = Max (insert 0 (set pages))\<rparr>"

lemma page_step_neighbours:
  assumes "0 \<le> current"
  shows "page_step (neighbours pages current) x = neighbours (pages @ [x]) current"
proof -
  let ?above = "{x \<in> set pages. current < x}" and ?below = "{x \<in> set pages. x < current}"
  have total: "Max (insert 0 (set (pages @ [x]))) = max x (Max (insert 0 (set pages)))"
  proof -
    have "insert 0 (set (pages @ [x])) = insert x (insert 0 (set pages))" by auto
    then show ?thesis by simp
  qed
  have below: "Max (insert 0 {y \<in> set (pages @ [x]). y < current})
      = (if x < current then max x (Max (insert 0 ?below)) else Max (insert 0 ?below))"
  proof (cases "x < current")
    case True
    then have "insert 0 {y \<in> set (pages @ [x]). y < current} = insert x (insert 0 ?below)" by auto
    then show ?thesis using True by (simp del: insert_iff)
  next
    case False
    then have "{y \<in> set (pages @ [x]). y < current} = ?below" by auto
    then show ?thesis using False by simp
  qed
  have above: "{y \<in> set (pages @ [x]). current < y} = (if current < x then insert x ?above else ?above)" by auto
  have pos: "0 < Min ?above" if "\<exists>x\<in>set pages. current < x"
    using that assms by (subst Min_gr_iff) auto
  define N where "N = (if \<exists>x\<in>set pages. current < x then Min ?above else 0)"
  have next_page: "(if \<exists>y\<in>set (pages @ [x]). current < y then Min {y \<in> set (pages @ [x]). current < y} else 0)
      = (if x > current \<and> (N = 0 \<or> x < N) then x else N)"
  proof (cases "\<exists>y\<in>set pages. current < y")
    case True
    then have ne: "?above \<noteq> {}" by auto
    have "N = Min ?above" "0 < N" using True pos by (simp_all add: N_def)
    then show ?thesis using True unfolding above by (simp add: Min_insert [OF _ ne] min_def del: Collect_empty_eq)
  next
    case False
    then have e: "?above = {}" by auto
    show ?thesis using False unfolding above e by (auto simp: N_def)
  qed
  have "page_step (neighbours pages current) x = \<lparr>pg_current = current,
      pg_prev = (if x < current \<and> x > Max (insert 0 ?below) then x else Max (insert 0 ?below)),
      pg_next = (if x > current \<and> (N = 0 \<or> x < N) then x else N),
      pg_total = (if x > Max (insert 0 (set pages)) then x else Max (insert 0 (set pages)))\<rparr>"
    unfolding page_step_def neighbours_def Let_def N_def by (simp only: pagination.simps)
  also have "\<dots> = neighbours (pages @ [x]) current"
    unfolding neighbours_def next_page total below by (simp add: max_def del: Max_less_iff Max_insert)
  finally show ?thesis .
qed

text \<open>
  C29. The page links of a listing are read into the last page linked, the nearest page after
  the current one and the nearest one before it, 0 standing for none.
\<close>

theorem pagination_neighbours:
  assumes "0 \<le> current"
  shows "read_pagination current pages = neighbours pages current"
proof (induction pages rule: rev_induct)
  case Nil
  then show ?case by (simp add: read_pagination_def empty_pagination_def neighbours_def)
next
  case (snoc x pages)
  then show ?case using page_step_neighbours [OF assms] by (simp add: read_pagination_def)
qed

theorem pagination_neighbours_witness:
  "pg_total (read_pagination 5 [1, 2, 3, 4]) = 4 \<and> pg_next (read_pagination 5 [1, 2, 3, 4]) = 0"
  using pagination_neighbours [of 5 "[1, 2, 3, 4]"] by (simp add: neighbours_def)

section \<open>Release dates\<close>

definition dated :: "(episode \<Rightarrow> string) \<Rightarrow> episode \<Rightarrow> episode" where
  "dated label e = (if label e = [] then e else e\<lparr>ep_released_at := label e\<rparr>)"

lemma run_jobs_each:
  assumes job: "\<And>e w. result (job e) w = label e"
  shows "\<lbrakk>distinct is; set is \<subseteq> {..<length es}; length cloned = length es; \<forall>i\<in>set is. cloned ! i = es ! i\<rbrakk>
    \<Longrightarrow> result (run_jobs job es is cloned) w
      = map (\<lambda>i. if i \<in> set is then dated label (es ! i) else cloned ! i) [0..<length es]"
proof (induction "is" arbitrary: cloned w)
  case Nil
  then show ?case using map_nth [of cloned] by simp
next
  case (Cons i "is")
  let ?c = "if label (es ! i) = [] then cloned else cloned[i := (cloned ! i)\<lparr>ep_released_at := label (es ! i)\<rparr>]"
  have i: "i < length cloned" "i \<notin> set is" using Cons.prems by auto
  have c: "length ?c = length es" "?c ! i = dated label (es ! i)" "\<And>j. j \<noteq> i \<Longrightarrow> ?c ! j = cloned ! j"
    using Cons.prems i by (auto simp: dated_def)
  have old: "?c ! j = es ! j" if "j \<in> set is" for j
  proof -
    have "j \<noteq> i" using that i(2) by blast
    then show ?thesis using c(3) [of j] Cons.prems(4) that by simp
  qed
  have "result (run_jobs job es is ?c) (after (job (es ! i)) w)
      = map (\<lambda>j. if j \<in> set is then dated label (es ! j) else ?c ! j) [0..<length es]"
    by (rule Cons.IH) (use Cons.prems c(1) old in auto)
  also have "\<dots> = map (\<lambda>j. if j \<in> set (i # is) then dated label (es ! j) else cloned ! j) [0..<length es]"
    using c i by (intro map_cong refl) (auto split: if_splits)
  finally have "result (run_jobs job es is ?c) (after (job (es ! i)) w)
      = map (\<lambda>j. if j \<in> set (i # is) then dated label (es ! j) else cloned ! j) [0..<length es]" .
  moreover have "result (run_jobs job es (i # is) cloned) w = result (run_jobs job es is ?c) (after (job (es ! i)) w)"
    by (simp only: run_jobs.simps run_bind job)
  ultimately show ?case by simp
qed


section \<open>Episode pages\<close>

text \<open>A client that writes down its requests.\<close>

definition logging ::
  "(http_request \<Rightarrow> ('w, 'r) eff) \<Rightarrow> http_request \<Rightarrow> ('w \<times> http_request list, 'r) eff" where
  "logging client r = State (\<lambda>(w, log). (result (client r) w, after (client r) w, log @ [r]))"

definition page_request :: "('w, 'n) kuramanime \<Rightarrow> string \<Rightarrow> string \<Rightarrow> http_request" where
  "page_request p slug path =
     \<lparr>hq_url = km_target p path,
      hq_headers = with_header ''Referer'' (km_base p @ ''/anime/'' @ slug)
        ((with_header ''User-Agent'' (km_agent p) Map.empty)(''Accept-Language'' \<mapsto> ''en-US,en;q=0.9,id;q=0.8''))\<rparr>"

lemma fetch_page_log:
  "snd (after (fetch_page (logging c) parse r) w) = snd w @ (if url_parse (hq_url r) = None then [] else [r])"
  by (cases w) (simp add: fetch_page_def logging_def split: option.split)

lemma get_doc_log:
  assumes "km_client p = logging c"
  shows "snd (after (get_doc p path (km_base p @ ''/anime/'' @ slug)) w)
    = snd w @ map (page_request p slug) (if url_parse (km_target p path) = None then [] else [path])"
  using fetch_page_log [of c "hl_parse (km_html p)" "page_request p slug path"] assms
  by (simp add: get_doc_def get_doc_as_def page_request_def)

text \<open>One round of the loop, and what it leads to.\<close>

definition round_of :: "('w, 'n) kuramanime \<Rightarrow> string \<Rightarrow> string \<Rightarrow> 'w \<Rightarrow> string option" where
  "round_of p slug path w =
     (case (case result (get_doc p path (km_base p @ ''/anime/'' @ slug)) w of Inl err \<Rightarrow> Inl err | Inr doc \<Rightarrow> hl_print (km_html p) doc) of
        Inl _ \<Rightarrow> None
      | Inr html \<Rightarrow> Some (hl_unescape (km_html p) html))"

definition fresh_pages :: "('w, 'n) kuramanime \<Rightarrow> string set \<Rightarrow> string option \<Rightarrow> string list" where
  "fresh_pages p visited content = (case content of None \<Rightarrow> [] | Some c \<Rightarrow> dedup_by id visited (page_links_in p c))"

definition merged_refs :: "('w, 'n) kuramanime \<Rightarrow> string \<Rightarrow> string option \<Rightarrow> episode_ref list \<Rightarrow> episode_ref list" where
  "merged_refs p slug content refs =
     (case content of None \<Rightarrow> refs | Some c \<Rightarrow> merge_episode_refs p refs (extract_episode_refs p c slug))"

lemma page_loop_round:
  "run_state (page_loop p slug (Suc n) (path # todo) visited refs) w
    = (let x = round_of p slug path w
       in run_state (page_loop p slug n (todo @ fresh_pages p visited x) (visited \<union> set (fresh_pages p visited x))
            (merged_refs p slug x refs)) (after (get_doc p path (km_base p @ ''/anime/'' @ slug)) w))"
  by (cases "case result (get_doc p path (km_base p @ ''/anime/'' @ slug)) w of Inl err \<Rightarrow> Inl err | Inr doc \<Rightarrow> hl_print (km_html p) doc")
    (simp_all add: round_of_def fresh_pages_def merged_refs_def Let_def id_def)

lemma fresh_pages_new: "distinct (fresh_pages p visited x)" "set (fresh_pages p visited x) \<inter> visited = {}"
  using dedup_by_distinct [of id visited] dedup_by_keys [of id visited]
  by (auto simp: fresh_pages_def id_def split: option.split)

lemma page_loop_log:
  assumes "km_client p = logging c"
  shows "\<lbrakk>distinct todo; set todo \<subseteq> visited\<rbrakk> \<Longrightarrow>
    \<exists>paths. snd (after (page_loop p slug n todo visited refs) w) = snd w @ map (page_request p slug) paths
      \<and> distinct paths \<and> length paths \<le> n \<and> set paths \<inter> (visited - set todo) = {}"
proof (induction n arbitrary: todo visited refs w)
  case (Suc n)
  show ?case
  proof (cases todo)
    case (Cons path rest)
    let ?x = "round_of p slug path w" and ?w = "after (get_doc p path (km_base p @ ''/anime/'' @ slug)) w"
    let ?f = "fresh_pages p visited ?x" and ?r = "if url_parse (km_target p path) = None then [] else [path]"
    have "distinct (rest @ ?f)" "set (rest @ ?f) \<subseteq> visited \<union> set ?f"
      using Suc.prems Cons fresh_pages_new [of p visited ?x] by auto
    from Suc.IH [OF this, of "merged_refs p slug ?x refs" ?w] obtain paths where paths:
      "snd (after (page_loop p slug n (rest @ ?f) (visited \<union> set ?f) (merged_refs p slug ?x refs)) ?w)
        = snd ?w @ map (page_request p slug) paths"
      "distinct paths" "length paths \<le> n" "set paths \<inter> (visited \<union> set ?f - set (rest @ ?f)) = {}"
      by blast
    have "snd ?w = snd w @ map (page_request p slug) ?r" by (rule get_doc_log [OF assms])
    then have "snd (after (page_loop p slug (Suc n) todo visited refs) w) = snd w @ map (page_request p slug) (?r @ paths)"
      unfolding Cons page_loop_round Let_def using paths(1) by simp
    moreover have "path \<notin> set paths" "set paths \<inter> (visited - set todo) = {}"
      using paths(4) Suc.prems Cons fresh_pages_new(2) [of p visited ?x] by auto
    moreover have "set ?r \<inter> (visited - set todo) = {}" "length ?r \<le> 1" "distinct ?r" using Cons by auto
    ultimately show ?thesis using paths(2,3) by (intro exI [of _ "?r @ paths"]) auto
  qed simp
qed simp


section \<open>Episodes of a title\<close>

lemma ref_less_order: "weak_order ref_less"
  by unfold_locales (auto simp: ref_less_def split: if_splits)

lemma newest_first_order: "weak_order newest_first"
  by unfold_locales (auto simp: newest_first_def split: if_splits)

lemma sorted_wrt_strict:
  assumes "\<And>a b. \<lbrakk>\<not> R b a; f a \<noteq> f b\<rbrakk> \<Longrightarrow> R a b"
  shows "\<lbrakk>sorted_wrt (\<lambda>a b. \<not> R b a) xs; distinct (map f xs)\<rbrakk> \<Longrightarrow> sorted_wrt R xs"
proof (induction xs)
  case (Cons x xs)
  then have "R x y" if "y \<in> set xs" for y using assms [of y x] that by force
  then show ?case using Cons by simp
qed simp

definition keyed :: "(string \<rightharpoonup> episode_ref) \<Rightarrow> bool" where
  "keyed m \<longleftrightarrow> finite (dom m) \<and> (\<forall>k r. m k = Some r \<longrightarrow> er_slug r = k)"

lemma keyed_empty [simp]: "keyed Map.empty"
  by (simp add: keyed_def)

lemma keyed_update [simp]: "keyed m \<Longrightarrow> er_slug r = k \<Longrightarrow> keyed (m(k \<mapsto> r))"
  by (auto simp: keyed_def)

definition refs_of_title :: "string \<Rightarrow> episode_ref list \<Rightarrow> bool" where
  "refs_of_title slug refs \<longleftrightarrow> sorted_wrt ref_less refs \<and> distinct (map er_slug refs)
     \<and> (\<forall>r\<in>set refs. prefix (slug @ ''/episode/'') (er_slug r))"

locale kuramanime_world =
  fixes p :: "('w, 'n) kuramanime"
  assumes refs_sort: "slice_sort (km_sort_refs p)"
    and links_sort: "slice_sort (km_sort_links p)"
    and episodes_sort: "slice_sort (km_sort_episodes p)"
    and candidates_sort: "slice_sort (km_sort_candidates p)"
    and order: "finite K \<Longrightarrow> set (km_order p K) = K \<and> distinct (km_order p K)"
begin

lemma sorted_refs_spec:
  assumes "keyed m"
  shows "set (sorted_refs p m) = ran m" and "distinct (map er_slug (sorted_refs p m))"
    and "sorted_wrt ref_less (sorted_refs p m)"
proof -
  let ?l = "List.map_filter m (km_order p (dom m))"
  have o: "set (km_order p (dom m)) = dom m" "distinct (km_order p (dom m))"
    using order assms by (simp_all add: keyed_def)
  have "map er_slug (List.map_filter m ks) = ks" if "set ks \<subseteq> dom m" for ks
    using that assms by (induction ks) (auto simp: keyed_def)
  then have slugs: "map er_slug ?l = km_order p (dom m)" using o(1) by simp
  have "set ?l = ran m" using o(1) by (force simp: map_filter_def ran_def dom_def)
  then show "set (sorted_refs p m) = ran m"
    unfolding sorted_refs_def by (simp add: slice_sort.sort_set [OF refs_sort ref_less_order])
  show d: "distinct (map er_slug (sorted_refs p m))"
    unfolding sorted_refs_def slice_sort.sort_distinct_map [OF refs_sort ref_less_order] slugs by (rule o(2))
  have "ordered_by ref_less (sorted_refs p m)"
    unfolding sorted_refs_def by (rule slice_sort.sort_ordered [OF refs_sort ref_less_order])
  moreover have "ref_less a b" if "\<not> ref_less b a" "er_slug a \<noteq> er_slug b" for a b
    using that by (auto simp: ref_less_def split: if_splits)
  ultimately show "sorted_wrt ref_less (sorted_refs p m)"
    using sorted_wrt_strict [of ref_less er_slug "sorted_refs p m"] d unfolding ordered_by_def by blast
qed

lemma append_ref_fold:
  "\<lbrakk>keyed m; \<forall>r\<in>ran m. prefix (slug @ ''/episode/'') (er_slug r)\<rbrakk>
   \<Longrightarrow> keyed (foldl (append_episode_ref slug) m links)
     \<and> (\<forall>r\<in>ran (foldl (append_episode_ref slug) m links). prefix (slug @ ''/episode/'') (er_slug r))"
proof (induction links arbitrary: m)
  case (Cons l links)
  let ?m = "append_episode_ref slug m l"
  have "er_slug (make_ref s t) = s" for s t by (simp add: make_ref_def Let_def)
  then have "keyed ?m" "\<forall>r\<in>ran ?m. prefix (slug @ ''/episode/'') (er_slug r)"
    using Cons.prems by (auto simp: append_episode_ref_def Let_def ran_def split: if_splits)
  then show ?case using Cons.IH by simp
qed simp

lemma extract_refs_of_title: "refs_of_title slug (extract_episode_refs p raw slug)"
proof -
  let ?m = "foldl (append_episode_ref slug) Map.empty (episode_links (km_html p) raw)"
  have m: "keyed ?m" "\<forall>r\<in>ran ?m. prefix (slug @ ''/episode/'') (er_slug r)"
    using append_ref_fold [of Map.empty slug] by simp_all
  show ?thesis using sorted_refs_spec [OF m(1)] m(2) by (simp add: extract_episode_refs_def refs_of_title_def)
qed

lemma put_ref_facts:
  "keyed m \<Longrightarrow> keyed (put_ref m r)" "ran (put_ref m r) \<subseteq> insert r (ran m)"
  "dom (put_ref m r) = insert (er_slug r) (dom m)"
  by (auto simp: put_ref_def ran_def)

lemma put_refs_fold:
  "keyed m \<Longrightarrow> keyed (foldl put_ref m rs) \<and> ran (foldl put_ref m rs) \<subseteq> ran m \<union> set rs
    \<and> dom (foldl put_ref m rs) = dom m \<union> er_slug ` set rs"
proof (induction rs arbitrary: m)
  case (Cons r rs)
  then show ?case using Cons.IH [OF put_ref_facts(1) [OF Cons.prems], of r] put_ref_facts(2,3) [of m r] by auto
qed simp

lemma add_ref_facts:
  "keyed m \<Longrightarrow> keyed (add_ref m r)" "ran (add_ref m r) \<subseteq> insert r (ran m)" "m \<subseteq>\<^sub>m add_ref m r"
proof -
  show "keyed m \<Longrightarrow> keyed (add_ref m r)" by (simp add: add_ref_def put_ref_facts)
  show "ran (add_ref m r) \<subseteq> insert r (ran m)" using put_ref_facts(2) by (auto simp: add_ref_def)
  show "m \<subseteq>\<^sub>m add_ref m r" by (auto simp: add_ref_def put_ref_def map_le_def)
qed

lemma add_refs_fold:
  "keyed m \<Longrightarrow> keyed (foldl add_ref m rs) \<and> ran (foldl add_ref m rs) \<subseteq> ran m \<union> set rs \<and> m \<subseteq>\<^sub>m foldl add_ref m rs"
proof (induction rs arbitrary: m)
  case (Cons r rs)
  then show ?case
    using Cons.IH [OF add_ref_facts(1) [OF Cons.prems], of r] add_ref_facts(2) [of m r] map_le_trans [OF add_ref_facts(3)]
    by auto
qed simp

lemma keyed_slugs: "keyed m \<Longrightarrow> er_slug ` ran m = dom m"
  by (force simp: keyed_def ran_def dom_def)

text \<open>Merging keeps every reference of the first list and adds none from elsewhere.\<close>

lemma merge_refs:
  assumes "refs_of_title slug base" "refs_of_title slug extra"
  shows "refs_of_title slug (merge_episode_refs p base extra)"
    and "er_slug ` set base \<subseteq> er_slug ` set (merge_episode_refs p base extra)"
proof -
  let ?b = "foldl put_ref Map.empty base" and ?m = "foldl add_ref (foldl put_ref Map.empty base) extra"
  have b: "keyed ?b" "ran ?b \<subseteq> set base" "dom ?b = er_slug ` set base" using put_refs_fold [of Map.empty base] by auto
  have m: "keyed ?m" "ran ?m \<subseteq> set base \<union> set extra" "?b \<subseteq>\<^sub>m ?m" using add_refs_fold [OF b(1), of extra] b(2) by auto
  note s = sorted_refs_spec [OF m(1)]
  show "refs_of_title slug (merge_episode_refs p base extra)"
    using s m(2) assms by (auto simp: merge_episode_refs_def refs_of_title_def)
  have "dom ?b \<subseteq> dom ?m" using m(3) by (rule map_le_implies_dom_le)
  then show "er_slug ` set base \<subseteq> er_slug ` set (merge_episode_refs p base extra)"
    using keyed_slugs [OF m(1)] b(3) s(1) by (simp add: merge_episode_refs_def)
qed

lemma page_loop_refs:
  "refs_of_title slug refs \<Longrightarrow> refs_of_title slug (result (page_loop p slug n todo visited refs) w)
    \<and> er_slug ` set refs \<subseteq> er_slug ` set (result (page_loop p slug n todo visited refs) w)"
proof (induction n arbitrary: todo visited refs w)
  case (Suc n)
  show ?case
  proof (cases todo)
    case (Cons path rest)
    let ?x = "round_of p slug path w"
    have "refs_of_title slug (merged_refs p slug ?x refs)" "er_slug ` set refs \<subseteq> er_slug ` set (merged_refs p slug ?x refs)"
      using merge_refs [OF Suc.prems extract_refs_of_title] Suc.prems
      by (auto simp: merged_refs_def split: option.split)
    then show ?thesis unfolding Cons page_loop_round Let_def using Suc.IH by blast
  qed (simp add: Suc.prems)
qed simp

end

definition undated :: "episode \<Rightarrow> episode" where
  "undated e = e\<lparr>ep_released_at := []\<rparr>"

lemma run_jobs_undated: "map undated (result (run_jobs job es is cloned) w) = map undated cloned"
proof (induction "is" arbitrary: cloned w)
  case (Cons i "is")
  have "map undated (cloned[i := (cloned ! i)\<lparr>ep_released_at := l\<rparr>]) = map undated cloned" for l
    by (cases "i < length cloned")
      (simp_all add: map_update undated_def list_update_same_conv [THEN iffD2] list_update_beyond)
  then show ?case using Cons.IH by simp
qed simp

lemma newest_first_undated: "newest_first (undated a) (undated b) = newest_first a b"
  by (simp add: newest_first_def undated_def)

text \<open>
  C27. The episodes that are collected, whatever pages fail to load: they stand for distinct
  slugs of the title, newest first, and every episode the first page links to is among them.
\<close>

theorem collect_episodes_complete:
  assumes "kuramanime_world p" and "hl_print (km_html p) doc = Inr html"
    and "result (collect_episodes p doc catalog slug) w = Inr es"
  shows "\<exists>refs. refs_of_title slug refs
    \<and> er_slug ` set (extract_episode_refs p (hl_unescape (km_html p) html) slug) \<subseteq> er_slug ` set refs
    \<and> mset (map undated es) = mset (map (episode_of_ref catalog) refs)
    \<and> ordered_by newest_first es \<and> es \<noteq> []"
proof -
  let ?first = "extract_episode_refs p (hl_unescape (km_html p) html) slug"
  let ?q = "first_queue p (hl_unescape (km_html p) html) ?first"
  let ?loop = "page_loop p slug max_episode_pages ?q (set ?q) ?first"
  let ?refs = "result ?loop w"
  let ?sorted = "km_sort_episodes p newest_first (map (episode_of_ref catalog) ?refs)"
  have ne: "?first \<noteq> []" using assms(2,3) by (auto simp: collect_episodes_def Let_def)
  then have es: "es = result (enrich_release_dates p ?sorted) (after ?loop w)"
    using assms(2,3) by (simp add: collect_episodes_def Let_def)
  have refs: "refs_of_title slug ?refs" "er_slug ` set ?first \<subseteq> er_slug ` set ?refs"
    using kuramanime_world.page_loop_refs [OF assms(1) kuramanime_world.extract_refs_of_title [OF assms(1)]] by blast+
  note sort = kuramanime_world.episodes_sort [OF assms(1)]
  have u: "map undated es = map undated ?sorted"
    unfolding es enrich_release_dates_def by (simp add: run_jobs_undated)
  have "undated (episode_of_ref catalog r) = episode_of_ref catalog r" for r
    by (simp add: undated_def episode_of_ref_def Let_def)
  then have e: "map undated (map (episode_of_ref catalog) ?refs) = map (episode_of_ref catalog) ?refs" by simp
  have "mset (map undated es) = image_mset undated (mset ?sorted)" unfolding u by simp
  also have "\<dots> = mset (map undated (map (episode_of_ref catalog) ?refs))"
    by (simp only: slice_sort.sort_mset [OF sort newest_first_order] mset_map)
  finally have m: "mset (map undated es) = mset (map (episode_of_ref catalog) ?refs)" unfolding e .
  have "sorted_wrt (\<lambda>a b. \<not> newest_first b a) (map undated ?sorted)"
    using slice_sort.sort_ordered [OF sort newest_first_order]
    by (simp add: ordered_by_def sorted_wrt_map newest_first_undated)
  then have "ordered_by newest_first es"
    unfolding u [symmetric] by (simp add: ordered_by_def sorted_wrt_map newest_first_undated)
  moreover have "es \<noteq> []"
  proof
    assume "es = []"
    then have "?refs = []" using m by simp
    then show False using refs(2) ne by simp
  qed
  ultimately show ?thesis using refs m by blast
qed

section \<open>Streams\<close>

lemma by_priority_order: "weak_order by_priority"
  by unfold_locales (auto simp: by_priority_def)

lemma by_quality_order: "weak_order by_quality"
  by unfold_locales (auto simp: by_quality_def)

definition kuramadrive :: "stream_candidate \<Rightarrow> bool" where
  "kuramadrive c \<longleftrightarrow> is_live c \<and> sc_container c = ''mp4'' \<and> sc_url c \<noteq> [] \<and> is_trimmed (sc_url c)"

lemma player_candidate_drive: "c \<in> set (player_candidate raw q) \<Longrightarrow> kuramadrive c"
  using trim_space_trimmed by (auto simp: player_candidate_def Let_def kuramadrive_def is_live_def split: if_splits)

text \<open>
  C30. The streams read from a player are playable as they are, differ in quality or URL, and
  come in the order of their resolution, the highest first.
\<close>

theorem stream_candidates_sound:
  assumes "kuramanime_world p" and "extract_stream_candidates p raw = Inr cs"
  shows "(\<forall>c\<in>set cs. kuramadrive c) \<and> distinct (map candidate_identity cs)
    \<and> sorted_wrt (\<lambda>a b. quality_number (sc_quality a) \<ge> quality_number (sc_quality b)) cs \<and> cs \<noteq> []"
proof -
  note sort = kuramanime_world.candidates_sort [OF assms(1)]
  obtain doc where doc: "hl_parse (km_html p) raw = Inr doc"
    using assms(2) by (cases "hl_parse (km_html p) raw") (simp_all add: extract_stream_candidates_def Let_def)
  define xs where "xs = concat (map (video_candidate (km_html p)) (hl_find (km_html p) doc ''#player''))
    @ concat (map (source_candidate (km_html p)) (hl_find (km_html p) doc ''#player source''))"
  have "Inr cs = (if xs = [] then Inl ''no stream candidates found'' else Inr (dedupe_candidates p (km_sort_candidates p by_priority xs)))"
    unfolding assms(2) [symmetric] extract_stream_candidates_def Let_def doc xs_def by simp
  then have xs: "xs \<noteq> []" "cs = dedupe_candidates p (km_sort_candidates p by_priority xs)"
    by (auto split: if_splits)
  have drive: "\<forall>c\<in>set xs. kuramadrive c"
    using player_candidate_drive by (auto simp: xs_def video_candidate_def source_candidate_def Let_def)
  let ?s = "km_sort_candidates p by_priority xs" and ?d = "dedup_by candidate_identity {} (km_sort_candidates p by_priority xs)"
  have sub: "set ?d \<subseteq> set xs" using dedup_by_set [of candidate_identity "{}" ?s] slice_sort.sort_set [OF sort by_priority_order] by auto
  have "candidate_identity ` set ?d = candidate_identity ` set ?s" by (simp add: dedup_by_keys)
  then have ne: "?d \<noteq> []" using xs(1) slice_sort.sort_Nil [OF sort by_priority_order, of xs] by auto
  have cs: "cs = km_sort_candidates p by_quality ?d" unfolding xs(2) dedupe_candidates_def ..
  have "distinct (map candidate_identity cs)"
    unfolding cs slice_sort.sort_distinct_map [OF sort by_quality_order] by (rule dedup_by_distinct)
  moreover have "sorted_wrt (\<lambda>a b. quality_number (sc_quality a) \<ge> quality_number (sc_quality b)) cs"
    using slice_sort.sort_ordered [OF sort by_quality_order, of ?d]
    unfolding cs ordered_by_def by_quality_def not_less .
  moreover have "\<forall>c\<in>set cs. kuramadrive c"
    using sub drive slice_sort.sort_set [OF sort by_quality_order, of ?d] unfolding cs by auto
  moreover have "cs \<noteq> []" using ne slice_sort.sort_Nil [OF sort by_quality_order, of ?d] unfolding cs by simp
  ultimately show ?thesis by blast
qed

section \<open>View counts\<close>

lemma round_half_even_close:
  assumes "0 < b"
  shows "2 * \<bar>round_half_even a b * b - a\<bar> \<le> b"
proof -
  define q r where "q = a div b" and "r = a mod b"
  have a: "a = q * b + r" "0 \<le> r" "r < b" using assms by (simp_all add: q_def r_def)
  have "round_half_even a b = q \<and> 2 * r \<le> b \<or> round_half_even a b = q + 1 \<and> b \<le> 2 * r"
    unfolding round_half_even_def Let_def q_def [symmetric] r_def [symmetric] by auto
  then show ?thesis
  proof
    assume "round_half_even a b = q \<and> 2 * r \<le> b"
    then show ?thesis using a by simp
  next
    assume h: "round_half_even a b = q + 1 \<and> b \<le> 2 * r"
    then have "round_half_even a b * b - a = b - r" using a(1) by (simp add: distrib_right)
    then show ?thesis using a h by simp
  qed
qed

lemma to_double_small:
  assumes "n < 2 ^ 53"
  shows "to_double n = n"
proof -
  have e: "(11 :: nat) = Suc 10" by simp
  have "bits_over (Suc 10) n = 0" unfolding bits_over.simps(2) using assms by (simp only: if_True)
  then show ?thesis unfolding to_double_def e Let_def by (simp add: round_half_even_def del: bits_over.simps)
qed

lemma quotient_scale_enough: "2 ^ 52 * b \<le> a * 2 ^ f \<Longrightarrow> 2 ^ 52 * b \<le> a * 2 ^ quotient_scale f a b"
proof (induction f a b rule: quotient_scale.induct)
  case (2 f a b)
  have "a * 2 ^ Suc f = 2 * a * 2 ^ f" by simp
  then have "2 ^ 52 * b \<le> 2 * a * 2 ^ quotient_scale f (2 * a) b" if "\<not> a \<ge> 2 ^ 52 * b" using 2 that by simp
  then show ?case by (cases "a \<ge> 2 ^ 52 * b") simp_all
qed simp

lemma one_decimal_close:
  assumes "unit \<le> n" "10 * n < 2 ^ 52" "0 < unit"
  shows "\<exists>t. one_decimal n unit = itoa (t div 10) @ ''.'' @ itoa (t mod 10) \<and> 2 * \<bar>t * unit - 10 * n\<bar> \<le> unit"
proof -
  define s where "s = quotient_scale 53 n unit"
  define P :: int where "P = 2 ^ s"
  define m where "m = round_half_even (n * P) unit"
  define t where "t = round_half_even (10 * m) P"
  have n: "0 < n" "to_double n = n" using assms to_double_small [of n] by simp_all
  have "2 ^ 52 * unit \<le> n * 2 ^ 53" using assms by simp
  then have "2 ^ 52 * unit \<le> n * P" unfolding P_def s_def by (rule quotient_scale_enough)
  moreover have "n * (10 * unit) < 2 ^ 52 * unit" using assms by simp
  ultimately have "n * (10 * unit) < n * P" by linarith
  then have P: "10 * unit < P" "0 < P" using n(1) by (simp_all add: P_def)
  have "2 * \<bar>m * unit - n * P\<bar> \<le> unit" unfolding m_def by (rule round_half_even_close [OF assms(3)])
  moreover have "2 * \<bar>t * P - 10 * m\<bar> \<le> P" unfolding t_def by (rule round_half_even_close [OF P(2)])
  then have "2 * \<bar>t * P - 10 * m\<bar> * unit \<le> P * unit" using assms(3) by (intro mult_right_mono) simp_all
  then have "2 * \<bar>t * P * unit - 10 * m * unit\<bar> \<le> P * unit"
  proof -
    have "\<bar>t * P - 10 * m\<bar> * unit = \<bar>(t * P - 10 * m) * unit\<bar>" using assms(3) by (simp add: abs_mult)
    then show ?thesis using \<open>2 * \<bar>t * P - 10 * m\<bar> * unit \<le> P * unit\<close> by (simp add: left_diff_distrib)
  qed
  moreover have "P * (t * unit - 10 * n) = t * P * unit - 10 * (n * P)" by (simp add: algebra_simps)
  moreover have chain: "2 * \<bar>z - 10 * y\<bar> \<le> w + 10 * u" if "2 * \<bar>x - y\<bar> \<le> u" "2 * \<bar>z - 10 * x\<bar> \<le> w" for x y z u w :: int
    using that by (cases "x \<ge> y"; cases "z \<ge> 10 * x"; cases "z \<ge> 10 * y"; simp)
  ultimately have "2 * \<bar>P * (t * unit - 10 * n)\<bar> \<le> P * unit + 10 * unit"
    using chain [of "m * unit" "n * P" unit "t * P * unit" "P * unit"] by (simp add: mult.assoc)
  then have "P * (2 * \<bar>t * unit - 10 * n\<bar>) \<le> P * unit + 10 * unit" using P(2) by (simp add: abs_mult)
  also have "\<dots> < P * (unit + 1)" using P(1) by (simp add: distrib_left)
  finally have "2 * \<bar>t * unit - 10 * n\<bar> < unit + 1" using P(2) by simp
  then have "2 * \<bar>t * unit - 10 * n\<bar> \<le> unit" by simp
  moreover have "one_decimal n unit = itoa (t div 10) @ ''.'' @ itoa (t mod 10)"
    unfolding one_decimal_def Let_def n(2) s_def [symmetric] P_def [symmetric] m_def [symmetric] t_def [symmetric] ..
  ultimately show ?thesis by blast
qed

text \<open>
  Compact view counts are right to one decimal place, in spite of the rounding of the
  division to a double: a count in the thousands is printed as the nearest tenth of a
  thousand, one in the millions as the nearest tenth of a million (at a tie, one of the two).
\<close>

theorem compact_views_close:
  assumes "1000 \<le> v" "10 * v < 2 ^ 52"
  shows "\<exists>t. if v < 1000000
    then format_compact_views v = itoa (t div 10) @ ''.'' @ itoa (t mod 10) @ ''K'' \<and> \<bar>100 * t - v\<bar> \<le> 50
    else format_compact_views v = itoa (t div 10) @ ''.'' @ itoa (t mod 10) @ ''M'' \<and> \<bar>100000 * t - v\<bar> \<le> 50000"
proof (cases "v < 1000000")
  case True
  obtain t where "one_decimal v 1000 = itoa (t div 10) @ ''.'' @ itoa (t mod 10)" "2 * \<bar>t * 1000 - 10 * v\<bar> \<le> 1000"
    using one_decimal_close [of 1000 v] assms by auto
  moreover from this(2) have "\<bar>100 * t - v\<bar> \<le> 50" by simp
  ultimately show ?thesis using True assms(1) by (intro exI [of _ t]) (simp add: format_compact_views_def)
next
  case False
  obtain t where "one_decimal v 1000000 = itoa (t div 10) @ ''.'' @ itoa (t mod 10)" "2 * \<bar>t * 1000000 - 10 * v\<bar> \<le> 1000000"
    using one_decimal_close [of 1000000 v] assms False by auto
  moreover from this(2) have "\<bar>100000 * t - v\<bar> \<le> 50000" by simp
  ultimately show ?thesis using False by (intro exI [of _ t]) (simp add: format_compact_views_def)
qed

theorem compact_views_close_witness:
  "\<exists>t. format_compact_views 1350 = itoa (t div 10) @ ''.'' @ itoa (t mod 10) @ ''K'' \<and> \<bar>100 * t - 1350\<bar> \<le> 50"
  using compact_views_close [of 1350] by simp

text \<open>Just below a million the unit is still a thousand.\<close>

lemma compact_views_below_million: "format_compact_views 999950 = ''1000.0K''"
  by code_simp

section \<open>A reference provider\<close>

text \<open>
  A small HTML library: a node has attributes, a text and, for every selector, the nodes it
  finds; every text parses to the same page. The network is down.
\<close>

datatype ref_node = RefNode (ref_attrs: "(string \<times> string) list") (ref_text: string) (ref_found: "(string \<times> ref_node list) list")

definition ref_html :: "ref_node \<Rightarrow> ref_node html" where
  "ref_html page =
     \<lparr>hl_parse = (\<lambda>_. Inr [page]), hl_print = (\<lambda>_. Inr []),
      hl_find = (\<lambda>sel q. concat (map (\<lambda>n. case map_of (ref_found n) q of None \<Rightarrow> [] | Some ns \<Rightarrow> ns) sel)),
      hl_prev = (\<lambda>_. []), hl_attr = (\<lambda>n a. map_of (ref_attrs n) a), hl_text = (\<lambda>sel. concat (map ref_text sel)),
      hl_name = (\<lambda>_. ''a''), hl_has_class = (\<lambda>_ _. False), hl_unescape = id\<rparr>"

definition ref_kuramanime :: "ref_node \<Rightarrow> (http_request \<Rightarrow> ('w, string + http_response) eff) \<Rightarrow> ('w, ref_node) kuramanime" where
  "ref_kuramanime page client =
     \<lparr>km_base = ''https://v17.kuramanime.ink'', km_agent = ''test'', km_client = client, km_html = ref_html page,
      km_render = (\<lambda>_. pass (Inl ''no browser'')), km_rows = (\<lambda>_. Inl ''no rows''),
      km_sort_refs = stable_sort, km_sort_links = stable_sort, km_sort_episodes = stable_sort,
      km_sort_candidates = stable_sort, km_order = sorted_list_of_set, km_wide_letter = (\<lambda>_. None),
      km_schedule = (\<lambda>n. rev [0..<n])\<rparr>"

interpretation ref_kuramanime: kuramanime_world "ref_kuramanime page client"
  by unfold_locales (simp_all add: ref_kuramanime_def weak_order.ordered_stable_sort)

definition episodes_selector :: string where
  "episodes_selector = ''a[href*='' @ [CHR 0x27] @ ''/anime/'' @ [CHR 0x27] @ ''][href*='' @ [CHR 0x27] @ ''/episode/'' @ [CHR 0x27] @ '']''"

definition episode_page :: ref_node where
  "episode_page = RefNode [] [] [(episodes_selector, [RefNode [(''href'', ''/anime/1/b/episode/3'')] ''Ep 3'' []])]"

definition player_page :: ref_node where
  "player_page = RefNode [] []
     [(''#player source'',
       [RefNode [(''src'', ''https://kitasan.my.id/a.mp4''), (''size'', ''480'')] [] [],
        RefNode [(''src'', ''https://kitasan.my.id/b.mp4''), (''size'', ''720'')] [] []])]"

definition down :: "http_request \<Rightarrow> ('w, string + http_response) eff" where
  "down _ = pass (Inl ''network is down'')"

lemma ref_page_links: "episode_links (ref_html episode_page) [] = [(''/anime/1/b/episode/3'', normalize_space ''Ep 3'')]"
  by code_simp

theorem collect_episodes_complete_witness:
  "\<exists>es. result (collect_episodes (ref_kuramanime episode_page down) [episode_page] ''kuramanime:1/b'' ''1/b'') () = Inr es
    \<and> ordered_by newest_first es \<and> es \<noteq> []"
proof -
  let ?p = "ref_kuramanime episode_page down :: (unit, ref_node) kuramanime"
  have html: "km_html ?p = ref_html episode_page" by (simp add: ref_kuramanime_def)
  have h: "hl_print (km_html ?p) [episode_page] = Inr []" "hl_unescape (km_html ?p) [] = []"
    by (simp_all add: html ref_html_def)
  have slug: "episode_slug_from_href ''/anime/1/b/episode/3'' = ''1/b/episode/3''" by code_simp
  let ?m = "foldl (append_episode_ref ''1/b'') Map.empty (episode_links (km_html ?p) [])"
  have "?m = [''1/b/episode/3'' \<mapsto> make_ref ''1/b/episode/3'' (normalize_space ''Ep 3'')]"
    unfolding html ref_page_links by (simp add: append_episode_ref_def slug Let_def)
  then have "set (extract_episode_refs ?p [] ''1/b'') = {make_ref ''1/b/episode/3'' (normalize_space ''Ep 3'')}"
    unfolding extract_episode_refs_def
    by (simp add: ref_kuramanime.sorted_refs_spec(1) make_ref_def Let_def)
  then have "extract_episode_refs ?p [] ''1/b'' \<noteq> []" by auto
  then obtain es where "result (collect_episodes ?p [episode_page] ''kuramanime:1/b'' ''1/b'') () = Inr es"
    by (simp add: collect_episodes_def h Let_def)
  with collect_episodes_complete [OF ref_kuramanime.kuramanime_world_axioms h(1) this] show ?thesis by blast
qed

definition player_provider :: "(unit, ref_node) kuramanime" where
  "player_provider = ref_kuramanime player_page down"

definition logged_provider :: "(unit \<times> http_request list, ref_node) kuramanime" where
  "logged_provider = ref_kuramanime episode_page (logging down)"

theorem stream_candidates_sound_witness:
  "\<exists>cs. extract_stream_candidates player_provider [] = Inr cs
    \<and> sorted_wrt (\<lambda>a b. quality_number (sc_quality a) \<ge> quality_number (sc_quality b)) cs \<and> cs \<noteq> []"
proof -
  have s: "trim_space ''https://kitasan.my.id/a.mp4'' \<noteq> []" by code_simp
  obtain cs where cs: "extract_stream_candidates player_provider [] = Inr cs"
    by (simp add: extract_stream_candidates_def player_provider_def ref_kuramanime_def ref_html_def player_page_def Let_def
        source_candidate_def attr_def attr_opt_def player_candidate_def s)
  have "kuramanime_world player_provider" unfolding player_provider_def by (rule ref_kuramanime.kuramanime_world_axioms)
  from stream_candidates_sound [OF this cs] cs show ?thesis by blast
qed

definition sample_episodes :: "episode list" where
  "sample_episodes = map (\<lambda>i. \<lparr>ep_id = i, ep_catalog_id = [], ep_number = 1, ep_title = [], ep_label = [], ep_released_at = []\<rparr>)
     [''kuramanime:1/b/episode/2'', ''kuramanime:1/b/episode/1'']"



end
