(* ===== verification/Otakudesu.thy ===== *)
theory Otakudesu
  imports Html
begin

text \<open>
  The provider of \<open>internal/provider/otakudesu\<close>: \<open>client.go\<close>, \<open>catalog.go\<close> and
  \<open>stream.go\<close>. Every operation fetches pages and reads them with the HTML library; together
  they are a \<open>provider\<close>.
\<close>

section \<open>Client\<close>

definition ot_name :: string where
  "ot_name = ''otakudesu''"

record ('w, 'n) otakudesu =
  ot_base :: string
  ot_agent :: string
  ot_client :: "http_request \<Rightarrow> ('w, string + http_response) eff"
  ot_html :: "'n html"
  ot_sort :: "(episode \<Rightarrow> episode \<Rightarrow> bool) \<Rightarrow> episode list \<Rightarrow> episode list"

definition ot_get_doc :: "('w, 'n) otakudesu \<Rightarrow> string \<Rightarrow> ('w, string + 'n list) eff" where
  "ot_get_doc p path =
     fetch_page (ot_client p) (hl_parse (ot_html p))
       \<lparr>hq_url = ot_base p @ path,
        hq_headers = [''User-Agent'' \<mapsto> ot_agent p, ''Accept-Language'' \<mapsto> ''en-US,en;q=0.9,id;q=0.8'']\<rparr>"

definition to_catalog_id :: "string \<Rightarrow> string" where
  "to_catalog_id slug = new_catalog_id ot_name slug"

definition slug_from_href :: "string \<Rightarrow> string \<Rightarrow> string" where
  "slug_from_href href pre =
     (let slug = trim_space href;
          slug = (case url_parse slug of Some u \<Rightarrow> if u_path u \<noteq> [] then u_path u else slug | None \<Rightarrow> slug)
      in trim_char CHR ''/'' (trim_prefix (trim_prefix slug pre) ''/''))"

definition ot_episode_number :: "string \<Rightarrow> int" where
  "ot_episode_number label =
     (case find_all (Group (re_plus re_digit)) label of
        [] \<Rightarrow> 0
      | ms \<Rightarrow> atoi_value (last ms ! 1))"

definition card_from_selection :: "'n html \<Rightarrow> 'n list \<Rightarrow> anime_card" where
  "card_from_selection h sel =
     (let txt = (\<lambda>q. trimmed_text h (hl_find h sel q));
          title = (if txt ''.jdlflm'' = [] then txt ''h2 a'' else txt ''.jdlflm'');
          href = (if attr h (hl_find h sel ''a'') ''href'' = [] then attr h (hl_find h sel ''h2 a'') ''href''
                  else attr h (hl_find h sel ''a'') ''href'');
          cover = (if attr h (hl_find h sel ''img'') ''src'' = [] then attr h (hl_find h sel ''img'') ''data-src''
                   else attr h (hl_find h sel ''img'') ''src'');
          status = (if txt ''.epzti'' = [] then txt ''.col-anime-eps'' else txt ''.epzti'')
      in \<lparr>card_id = to_catalog_id (slug_from_href href ''/anime/''), card_title = title, card_cover = cover,
          card_status = status, card_episode = status, card_rating = txt ''.col-anime-rating'', card_views = [],
          card_provider = ot_name\<rparr>)"

text \<open>The first paragraph that mentions the label decides, even if it yields nothing.\<close>

fun detail_loop :: "'n html \<Rightarrow> string \<Rightarrow> 'n list \<Rightarrow> string" where
  "detail_loop h want [] = []"
| "detail_loop h want (n # ns) =
     (if \<not> contains_str (to_lower (trimmed_text h [n])) want then detail_loop h want ns
      else (let value = trimmed_text h (hl_find h [n] ''span:nth-child(2)'')
            in if value \<noteq> [] then value
               else (case split_n2 CHR '':'' (trimmed_text h [n]) of [_, v] \<Rightarrow> trim_space v | _ \<Rightarrow> [])))"

definition detail_value :: "'n html \<Rightarrow> 'n list \<Rightarrow> string \<Rightarrow> string" where
  "detail_value h info label = detail_loop h (to_lower label) (hl_find h info ''p'')"

section \<open>Pages\<close>

definition cards_of :: "'n html \<Rightarrow> 'n list \<Rightarrow> anime_card list" where
  "cards_of h sel = map (\<lambda>n. card_from_selection h [n]) sel"

definition ot_home :: "('w, 'n) otakudesu \<Rightarrow> ('w, string + home_feed) eff" where
  "ot_home p =
     do { doc \<leftarrow> ot_get_doc p ''/'';
          pass (case doc of
                  Inl err \<Rightarrow> Inl err
                | Inr d \<Rightarrow>
                    let h = ot_html p;
                        sections = hl_find h d ''.rseries'';
                        ongoing = cards_of h (hl_find h (sel_eq 0 sections) ''.venz ul li'');
                        recent = cards_of h (hl_find h (sel_eq 1 sections) ''.venz ul li'')
                    in Inr \<lparr>hf_featured = (if length ongoing > 5 then take 5 ongoing else ongoing),
                            hf_ongoing = ongoing, hf_recent = recent\<rparr>) }"

definition ot_search :: "('w, 'n) otakudesu \<Rightarrow> string \<Rightarrow> ('w, string + anime_card list option) eff" where
  "ot_search p query =
     do { doc \<leftarrow> ot_get_doc p (''/?s='' @ query_escape query @ ''&post_type=anime'');
          pass (case doc of
                  Inl err \<Rightarrow> Inl err
                | Inr d \<Rightarrow>
                    let h = ot_html p; items = cards_of h (hl_find h d ''.chivsrc li'')
                    in Inr (nil_if_empty (if items = [] then cards_of h (hl_find h d ''.venz ul li'') else items))) }"

definition schedule_card :: "'n html \<Rightarrow> 'n \<Rightarrow> anime_card" where
  "schedule_card h a =
     \<lparr>card_id = to_catalog_id (slug_from_href (attr h [a] ''href'') ''/anime/''), card_title = trimmed_text h [a],
      card_cover = [], card_status = [], card_episode = [], card_rating = [], card_views = [], card_provider = ot_name\<rparr>"

definition ot_schedule :: "('w, 'n) otakudesu \<Rightarrow> ('w, string + schedule_day list) eff" where
  "ot_schedule p =
     do { doc \<leftarrow> ot_get_doc p ''/jadwal-rilis/'';
          pass (case doc of
                  Inl err \<Rightarrow> Inl err
                | Inr d \<Rightarrow>
                    let h = ot_html p in
                    Inr (filter (\<lambda>x. sd_day x \<noteq> [])
                      (map (\<lambda>n. \<lparr>sd_day = trimmed_text h (hl_find h [n] ''h2''),
                                   sd_items = map (schedule_card h) (hl_find h [n] ''ul li a'')\<rparr>)
                        (hl_find h d ''.kglist321'')))) }"

definition append_card :: "string \<Rightarrow> anime_card \<Rightarrow> (string \<rightharpoonup> anime_card list) \<Rightarrow> (string \<rightharpoonup> anime_card list)" where
  "append_card key item m = m(key \<mapsto> (case m key of None \<Rightarrow> [] | Some cs \<Rightarrow> cs) @ [item])"

definition index_group :: "'n html \<Rightarrow> (string \<rightharpoonup> anime_card list) \<Rightarrow> 'n \<Rightarrow> (string \<rightharpoonup> anime_card list)" where
  "index_group h m n =
     (let key = trimmed_text h (hl_find h [n] ''.barispenz a'')
      in if key = [] then m
         else foldl (\<lambda>m a.
                if slug_from_href (attr h [a] ''href'') ''/anime/'' = [] \<or> trimmed_text h [a] = [] then m
                else append_card key (schedule_card h a) m) m (hl_find h [n] ''.jdlbar ul li a.hodebgst''))"

definition ot_index :: "('w, 'n) otakudesu \<Rightarrow> ('w, string + (string \<rightharpoonup> anime_card list)) eff" where
  "ot_index p =
     do { doc \<leftarrow> ot_get_doc p ''/anime-list/'';
          pass (case doc of
                  Inl err \<Rightarrow> Inl err
                | Inr d \<Rightarrow>
                    Inr (foldl (index_group (ot_html p)) Map.empty (hl_find (ot_html p) d ''.bariskelom''))) }"

definition unsupported :: "string \<Rightarrow> string" where
  "unsupported what = what @ '' is not supported by '' @ ot_name"

section \<open>Details\<close>

definition ot_genres :: "'n html \<Rightarrow> 'n list \<Rightarrow> string list" where
  "ot_genres h info =
     concat (map (\<lambda>n. if contains_str (to_lower (hl_text h [n])) ''genre''
                      then filter (\<lambda>g. g \<noteq> []) (map (\<lambda>a. trimmed_text h [a]) (hl_find h [n] ''a'')) else [])
       (hl_find h info ''p''))"

definition ot_episode :: "'n html \<Rightarrow> string \<Rightarrow> 'n \<Rightarrow> episode list" where
  "ot_episode h catalog n =
     (let a = hl_find h [n] ''a''; href = attr h a ''href''; label = trimmed_text h a
      in if \<not> contains_str href ''/episode/'' then []
         else [\<lparr>ep_id = to_catalog_id (slug_from_href href ''/episode/''), ep_catalog_id = catalog,
                ep_number = ot_episode_number label, ep_title = label, ep_label = label,
                ep_released_at = trimmed_text h (hl_find h [n] ''.zeebr'')\<rparr>])"

definition ot_episode_list :: "'n html \<Rightarrow> 'n list \<Rightarrow> string \<Rightarrow> episode list" where
  "ot_episode_list h d catalog =
     concat (map (\<lambda>n. if contains_str (to_lower (hl_text h (hl_prev h [n]))) ''batch'' then []
                      else concat (map (ot_episode h catalog) (hl_find h [n] ''ul li'')))
       (hl_find h d ''.episodelist''))"

definition by_number_desc :: "episode \<Rightarrow> episode \<Rightarrow> bool" where
  "by_number_desc a b \<longleftrightarrow> ep_number a > ep_number b"

definition first_filled :: "string list \<Rightarrow> string" where
  "first_filled xs = (case filter (\<lambda>x. x \<noteq> []) xs of [] \<Rightarrow> [] | x # _ \<Rightarrow> x)"

definition ot_detail :: "('w, 'n) otakudesu \<Rightarrow> string \<Rightarrow> 'n list \<Rightarrow> anime_detail" where
  "ot_detail p catalog d =
     (let h = ot_html p; info = hl_find h d ''.infozin .infozingle'';
          q = [CHR 0x22];
          title = detail_value h info ''judul'';
          synopsis = first_filled
            [trimmed_text h (hl_find h d ''.sinopc''),
             attr h (hl_find h d (''meta[name='' @ q @ ''description'' @ q @ '']'')) ''content'',
             attr h (hl_find h d (''meta[property='' @ q @ ''og:description'' @ q @ '']'')) ''content'']
      in \<lparr>det_id = catalog,
          det_title = (if title = [] then trimmed_text h (hl_find h d ''.infozin .infozingle p:nth-child(1) span:nth-child(2)'')
                       else title),
          det_synopsis = trim_space synopsis, det_cover = attr h (hl_find h d ''.fotoanime img'') ''src'', det_banner = [],
          det_genres = ot_genres h info,
          det_metadata = Some
            [''status'' \<mapsto> detail_value h info ''status'', ''rating'' \<mapsto> detail_value h info ''skor'',
             ''type'' \<mapsto> detail_value h info ''tipe'', ''studio'' \<mapsto> detail_value h info ''studio'',
             ''duration'' \<mapsto> detail_value h info ''durasi'', ''release'' \<mapsto> detail_value h info ''tanggal rilis''],
          det_episodes = ot_sort p by_number_desc (ot_episode_list h d catalog),
          det_recommendations = [], det_provider = ot_name\<rparr>)"

definition ot_catalog :: "('w, 'n) otakudesu \<Rightarrow> string \<Rightarrow> ('w, string + anime_detail) eff" where
  "ot_catalog p catalog =
     (case parse_qualified_id catalog of
        Inl err \<Rightarrow> pass (Inl (id_error_text err))
      | Inr (_, slug) \<Rightarrow>
          do { doc \<leftarrow> ot_get_doc p (''/anime/'' @ slug @ ''/'');
               pass (case doc of Inl err \<Rightarrow> Inl err | Inr d \<Rightarrow> Inr (ot_detail p catalog d)) })"

definition ot_episodes :: "('w, 'n) otakudesu \<Rightarrow> string \<Rightarrow> ('w, string + episode list) eff" where
  "ot_episodes p catalog =
     do { detail \<leftarrow> ot_catalog p catalog;
          pass (case detail of Inl err \<Rightarrow> Inl err | Inr d \<Rightarrow> Inr (det_episodes d)) }"

section \<open>Streams\<close>

definition container_from :: "string \<Rightarrow> string \<Rightarrow> string" where
  "container_from quality href =
     (let source = to_lower (quality @ '' '' @ href)
      in if contains_str source ''mp4'' then ''mp4'' else if contains_str source ''mkv'' then ''mkv'' else ''unknown'')"

definition normalize_download_url :: "string \<Rightarrow> bool \<times> string" where
  "normalize_download_url href =
     (if contains_str href ''pixeldrain.com/u/'' then
        (True, ''https://pixeldrain.com/api/file/'' @ last (split_char CHR ''/'' (trim_right_char CHR ''/'' href)) @ ''?download'')
      else if contains_str href ''pixeldrain.com/api/file/'' then (True, href)
      else if suffix ''.mp4'' (to_lower href) then (True, href)
      else (False, href))"

definition ot_stream_priority :: "string \<Rightarrow> string \<Rightarrow> bool \<Rightarrow> int" where
  "ot_stream_priority container quality direct =
     (if direct then 100 else 0) + (if container = ''mp4'' then 50 else 0)
     + (let q = to_lower quality
        in if contains_str q ''720'' then 40 else if contains_str q ''480'' then 35
           else if contains_str q ''1080'' then 30 else if contains_str q ''360'' then 20 else 10)"

definition download_candidate :: "'n html \<Rightarrow> string \<Rightarrow> 'n \<Rightarrow> stream_candidate list" where
  "download_candidate h quality a =
     (let href = attr h [a] ''href''
      in if href = [] then []
         else (let container = container_from quality href;
                   direct = fst (normalize_download_url href); url = snd (normalize_download_url href)
               in [\<lparr>sc_url = (if url = [] then href else url), sc_container = container, sc_quality = quality, sc_codec = [],
                    sc_direct = direct, sc_playable = direct,
                    sc_priority = ot_stream_priority container quality direct, sc_label = trimmed_text h [a]\<rparr>]))"

definition ot_stream_candidates :: "('w, 'n) otakudesu \<Rightarrow> string \<Rightarrow> ('w, string + stream_candidate list) eff" where
  "ot_stream_candidates p ep =
     (case parse_qualified_id ep of
        Inl err \<Rightarrow> pass (Inl (id_error_text err))
      | Inr (_, slug) \<Rightarrow>
          do { doc \<leftarrow> ot_get_doc p (''/episode/'' @ slug @ ''/'');
               pass (case doc of
                       Inl err \<Rightarrow> Inl err
                     | Inr d \<Rightarrow>
                         let h = ot_html p;
                             candidates = concat (map (\<lambda>n.
                               concat (map (download_candidate h (trimmed_text h (hl_find h [n] ''strong''))) (hl_find h [n] ''a'')))
                               (hl_find h d ''.download ul li''))
                         in if candidates = [] then Inl ''no downloadable candidates found'' else Inr candidates) })"

definition otakudesu_provider :: "('w, 'n) otakudesu \<Rightarrow> 'w provider" where
  "otakudesu_provider p =
     \<lparr>pr_name = ot_name, pr_home = ot_home p, pr_search = ot_search p, pr_schedule = ot_schedule p,
      pr_schedule_page = (\<lambda>_ _. pass (Inl (unsupported ''schedule page''))), pr_index = ot_index p,
      pr_property_list = (\<lambda>_. pass (Inl (unsupported ''property list''))),
      pr_property_catalog = (\<lambda>_ _ _ _. pass (Inl (unsupported ''property catalog''))),
      pr_quick_catalog = (\<lambda>_ _ _. pass (Inl (unsupported ''quick catalog''))),
      pr_seasonal_popular = pass (Inl (unsupported ''seasonal popular'')),
      pr_catalog = ot_catalog p, pr_episodes = ot_episodes p, pr_stream_candidates = ot_stream_candidates p\<rparr>"

end
