(* ===== verification/Otakudesu_Props.thy ===== *)
theory Otakudesu_Props
  imports Otakudesu Route_Props
begin

text \<open>
  How the download links of the provider \<open>otakudesu\<close> fare in the media route: a Pixeldrain
  link becomes a URL that is allowed, whereas a link to any other host that ends in
  \<open>.mp4\<close> is offered as directly playable and then refused.
\<close>

definition file_id :: "string \<Rightarrow> bool" where
  "file_id i \<longleftrightarrow> i \<noteq> [] \<and> (\<forall>c\<in>set i. unreserved c)"

definition file_url :: "string \<Rightarrow> string" where
  "file_url i = ''https://pixeldrain.com/api/file/'' @ i"

lemma unreserved_plain: "unreserved c \<Longrightarrow> plain_char c"
  unfolding unreserved_def
proof (elim disjE)
  assume "c \<in> set ''-_.~''"
  then show ?thesis by (simp add: plain_char_def) (elim disjE; simp)
qed (auto simp: plain_char_def is_alpha_def is_digit_def)

lemma unreserved_not: "unreserved c \<Longrightarrow> c \<notin> set ''/?#%+ ''"
  by (auto simp: unreserved_def is_alpha_def is_digit_def)

lemma unescape_unreserved: "\<forall>c\<in>set s. unreserved c \<Longrightarrow> unescape EscPath s = Some s"
proof (induction s)
  case (Cons c s)
  then have "c \<noteq> CHR ''%''" using unreserved_not [of c] by auto
  then show ?case using Cons by simp
qed simp

lemma unescape_append_path:
  "\<lbrakk>unescape EscPath t = Some u; CHR ''%'' \<notin> set s\<rbrakk> \<Longrightarrow> unescape EscPath (s @ t) = Some (s @ u)"
proof (induction s)
  case (Cons c s)
  then have "c \<noteq> CHR ''%''" by auto
  then show ?case using Cons by simp
qed simp

lemma file_url_parses:
  assumes "file_id i"
  shows "\<exists>u. url_parse (file_url i) = Some u \<and> u_scheme u = ''https'' \<and> u_host u = ''pixeldrain.com''"
proof -
  have i: "CHR ''?'' \<notin> set i" "CHR ''#'' \<notin> set i" "\<not> list_ex is_ctl i"
    using assms unreserved_not unreserved_no_ctl by (auto simp: file_id_def list_ex_iff)
  have c: "cut CHR ''#'' (file_url i) = None" using i by (simp add: cut_None_iff file_url_def)
  have ctl: "\<not> list_ex is_ctl (file_url i)" using i(3) by (simp add: file_url_def is_ctl_def)
  have s: "get_scheme (file_url i) = Some (''https'', ''//pixeldrain.com/api/file/'' @ i)"
    by (simp add: get_scheme_def file_url_def is_alpha_def is_digit_def)
  have q: "cut_query (''//pixeldrain.com/api/file/'' @ i) = (''//pixeldrain.com/api/file/'' @ i, [], False)"
    using i(1) by (simp add: cut_query_def cut_None_iff [THEN iffD2])
  have h: "parse_authority ''pixeldrain.com'' = Some ''pixeldrain.com''" "to_lower ''https'' = ''https''" by code_simp+
  have p: "unescape EscPath (''/api/file/'' @ i) = Some (''/api/file/'' @ i)"
    using assms by (intro unescape_append_path unescape_unreserved) (auto simp: file_id_def)
  have "parse_rest ''https'' (''//pixeldrain.com/api/file/'' @ i) [] False
      = set_path \<lparr>u_scheme = ''https'', u_opaque = [], u_host = ''pixeldrain.com'', u_path = [], u_raw_query = [],
          u_force_query = False\<rparr> (''/api/file/'' @ i)"
    using h(1) by (simp add: parse_rest_def Let_def)
  moreover have "file_url i \<noteq> ''*''" by (simp add: file_url_def)
  then have "url_parse (file_url i) = parse_rest ''https'' (''//pixeldrain.com/api/file/'' @ i) [] False"
    using ctl by (simp only: url_parse_def c parse_no_frag_def s q h(2) if_False option.case prod.case)
  ultimately show ?thesis using p by (simp only: set_path_def) simp
qed

text \<open>
  A Pixeldrain link is made into the address of its file, and the media route allows it,
  so that the candidate can be played.
\<close>

theorem pixeldrain_link_allowed:
  assumes "file_id i" and "set slashes \<subseteq> {CHR ''/''}"
  shows "normalize_download_url (''https://pixeldrain.com/u/'' @ i @ slashes) = (True, file_url i @ ''?download'')
    \<and> media_allowed (file_url i @ ''?download'')"
proof -
  let ?href = "''https://pixeldrain.com/u/'' @ i @ slashes"
  have i: "i \<noteq> []" "CHR ''/'' \<notin> set i" using assms(1) unreserved_not by (auto simp: file_id_def)
  have "?href = ''https://'' @ ''pixeldrain.com/u/'' @ i @ slashes" by simp
  then have c: "contains_str ?href ''pixeldrain.com/u/''" using contains_str_iff by blast
  have "dropWhile (\<lambda>x. x = CHR ''/'') (rev slashes @ rev i @ rev ''https://pixeldrain.com/u/'') = rev i @ rev ''https://pixeldrain.com/u/''"
  proof (rule trans [OF dropWhile_append2])
    show "x = CHR ''/''" if "x \<in> set (rev slashes)" for x using that assms(2) by auto
    have "hd (rev i) \<in> set i" "rev i \<noteq> []" using i(1) by (metis hd_in_set rev_is_Nil_conv set_rev, simp)
    then show "dropWhile (\<lambda>x. x = CHR ''/'') (rev i @ rev ''https://pixeldrain.com/u/'') = rev i @ rev ''https://pixeldrain.com/u/''"
      using i(2) by (cases "rev i") auto
  qed
  then have t: "trim_right_char CHR ''/'' ?href = (''https://pixeldrain.com/u'') @ CHR ''/'' # i"
    by (simp add: trim_right_char_def del: rev.simps) simp
  have "last (split_char CHR ''/'' (trim_right_char CHR ''/'' ?href)) = i"
    unfolding t split_char_append using i(2) by (simp add: split_char_single)
  then have n: "normalize_download_url ?href = (True, file_url i @ ''?download'')"
    using c by (simp add: normalize_download_url_def file_url_def del: append.simps)
  obtain u where u: "url_parse (file_url i) = Some u" "u_scheme u = ''https''" "u_host u = ''pixeldrain.com''"
    using file_url_parses [OF assms(1)] by blast
  have p: "CHR ''?'' \<notin> set (file_url i)" "CHR ''#'' \<notin> set (file_url i)" "file_url i \<noteq> ''*''"
    using assms(1) unreserved_not by (auto simp: file_url_def file_id_def)
  have d: "CHR ''#'' \<notin> set ''download''" "\<not> list_ex is_ctl ''download''" by (simp_all add: is_ctl_def)
  have "url_parse (file_url i @ CHR ''?'' # ''download'')
      = Some (u\<lparr>u_raw_query := ''download'', u_force_query := (''download'' = [])\<rparr>)"
    by (rule url_parse_with_query [OF p(1,2) d p(3) u(1)])
  moreover have "list_all plain_char (file_url i @ ''?download'')"
    using assms(1) unreserved_plain by (auto simp: file_url_def file_id_def list_all_iff plain_char_def)
  then have "trim_space (file_url i @ ''?download'') = file_url i @ ''?download''" by (rule all_plain_trim_space)
  moreover have "hostname (u\<lparr>u_raw_query := x, u_force_query := y\<rparr>) = ''pixeldrain.com''" for x y
    by (simp add: hostname_def u(3)) code_simp
  ultimately have "url_host (file_url i @ ''?download'') = Some ''pixeldrain.com''"
    using u(2,3) by (simp add: url_host_def) code_simp
  moreover have "list_ex (host_matches ''pixeldrain.com'') media_hosts" by code_simp
  ultimately show ?thesis using n by (simp add: media_allowed_def)
qed

theorem pixeldrain_link_allowed_witness:
  "normalize_download_url ''https://pixeldrain.com/u/a1B-2/'' = (True, ''https://pixeldrain.com/api/file/a1B-2?download'')"
proof -
  have "file_id ''a1B-2''" by (simp add: file_id_def unreserved_def is_alpha_def is_digit_def)
  from pixeldrain_link_allowed [OF this, of "''/''"] show ?thesis by (simp add: file_url_def)
qed

text \<open>
  C31. A link that ends in \<open>.mp4\<close> on a host outside the list of the media proxy is offered as
  direct and playable, and the media route that its proxied URL leads to refuses it.
\<close>

theorem mp4_link_refused:
  assumes "suffix ''.mp4'' (to_lower href)" "\<not> contains_str href ''pixeldrain.com/u/''"
    and "\<not> media_allowed href" "is_trimmed href" and "in_query i ''url'' = href"
  shows "normalize_download_url href = (True, href)
    \<and> result (h_media s i) w = Answered (api_err 403 ''media_host_not_allowed'' ''Media host is not allowed.'') None"
proof -
  have "href \<noteq> []" using assms(1) by (auto simp: to_lower_def)
  moreover have "trim_space href = href" by (rule trim_space_id [OF assms(4)])
  ultimately show ?thesis using assms by (simp add: normalize_download_url_def h_media_def Let_def)
qed

theorem mp4_link_refused_witness:
  "\<forall>s w. normalize_download_url ''https://acefile.co/f/x.mp4'' = (True, ''https://acefile.co/f/x.mp4'')
    \<and> result (h_media s ((sample_input [])\<lparr>in_query := (\<lambda>_. ''https://acefile.co/f/x.mp4'')\<rparr>)) w
       = Answered (api_err 403 ''media_host_not_allowed'' ''Media host is not allowed.'') None"
proof -
  have "suffix ''.mp4'' (to_lower ''https://acefile.co/f/x.mp4'')" "\<not> contains_str ''https://acefile.co/f/x.mp4'' ''pixeldrain.com/u/''"
    "\<not> media_allowed ''https://acefile.co/f/x.mp4''" "is_trimmed ''https://acefile.co/f/x.mp4''" by code_simp+
  note h = this
  show ?thesis by (intro allI) (rule mp4_link_refused [OF h], simp)
qed

end
