(* ===== verification/Aws.thy ===== *)
theory Aws
  imports Blob_Stores Config
begin

text \<open>
  The AWS SDK as the repository uses it: the client adapter of \<open>internal/mediacache/s3.go\<close>
  and the command \<open>cmd/purge-startup-cache\<close>, which empties the bucket page by page. The SDK
  itself is a record of operations. Under what its documentation says of listing and
  deleting, the command ends, leaves no object with a key that is not blank, and reports that
  it deleted nothing.
\<close>

section \<open>The client\<close>

record put_input =
  pi_bucket :: string
  pi_key :: string
  pi_body :: bytes
  pi_content_type :: string
  pi_content_length :: int

datatype checksums = WhenSupported | WhenRequired

record aws_options =
  ao_base_endpoint :: string
  ao_path_style :: bool
  ao_request_checksums :: checksums
  ao_response_checksums :: checksums

text \<open>
  What \<open>DeleteObjects\<close> answers: the keys it deleted, which are left out of a quiet answer, and
  those it refused. The paginator remembers where it is in the world.
\<close>

record delete_output =
  do_deleted :: "string list"
  do_errors :: "string list"

record 'w pager =
  pg_has_more :: "'w \<Rightarrow> bool"
  pg_next_page :: "('w, string + string option list) eff"

record 'w aws_client =
  aw_put_object :: "put_input \<Rightarrow> ('w, string option) eff"
  aw_get_object :: "string \<Rightarrow> string \<Rightarrow> ('w, string + (string + bytes)) eff"
  aw_head_bucket :: "string \<Rightarrow> ('w, string option) eff"
  aw_create_bucket :: "string \<Rightarrow> ('w, string option) eff"
  aw_pager :: "string \<Rightarrow> ('w, 'w pager) eff"
  aw_delete_objects :: "string \<Rightarrow> string list \<Rightarrow> bool \<Rightarrow> ('w, string + delete_output) eff"

text \<open>\<open>LoadDefaultConfig\<close> for a region and static keys; what it yields is what \<open>NewFromConfig\<close> takes.\<close>

record 'w aws_sdk =
  sdk_load_config :: "string \<Rightarrow> string \<Rightarrow> string \<Rightarrow> ('w, string + (aws_options \<Rightarrow> 'w aws_client)) eff"

definition region_or_default :: "string \<Rightarrow> string" where
  "region_or_default region = (if trim_space region = [] then ''us-east-1'' else trim_space region)"

definition client_options :: "string \<Rightarrow> bool \<Rightarrow> aws_options" where
  "client_options endpoint force_path =
     \<lparr>ao_base_endpoint = endpoint, ao_path_style = force_path, ao_request_checksums = WhenRequired,
      ao_response_checksums = WhenRequired\<rparr>"

text \<open>The methods of \<open>awsV2S3Client\<close>.\<close>

definition adapter_put :: "'w aws_client \<Rightarrow> string \<Rightarrow> string \<Rightarrow> bytes \<Rightarrow> string \<Rightarrow> ('w, string option) eff" where
  "adapter_put client bucket key body content_type =
     aw_put_object client
       \<lparr>pi_bucket = bucket, pi_key = key, pi_body = body, pi_content_type = content_type,
        pi_content_length = int (length body)\<rparr>"

definition s3_adapter :: "'w aws_client \<Rightarrow> 'w s3_client" where
  "s3_adapter client =
     \<lparr>s3_put_object = adapter_put client, s3_get_object = aw_get_object client,
      s3_head_bucket = aw_head_bucket client, s3_create_bucket = aw_create_bucket client\<rparr>"

definition new_aws_client :: "'w aws_sdk \<Rightarrow> s3_config \<Rightarrow> ('w, string + 'w s3_client) eff" where
  "new_aws_client sdk cfg =
     do { loaded \<leftarrow> sdk_load_config sdk (region_or_default (s3_region cfg)) (s3_access_key cfg) (s3_secret_key cfg);
          pass (case loaded of
                  Inl err \<Rightarrow> Inl err
                | Inr new_from_config \<Rightarrow>
                    Inr (s3_adapter (new_from_config (client_options (s3_endpoint_url cfg) (s3_force_path cfg))))) }"

section \<open>The purge command\<close>

definition new_purge_client :: "'w aws_sdk \<Rightarrow> config \<Rightarrow> ('w, string + 'w aws_client) eff" where
  "new_purge_client sdk cfg =
     do { loaded \<leftarrow> sdk_load_config sdk (region_or_default (cf_dobject_region cfg)) (cf_dobject_access_key cfg)
                      (cf_dobject_secret_key cfg);
          pass (case loaded of
                  Inl err \<Rightarrow> Inl err
                | Inr new_from_config \<Rightarrow>
                    Inr (new_from_config (client_options (cf_dobject_url cfg) (cf_dobject_force_path cfg)))) }"

text \<open>The keys of a page that are neither nil nor blank.\<close>

fun purge_objects :: "string option list \<Rightarrow> string list" where
  "purge_objects [] = []"
| "purge_objects (None # items) = purge_objects items"
| "purge_objects (Some key # items) =
     (if trim_space key = [] then purge_objects items else key # purge_objects items)"

text \<open>The loop over the pages, with the count so far. It ends only if the pages do.\<close>

partial_function (option) purge_pages ::
  "'w pager \<Rightarrow> 'w aws_client \<Rightarrow> string \<Rightarrow> int \<Rightarrow> 'w \<Rightarrow> ((string + int) \<times> 'w) option" where
  [code]: "purge_pages pager client bucket deleted w =
     (if \<not> pg_has_more pager w then Some (Inr deleted, w)
      else (case run_state (pg_next_page pager) w of
              (Inl err, w1) \<Rightarrow> Some (Inl (''list objects: '' @ err), w1)
            | (Inr page, w1) \<Rightarrow>
                (if purge_objects page = [] then purge_pages pager client bucket deleted w1
                 else (case run_state (aw_delete_objects client bucket (purge_objects page) True) w1 of
                         (Inl err, w2) \<Rightarrow> Some (Inl (''delete objects: '' @ err), w2)
                       | (Inr out, w2) \<Rightarrow>
                           purge_pages pager client bucket (i64 (deleted + int (length (do_deleted out)))) w2))))"

lemma purge_pages_run:
  "pg_has_more pager w \<Longrightarrow> purge_pages pager client bucket n w =
     (case result (pg_next_page pager) w of
        Inl err \<Rightarrow> Some (Inl (''list objects: '' @ err), after (pg_next_page pager) w)
      | Inr page \<Rightarrow>
          (let w1 = after (pg_next_page pager) w; del = aw_delete_objects client bucket (purge_objects page) True
           in if purge_objects page = [] then purge_pages pager client bucket n w1
              else (case result del w1 of
                      Inl err \<Rightarrow> Some (Inl (''delete objects: '' @ err), after del w1)
                    | Inr out \<Rightarrow>
                        purge_pages pager client bucket (i64 (n + int (length (do_deleted out)))) (after del w1))))"
  unfolding purge_pages.simps [of pager client bucket n w] by (simp add: split_beta Let_def split: sum.split)

text \<open>\<open>main\<close>: the message it dies with, or the number it prints.\<close>

definition purge_command :: "'w aws_sdk \<Rightarrow> config \<Rightarrow> 'w \<Rightarrow> ((string + int) \<times> 'w) option" where
  "purge_command sdk cfg w =
     (if \<not> dobject_configured cfg then Some (Inl ''dobject is not configured'', w)
      else (case run_state (new_purge_client sdk cfg) w of
              (Inl err, w1) \<Rightarrow> Some (Inl (''create s3 client: '' @ err), w1)
            | (Inr client, w1) \<Rightarrow>
                (case run_state (aw_pager client (cf_dobject_bucket cfg)) w1 of
                   (pager, w2) \<Rightarrow> purge_pages pager client (cf_dobject_bucket cfg) 0 w2)))"

lemma set_purge_objects: "set (purge_objects page) = {k. Some k \<in> set page \<and> trim_space k \<noteq> []}"
  by (induction page rule: purge_objects.induct) auto

section \<open>A bucket that is listed in pages\<close>

text \<open>
  What is relied on of the SDK: the pages to come are a list that a page fetched shortens,
  deleting keys of other pages leaves them as they are, what is deleted is gone unless it was
  refused, and a quiet answer names no deleted key. Fetching and deleting may fail.
\<close>

definition never_refuses :: "'w aws_client \<Rightarrow> string \<Rightarrow> bool" where
  "never_refuses client bucket \<longleftrightarrow>
     (\<forall>ks w out. result (aw_delete_objects client bucket ks True) w = Inr out \<longrightarrow> do_errors out = [])"

lemma never_refusesD:
  "\<lbrakk>never_refuses client bucket; result (aw_delete_objects client bucket ks True) w = Inr out\<rbrakk> \<Longrightarrow> do_errors out = []"
  by (auto simp: never_refuses_def)

locale object_pages =
  fixes pager :: "'w pager"
    and client :: "'w aws_client"
    and bucket :: string
    and pages :: "'w \<Rightarrow> string option list list"
    and stored :: "'w \<Rightarrow> string set"
  assumes has_more: "pg_has_more pager w \<longleftrightarrow> pages w \<noteq> []"
    and next_page: "\<lbrakk>pages w = p # ps; result (pg_next_page pager) w = Inr q\<rbrakk> \<Longrightarrow>
      q = p \<and> pages (after (pg_next_page pager) w) = ps \<and> set p \<inter> \<Union> (set ` set ps) = {}"
    and next_stored: "stored (after (pg_next_page pager) w) = stored w"
    and delete_stored: "result (aw_delete_objects client bucket ks quiet) w = Inr out \<Longrightarrow>
      stored (after (aw_delete_objects client bucket ks quiet) w) = stored w - (set ks - set (do_errors out))"
    and delete_pages: "\<lbrakk>result (aw_delete_objects client bucket ks quiet) w = Inr out;
        Some ` set ks \<inter> \<Union> (set ` set (pages w)) = {}\<rbrakk> \<Longrightarrow>
      pages (after (aw_delete_objects client bucket ks quiet) w) = pages w"
    and delete_quiet: "result (aw_delete_objects client bucket ks True) w = Inr out \<Longrightarrow> do_deleted out = []"
begin

definition listed :: "'w \<Rightarrow> string set" where
  "listed w = {k. Some k \<in> \<Union> (set ` set (pages w))}"

text \<open>One round of the loop: it fails, or a page less is to come and its keys are gone.\<close>

definition page_gone :: "string option list \<Rightarrow> string option list list \<Rightarrow> 'w \<Rightarrow> 'w \<Rightarrow> bool" where
  "page_gone p ps w w' \<longleftrightarrow> pages w' = ps \<and> stored w' = stored w - set (purge_objects p)"

lemma delete_round:
  assumes "pages w = ps" "set p \<inter> \<Union> (set ` set ps) = {}" and unrefused: "never_refuses client bucket"
    and r: "result (aw_delete_objects client bucket (purge_objects p) True) w = Inr out"
  shows "do_deleted out = [] \<and> page_gone p ps w (after (aw_delete_objects client bucket (purge_objects p) True) w)"
proof -
  have "Some ` set (purge_objects p) \<inter> \<Union> (set ` set (pages w)) = {}"
    using assms(1,2) by (auto simp: set_purge_objects)
  then show ?thesis
    using delete_pages [OF r] delete_stored [OF r] never_refusesD [OF unrefused r] delete_quiet [OF r] assms(1)
    by (simp add: page_gone_def)
qed

lemma purge_round:
  assumes "pages w = p # ps" and unrefused: "never_refuses client bucket"
  shows "(\<exists>err w'. purge_pages pager client bucket 0 w = Some (Inl err, w'))
    \<or> (\<exists>w'. purge_pages pager client bucket 0 w = purge_pages pager client bucket 0 w' \<and> page_gone p ps w w')"
proof (cases "result (pg_next_page pager) w")
  case (Inl err)
  then show ?thesis using assms(1) by (simp add: purge_pages_run has_more)
next
  case (Inr page)
  let ?w1 = "after (pg_next_page pager) w" and ?del = "aw_delete_objects client bucket (purge_objects p) True"
  from next_page [OF assms(1) Inr] next_stored [of w]
  have page: "page = p" "pages ?w1 = ps" "set p \<inter> \<Union> (set ` set ps) = {}" "stored ?w1 = stored w" by simp_all
  note run = purge_pages_run [of pager w client bucket 0] has_more assms(1) Inr page(1)
  show ?thesis
  proof (cases "purge_objects p = []")
    case True
    then show ?thesis using page by (intro disjI2 exI [of _ ?w1]) (simp add: run page_gone_def)
  next
    case False
    show ?thesis
    proof (cases "result ?del ?w1")
      case (Inr out)
      from delete_round [OF page(2,3) unrefused Inr] have "do_deleted out = []" "page_gone p ps w (after ?del ?w1)"
        by (simp_all add: page_gone_def page(4))
      with False Inr show ?thesis by (intro disjI2 exI [of _ "after ?del ?w1"]) (simp add: run i64_def)
    qed (use False in \<open>simp add: run\<close>)
  qed
qed

lemma purge_pages_spec:
  assumes unrefused: "never_refuses client bucket"
  shows "\<exists>r w'. purge_pages pager client bucket 0 w = Some (r, w')
    \<and> ((\<exists>err. r = Inl err) \<or> r = Inr 0 \<and> stored w' = stored w - {k \<in> listed w. trim_space k \<noteq> []})"
proof (induction "pages w" arbitrary: w)
  case Nil
  then show ?case by (simp add: purge_pages.simps has_more listed_def)
next
  case (Cons p ps)
  from purge_round [OF Cons(2) [symmetric] unrefused] show ?case
  proof (elim disjE exE conjE)
    fix w' assume e: "purge_pages pager client bucket 0 w = purge_pages pager client bucket 0 w'" and "page_gone p ps w w'"
    then have w': "pages w' = ps" "stored w' = stored w - set (purge_objects p)" by (simp_all add: page_gone_def)
    have "pages w = p # pages w'" using Cons(2) w'(1) by simp
    then have "listed w = {k. Some k \<in> set p} \<union> listed w'" by (auto simp: listed_def)
    then have "stored w' - {k \<in> listed w'. trim_space k \<noteq> []} = stored w - {k \<in> listed w. trim_space k \<noteq> []}"
      unfolding w'(2) by (auto simp: set_purge_objects)
    with Cons(1) [OF w'(1) [symmetric]] show ?thesis by (simp add: e)
  qed auto
qed

end


section \<open>A bucket\<close>

text \<open>
  A bucket that lists its keys in order, so many at a time, from after the last key of the
  page before.
\<close>

record ref_bucket =
  rb_keys :: "string list"
  rb_done :: "string option"
  rb_started :: bool

definition rb_stored :: "ref_bucket \<Rightarrow> string set" where
  "rb_stored w = set (rb_keys w)"

definition rb_rest :: "ref_bucket \<Rightarrow> string list" where
  "rb_rest w = filter (\<lambda>k. case rb_done w of None \<Rightarrow> True | Some c \<Rightarrow> c < k) (sort (remdups (rb_keys w)))"

function chunks :: "nat \<Rightarrow> 'a list \<Rightarrow> 'a list list" where
  "chunks n [] = []"
| "chunks n (x # xs) = (x # take n xs) # chunks n (drop n xs)"
  by pat_completeness auto
termination
  by (relation "measure (\<lambda>(n, xs). length xs)") auto

definition rb_pages :: "ref_bucket \<Rightarrow> string option list list" where
  "rb_pages w = (if \<not> rb_started w \<and> rb_rest w = [] then [[]] else map (map Some) (chunks 1 (rb_rest w)))"

definition rb_next :: "(ref_bucket, string + string option list) eff" where
  "rb_next = State (\<lambda>w. case rb_pages w of
       [] \<Rightarrow> (Inl ''no more pages available'', w)
     | p # _ \<Rightarrow> (Inr p, w\<lparr>rb_started := True, rb_done := (if p = [] then rb_done w else last p)\<rparr>))"

definition rb_delete :: "string list \<Rightarrow> bool \<Rightarrow> (ref_bucket, string + delete_output) eff" where
  "rb_delete ks quiet = State (\<lambda>w.
     (Inr \<lparr>do_deleted = (if quiet then [] else ks), do_errors = []\<rparr>,
      w\<lparr>rb_keys := filter (\<lambda>k. k \<notin> set ks) (rb_keys w)\<rparr>))"

definition ref_pager :: "ref_bucket pager" where
  "ref_pager = \<lparr>pg_has_more = (\<lambda>w. rb_pages w \<noteq> []), pg_next_page = rb_next\<rparr>"

definition ref_aws_client :: "ref_bucket aws_client" where
  "ref_aws_client =
     \<lparr>aw_put_object = (\<lambda>_. pass None), aw_get_object = (\<lambda>_ _. pass (Inl ''no such key'')),
      aw_head_bucket = (\<lambda>_. pass None), aw_create_bucket = (\<lambda>_. pass None),
      aw_pager = (\<lambda>_. State (\<lambda>w. (ref_pager, w\<lparr>rb_started := False, rb_done := None\<rparr>))),
      aw_delete_objects = (\<lambda>_. rb_delete)\<rparr>"

lemma concat_chunks: "concat (chunks n xs) = xs"
  by (induction n xs rule: chunks.induct) auto

lemma chunks_Nil_iff [simp]: "chunks n xs = [] \<longleftrightarrow> xs = []"
  by (cases xs) auto

lemma rest_after_last:
  assumes "sorted (bs @ l # zs)" "distinct (bs @ l # zs)"
  shows "filter (\<lambda>k. l < k) (bs @ l # zs) = (zs :: string list)"
proof -
  have "\<not> l < b" if "b \<in> set bs" for b using assms(1) that by (auto simp: sorted_append not_less)
  moreover have "l < z" if "z \<in> set zs" for z
    using assms that by (auto simp: sorted_append order_less_le)
  ultimately show ?thesis by (simp add: filter_id_conv filter_empty_conv)
qed

lemma rb_rest_sorted: "sorted (rb_rest w)" "distinct (rb_rest w)"
  by (simp_all add: rb_rest_def sorted_wrt_filter)

lemma rb_rest_subset: "set (rb_rest w) \<subseteq> rb_stored w"
  by (auto simp: rb_rest_def rb_stored_def)

lemma rb_pages_keys: "\<Union> (set ` set (rb_pages w)) = Some ` set (rb_rest w)"
proof -
  have "\<Union> (set ` set (map (map Some) (chunks 1 (rb_rest w)))) = Some ` set (concat (chunks 1 (rb_rest w)))" by auto
  then show ?thesis by (simp add: rb_pages_def concat_chunks)
qed

lemma rb_rest_after:
  assumes "rb_rest w = bs @ l # zs"
  shows "rb_rest (w\<lparr>rb_started := True, rb_done := Some l\<rparr>) = zs"
proof -
  have "l \<in> set (rb_rest w)" using assms by simp
  then have "rb_rest (w\<lparr>rb_started := True, rb_done := Some l\<rparr>) = filter (\<lambda>k. l < k) (rb_rest w)"
    by (auto simp: rb_rest_def intro!: filter_cong split: option.splits)
  then show ?thesis using rest_after_last [of bs l zs] rb_rest_sorted [of w] by (simp add: assms)
qed

lemma rb_rest_deleted:
  "rb_rest (w\<lparr>rb_keys := filter (\<lambda>k. k \<notin> set ks) (rb_keys w)\<rparr>) = filter (\<lambda>k. k \<notin> set ks) (rb_rest w)"
  by (simp add: rb_rest_def filter_sort [symmetric] remdups_filter conj_commute)

interpretation ref_bucket: object_pages ref_pager ref_aws_client bucket rb_pages rb_stored for bucket
proof (unfold_locales, goal_cases)
  case (2 w p ps q)
  show ?case
  proof (cases "rb_rest w")
    case Nil
    with 2 have "p = []" "ps = []" "q = p" "\<not> rb_started w"
      by (auto simp: rb_pages_def ref_pager_def rb_next_def split: if_splits)
    with Nil show ?thesis using 2
      by (simp add: rb_pages_def ref_pager_def rb_next_def) (simp add: rb_rest_def)
  next
    case (Cons x xs)
    let ?ys = "x # take 1 xs" and ?zs = "drop 1 xs"
    have e: "rb_rest w = ?ys @ ?zs" by (simp add: Cons)
    have p: "p = map Some ?ys" "ps = map (map Some) (chunks 1 ?zs)"
      using 2(1) Cons by (simp_all add: rb_pages_def)
    have l: "last p = Some (last ?ys)" unfolding p(1) by (rule last_map) simp
    have ne: "p \<noteq> []" by (simp add: p(1))
    have q: "q = p" "after (pg_next_page ref_pager) w = w\<lparr>rb_started := True, rb_done := Some (last ?ys)\<rparr>"
      using 2 l ne by (simp_all add: ref_pager_def rb_next_def)
    have e': "rb_rest w = butlast ?ys @ last ?ys # ?zs" by (simp add: Cons) (cases xs; simp)
    have after_pages: "rb_pages (w\<lparr>rb_started := True, rb_done := Some (last ?ys)\<rparr>) = ps"
      using rb_rest_after [OF e'] by (simp add: rb_pages_def p(2))
    have u: "\<Union> (set ` set ps) = Some ` set ?zs"
      using arg_cong [OF concat_chunks [of 1 ?zs], of set] unfolding p(2) by auto
    have "set ?ys \<inter> set ?zs = {}" using rb_rest_sorted(2) [of w] unfolding e by (simp only: distinct_append)
    then have "set p \<inter> \<Union> (set ` set ps) = {}" by (simp only: p(1) u set_map) blast
    then show ?thesis using q after_pages by metis
  qed
next
  case (3 w)
  then show ?case by (simp add: ref_pager_def rb_next_def rb_stored_def split: list.split)
next
  case (5 ks quiet w out)
  have "filter (\<lambda>k. k \<notin> set ks) (rb_rest w) = rb_rest w"
    using 5(2) unfolding rb_pages_keys by (auto simp: filter_id_conv)
  then show ?case by (simp add: ref_aws_client_def rb_delete_def rb_pages_def rb_rest_deleted)
qed (auto simp: ref_pager_def ref_aws_client_def rb_delete_def rb_stored_def)

lemma ref_never_refuses: "never_refuses ref_aws_client bucket"
  by (auto simp: never_refuses_def ref_aws_client_def rb_delete_def)

text \<open>Three objects, one of them with a blank key, two on a page.\<close>

definition sample_bucket :: ref_bucket where
  "sample_bucket = \<lparr>rb_keys = [''heads/a'', '' '', ''tails/b''], rb_done = None, rb_started = False\<rparr>"

definition sample_sdk :: "ref_bucket aws_sdk" where
  "sample_sdk = \<lparr>sdk_load_config = (\<lambda>_ _ _. pass (Inr (\<lambda>_. ref_aws_client)))\<rparr>"

definition bucket_config :: config where
  "bucket_config = (default_config ''/tmp'')
     \<lparr>cf_dobject_url := ''https://s3.local'', cf_dobject_access_key := ''k'', cf_dobject_secret_key := ''s''\<rparr>"

lemma sample_purge_ends:
  "map_option fst (purge_command sample_sdk bucket_config sample_bucket) = Some (Inr 0)"
  by code_simp


end
