(* ===== verification/Server_Setup.thy ===== *)
theory Server_Setup
  imports Aws Handlers Otakudesu Kuramanime Postgres_Props
begin

text \<open>
  Putting the server together: \<open>Open\<close> and \<open>Ping\<close> of the database, the constructors of the
  providers with the headless browser of \<open>renderer.go\<close>, \<open>NewBlobStore\<close>, the caches, and
  \<open>Run\<close> of \<open>internal/httpserver/server.go\<close> up to listening. What the repository imports, from
  the HTTP client to the database driver, is one record of operations, the platform.
\<close>

section \<open>The platform\<close>

record 'w database =
  db_clients :: "('w, client_row) table"
  db_watch :: "('w, watch_row) table"
  db_history :: "('w, history_row) table"
  db_stream :: "('w, stream_row) table"
  db_catalog :: "('w, catalog_row) table"
  db_discovery :: "('w, discovery_row) table"
  db_startup :: "('w, startup_row) table"
  db_aliases :: "('w, alias_row) table"
  db_handle :: "('w, string option) eff"
  db_migrate :: "('w, string option) eff"
  db_ping :: "('w, string option) eff"

text \<open>A command that fails yields its error and what it wrote to its error output.\<close>

record ('w, 'n) platform =
  pl_connect :: "string \<Rightarrow> ('w, string + 'w database) eff"
  pl_http :: "duration \<Rightarrow> http_request \<Rightarrow> ('w, string + http_response) eff"
  pl_media_http :: "http_request \<Rightarrow> ('w, string + http_response) eff"
  pl_ttl_cache :: "duration \<Rightarrow> 'w ttl_ops"
  pl_flights :: "string \<Rightarrow> ('w, fetch_error + buffered) eff \<Rightarrow> ('w, fetch_error + buffered) eff"
  pl_files :: "'w os_files"
  pl_removes :: "'w os_removes"
  pl_aws :: "'w aws_sdk"
  pl_look_path :: "string \<Rightarrow> ('w, string + string) eff"
  pl_mkdir_temp :: "string \<Rightarrow> ('w, string + string) eff"
  pl_run :: "string \<Rightarrow> string list \<Rightarrow> ('w, (string \<times> string) + string) eff"
  pl_clock :: "('w, time) eff"
  pl_random :: "nat \<Rightarrow> ('w, bytes) eff"
  pl_key_order :: "string set \<Rightarrow> string list"
  pl_html :: "'n html"
  pl_rows :: "string \<Rightarrow> string + (string \<times> int) list"
  pl_sort_refs :: "(episode_ref \<Rightarrow> episode_ref \<Rightarrow> bool) \<Rightarrow> episode_ref list \<Rightarrow> episode_ref list"
  pl_sort_links :: "(string \<Rightarrow> string \<Rightarrow> bool) \<Rightarrow> string list \<Rightarrow> string list"
  pl_sort_episodes :: "(episode \<Rightarrow> episode \<Rightarrow> bool) \<Rightarrow> episode list \<Rightarrow> episode list"
  pl_sort_candidates :: "(stream_candidate \<Rightarrow> stream_candidate \<Rightarrow> bool) \<Rightarrow> stream_candidate list \<Rightarrow> stream_candidate list"
  pl_wide_letter :: "string \<Rightarrow> string option"
  pl_schedule :: "nat \<Rightarrow> nat list"

section \<open>The database\<close>

definition pg_open :: "('w, 'n) platform \<Rightarrow> string \<Rightarrow> ('w, string + 'w database) eff" where
  "pg_open pl url =
     do { opened \<leftarrow> pl_connect pl url;
          case opened of
            Inl err \<Rightarrow> pass (Inl err)
          | Inr db \<Rightarrow>
              do { migrated \<leftarrow> db_migrate db;
                   pass (case migrated of Some err \<Rightarrow> Inl err | None \<Rightarrow> Inr db) } }"

definition pg_ping :: "'w database \<Rightarrow> ('w, string option) eff" where
  "pg_ping db =
     do { handle \<leftarrow> db_handle db;
          case handle of Some err \<Rightarrow> pass (Some err) | None \<Rightarrow> db_ping db }"

definition stream_store_of :: "'w database \<Rightarrow> 'w stream_store" where
  "stream_store_of db =
     \<lparr>st_get = get_stream_cache (db_stream db), st_upsert = upsert_stream_cache (db_stream db),
      st_delete = delete_stream_cache (db_stream db)\<rparr>"

definition catalog_store_of :: "'w database \<Rightarrow> 'w catalog_store" where
  "catalog_store_of db =
     \<lparr>cst_get_discovery = get_discovery_cache (db_discovery db),
      cst_upsert_discovery = upsert_discovery_cache (db_discovery db),
      cst_get_catalog = get_catalog_cache (db_catalog db), cst_upsert_catalog = upsert_catalog_cache (db_catalog db)\<rparr>"

section \<open>The providers\<close>

definition milliseconds :: "duration \<Rightarrow> int" where
  "milliseconds d = (if d < 0 then - ((- d) div 1000000) else d div 1000000)"

definition browser_args :: "string \<Rightarrow> duration \<Rightarrow> string \<Rightarrow> string list" where
  "browser_args profile budget target =
     [''--headless'', ''--disable-gpu'', ''--disable-dev-shm-usage'', ''--disable-background-networking'',
      ''--mute-audio'', ''--no-first-run'', ''--no-default-browser-check'', ''--no-sandbox'',
      ''--user-data-dir='' @ profile, ''--virtual-time-budget='' @ itoa (milliseconds budget), ''--dump-dom'', target]"

definition render_player_html ::
  "('w, 'n) platform \<Rightarrow> string \<Rightarrow> duration \<Rightarrow> string \<Rightarrow> ('w, string + string) eff" where
  "render_player_html pl browser budget target =
     (if trim_space browser = [] then pass (Inl ''browser renderer unavailable'')
      else do { made \<leftarrow> pl_mkdir_temp pl ''zeronime-kuramanime-*'';
                case made of
                  Inl err \<Rightarrow> pass (Inl err)
                | Inr profile \<Rightarrow>
                    do { output \<leftarrow> pl_run pl browser (browser_args profile budget target);
                         or_remove_all (pl_removes pl) profile;
                         pass (case output of
                                 Inl (err, stderr) \<Rightarrow>
                                   Inl (''render player html: '' @ err
                                        @ (if stderr \<noteq> [] then '': '' @ trim_space stderr else []))
                               | Inr html \<Rightarrow> Inr html) } })"

fun find_browser :: "('w, 'n) platform \<Rightarrow> string list \<Rightarrow> ('w, string) eff" where
  "find_browser pl [] = pass []"
| "find_browser pl (candidate # rest) =
     do { found \<leftarrow> pl_look_path pl candidate;
          case found of Inl _ \<Rightarrow> find_browser pl rest | Inr path \<Rightarrow> pass path }"

definition browsers :: "string list" where
  "browsers = [''chromium'', ''chromium-browser'', ''google-chrome'', ''google-chrome-stable'']"

definition new_kuramanime ::
  "('w, 'n) platform \<Rightarrow> string \<Rightarrow> string \<Rightarrow> duration \<Rightarrow> duration \<Rightarrow> string \<Rightarrow> ('w, ('w, 'n) kuramanime) eff" where
  "new_kuramanime pl base_url agent timeout budget browser_path =
     do { browser \<leftarrow> (if trim_space browser_path = [] then find_browser pl browsers
                       else pass (trim_space browser_path));
          pass \<lparr>km_base = trim_slashes base_url, km_agent = agent, km_client = pl_http pl timeout, km_html = pl_html pl,
                km_render = render_player_html pl browser budget, km_rows = pl_rows pl,
                km_sort_refs = pl_sort_refs pl, km_sort_links = pl_sort_links pl,
                km_sort_episodes = pl_sort_episodes pl, km_sort_candidates = pl_sort_candidates pl,
                km_order = pl_key_order pl, km_wide_letter = pl_wide_letter pl, km_schedule = pl_schedule pl\<rparr> }"

definition new_otakudesu :: "('w, 'n) platform \<Rightarrow> string \<Rightarrow> string \<Rightarrow> duration \<Rightarrow> ('w, 'n) otakudesu" where
  "new_otakudesu pl base_url agent timeout =
     \<lparr>ot_base = trim_slashes base_url, ot_agent = agent, ot_client = pl_http pl timeout, ot_html = pl_html pl,
      ot_sort = pl_sort_episodes pl\<rparr>"

section \<open>The caches\<close>

definition s3_config_of :: "config \<Rightarrow> s3_config" where
  "s3_config_of cfg =
     \<lparr>s3_endpoint_url = cf_dobject_url cfg, s3_access_key = cf_dobject_access_key cfg,
      s3_secret_key = cf_dobject_secret_key cfg, s3_bucket_name = cf_dobject_bucket cfg,
      s3_region = cf_dobject_region cfg, s3_force_path = cf_dobject_force_path cfg,
      s3_auto_create = cf_dobject_auto_create cfg\<rparr>"

definition new_blob_store :: "('w, 'n) platform \<Rightarrow> config \<Rightarrow> ('w, string + 'w blob_store) eff" where
  "new_blob_store pl cfg =
     (if cf_dobject_use_when_ready cfg \<and> dobject_configured cfg
      then do { store \<leftarrow> new_s3_store (s3_config_of cfg) (new_aws_client (pl_aws pl));
                pass (case store of
                        Inl err \<Rightarrow> Inl err
                      | Inr remote \<Rightarrow>
                          Inr (tiered_blobs (Some \<lparr>ti_local = Some (fs_blobs (pl_files pl) (cf_media_cache_dir cfg)),
                                                    ti_remote = Some (s3_blobs (Some remote))\<rparr>))) }
      else pass (Inr (fs_blobs (pl_files pl) (cf_media_cache_dir cfg))))"

text \<open>The purge command talks to the bucket as the server does.\<close>

lemma same_aws_client:
  "run_state (new_aws_client sdk (s3_config_of cfg)) w =
     (case run_state (new_purge_client sdk cfg) w of (r, w') \<Rightarrow> (map_sum id s3_adapter r, w'))"
  by (simp add: new_aws_client_def new_purge_client_def s3_config_of_def split_beta split: sum.split)

text \<open>\<open>mediaproxy.Fetch\<close> as the fetcher of a media cache.\<close>

definition media_fetcher_of :: "('w, 'n) platform \<Rightarrow> 'w fetcher" where
  "media_fetcher_of pl url header =
     do { resp \<leftarrow> proxy_fetch (pl_media_http pl) url header;
          pass (case resp of Inl err \<Rightarrow> Inl err | Inr r \<Rightarrow> Inr (Some r)) }"

definition new_predictive_cache ::
  "('o predictive_state, 'n) platform \<Rightarrow> string \<Rightarrow> int \<Rightarrow> int \<Rightarrow> ('o, 'o predictive_cache) peff" where
  "new_predictive_cache pl base_dir head_bytes tail_bytes =
     do { pf_reset (pl_files pl) (pl_removes pl) base_dir;
          pass \<lparr>pc_service = \<lparr>ms_store = Some predictive_metadata, ms_blobs = Some (pf_blobs (pl_files pl) base_dir),
                               ms_fetcher = Some (media_fetcher_of pl), ms_head = head_bytes, ms_tail = tail_bytes\<rparr>,
                pc_removes = pl_removes pl, pc_base = base_dir, pc_order = pl_key_order pl\<rparr> }"

definition new_media_fetcher :: "('w, 'n) platform \<Rightarrow> 'w ttl_ops \<Rightarrow> 'w media_fetcher" where
  "new_media_fetcher pl mem =
     \<lparr>mf_cache = mem, mf_do = pl_flights pl, mf_fetch = proxy_fetch (pl_media_http pl), mf_clock = pl_clock pl,
      mf_ttl = 4 * second, mf_max = 2 * 1024 * 1024, mf_slow = 900 * 1000000\<rparr>"

section \<open>The server\<close>

definition server_of ::
  "('o predictive_state, 'n) platform \<Rightarrow> config \<Rightarrow> 'o predictive_state database \<Rightarrow> 'o predictive_state provider
   \<Rightarrow> 'o predictive_state blob_store \<Rightarrow> 'o predictive_cache option \<Rightarrow> 'o server" where
  "server_of pl cfg db active blobs predictive =
     (let mem = pl_ttl_cache pl (cf_cache_ttl cfg)
      in \<lparr>sv_provider = pr_name active, sv_ping = pg_ping db,
          sv_catalog = \<lparr>cs_provider = active, cs_cache = mem, cs_store = Some (catalog_store_of db)\<rparr>,
          sv_ids = \<lparr>is_aliases = db_aliases db, is_random = pl_random pl 16\<rparr>,
          sv_key_order = pl_key_order pl,
          sv_identity = \<lparr>iy_clients = db_clients db, iy_random = pl_random pl 24\<rparr>,
          sv_library = \<lparr>ls_watch = db_watch db, ls_history = db_history db, ls_provider = active\<rparr>,
          sv_stream = \<lparr>ss_clock = pl_clock pl, ss_provider_name = pr_name active,
                       ss_candidates = pr_stream_candidates active, ss_cache = mem,
                       ss_store = Some (stream_store_of db), ss_ttl = cf_stream_cache_ttl cfg,
                       ss_sort = pl_sort_candidates pl\<rparr>,
          sv_startup = \<lparr>ms_store = Some (pg_metadata (db_startup db)), ms_blobs = Some blobs,
                        ms_fetcher = Some (media_fetcher_of pl), ms_head = cf_media_head_bytes cfg,
                        ms_tail = cf_media_tail_bytes cfg\<rparr>,
          sv_predictive = predictive, sv_image_client = pl_http pl (cf_request_timeout cfg),
          sv_image_ttl = cf_image_cache_ttl cfg, sv_media_client = pl_media_http pl,
          sv_media_fetch = new_media_fetcher pl mem, sv_cache = mem, sv_clients = db_clients db\<rparr>)"

text \<open>The providers that \<open>Run\<close> and the prewarming command register.\<close>

definition registered ::
  "('w, 'n) platform \<Rightarrow> config \<Rightarrow> ('w, string \<rightharpoonup> 'w provider) eff" where
  "registered pl cfg =
     do { let ot = new_otakudesu pl (cf_otakudesu_base cfg) (cf_user_agent cfg) (cf_request_timeout cfg);
          km \<leftarrow> new_kuramanime pl (cf_kuramanime_base cfg) (cf_user_agent cfg) (cf_request_timeout cfg)
                  (cf_browser_render_budget cfg) (cf_browser_path cfg);
          pass (new_registry [Some (otakudesu_provider ot), Some (kuramanime_provider km)]) }"

definition optional_predictive ::
  "('o predictive_state, 'n) platform \<Rightarrow> config \<Rightarrow> ('o, 'o predictive_cache option) peff" where
  "optional_predictive pl cfg =
     (if cf_predictive_enabled cfg
      then do { p \<leftarrow> new_predictive_cache pl (cf_predictive_dir cfg) (cf_predictive_head_bytes cfg)
                       (cf_predictive_tail_bytes cfg);
                pass (Some p) }
      else pass None)"

text \<open>\<open>Run\<close>, up to the server that listens.\<close>

definition run_server ::
  "('o predictive_state, 'n) platform \<Rightarrow> config \<Rightarrow> ('o, string + 'o server) peff" where
  "run_server pl cfg =
     do { opened \<leftarrow> pg_open pl (cf_database_url cfg);
          case opened of
            Inl err \<Rightarrow> pass (Inl (''open postgres: '' @ err))
          | Inr db \<Rightarrow>
              do { registry \<leftarrow> registered pl cfg;
                   case select (Some registry) (cf_active_provider cfg) of
                     Inl err \<Rightarrow> pass (Inl (''select provider: '' @ err))
                   | Inr active \<Rightarrow>
                       do { made \<leftarrow> new_blob_store pl cfg;
                            case made of
                              Inl err \<Rightarrow> pass (Inl (''configure media cache store: '' @ err))
                            | Inr blobs \<Rightarrow>
                                do { predictive \<leftarrow> optional_predictive pl cfg;
                                     pass (Inr (server_of pl cfg db active blobs predictive)) } } } }"

section \<open>What a server that runs consists of\<close>

lemma km_registry_name: "registry_name km_name = km_name" and ot_registry_name: "registry_name ot_name = ot_name"
  by code_simp+

lemma names_differ: "km_name \<noteq> ot_name"
  by (simp add: km_name_def ot_name_def)

lemma registered_lookup:
  "\<exists>ot km. pr_name ot = ot_name \<and> pr_name km = km_name \<and> result (registered pl cfg) w = [ot_name \<mapsto> ot, km_name \<mapsto> km]"
proof (intro exI conjI)
  let ?ot = "otakudesu_provider (new_otakudesu pl (cf_otakudesu_base cfg) (cf_user_agent cfg) (cf_request_timeout cfg))"
  let ?km = "kuramanime_provider (result (new_kuramanime pl (cf_kuramanime_base cfg) (cf_user_agent cfg)
    (cf_request_timeout cfg) (cf_browser_render_budget cfg) (cf_browser_path cfg)) w)"
  show "pr_name ?ot = ot_name" "pr_name ?km = km_name"
    by (simp_all add: otakudesu_provider_def kuramanime_provider_def)
  then show "result (registered pl cfg) w = [ot_name \<mapsto> ?ot, km_name \<mapsto> ?km]"
    by (simp add: registered_def new_registry_def km_registry_name ot_registry_name Let_def)
qed

lemma result_case_sum:
  "result (case x of Inl a \<Rightarrow> f a | Inr b \<Rightarrow> g b) w = (case x of Inl a \<Rightarrow> result (f a) w | Inr b \<Rightarrow> result (g b) w)"
  by (cases x) simp_all

lemma run_server_steps:
  "result (run_server pl cfg) w =
     (let w1 = after (pg_open pl (cf_database_url cfg)) w; w2 = after (registered pl cfg) w1; w3 = after (new_blob_store pl cfg) w2
      in case result (pg_open pl (cf_database_url cfg)) w of
           Inl err \<Rightarrow> Inl (''open postgres: '' @ err)
         | Inr db \<Rightarrow>
             (case select (Some (result (registered pl cfg) w1)) (cf_active_provider cfg) of
                Inl err \<Rightarrow> Inl (''select provider: '' @ err)
              | Inr active \<Rightarrow>
                  (case result (new_blob_store pl cfg) w2 of
                     Inl err \<Rightarrow> Inl (''configure media cache store: '' @ err)
                   | Inr blobs \<Rightarrow> Inr (server_of pl cfg db active blobs (result (optional_predictive pl cfg) w3)))))"
  by (simp only: run_server_def Let_def run_bind result_case_sum run_state_return fst_conv)

lemma run_server_Inr:
  assumes "result (run_server pl cfg) w = Inr s"
  shows "\<exists>db active blobs w1 w3. select (Some (result (registered pl cfg) w1)) (cf_active_provider cfg) = Inr active
    \<and> s = server_of pl cfg db active blobs (result (optional_predictive pl cfg) w3)
    \<and> (\<exists>w2. result (new_blob_store pl cfg) w2 = Inr blobs)"
proof -
  define w1 where "w1 = after (pg_open pl (cf_database_url cfg)) w"
  define w2 where "w2 = after (registered pl cfg) w1"
  define w3 where "w3 = after (new_blob_store pl cfg) w2"
  note run = assms [unfolded run_server_steps Let_def, folded w1_def, folded w2_def, folded w3_def]
  obtain db where db: "result (pg_open pl (cf_database_url cfg)) w = Inr db"
    using run by (cases "result (pg_open pl (cf_database_url cfg)) w") (simp_all only: sum.case sum.distinct)
  obtain active where active: "select (Some (result (registered pl cfg) w1)) (cf_active_provider cfg) = Inr active"
    using run by (cases "select (Some (result (registered pl cfg) w1)) (cf_active_provider cfg)")
      (simp_all only: db sum.case sum.distinct)
  obtain blobs where blobs: "result (new_blob_store pl cfg) w2 = Inr blobs"
    using run by (cases "result (new_blob_store pl cfg) w2") (simp_all only: db active sum.case sum.distinct)
  have "s = server_of pl cfg db active blobs (result (optional_predictive pl cfg) w3)"
    using run by (simp only: db active blobs sum.case sum.inject)
  then show ?thesis using active blobs by blast
qed

lemma select_registered_name:
  assumes "select (Some (result (registered pl cfg) w)) name = Inr p"
  shows "pr_name p = (if registry_name name = [] then default_active_provider else registry_name name)"
    and "pr_name p \<in> {km_name, ot_name}"
proof -
  obtain ot km where r: "pr_name ot = ot_name" "pr_name km = km_name"
    "result (registered pl cfg) w = [ot_name \<mapsto> ot, km_name \<mapsto> km]"
    using registered_lookup [of pl cfg w] by (elim exE conjE)
  show "pr_name p = (if registry_name name = [] then default_active_provider else registry_name name)"
    and "pr_name p \<in> {km_name, ot_name}"
    using assms r(1,2) by (auto simp: select_def r(3) Let_def split: if_splits option.splits)
qed


text \<open>A platform with a database that opens.\<close>

definition open_platform :: "('w, 'n) platform \<Rightarrow> 'w database \<Rightarrow> ('w, 'n) platform" where
  "open_platform pl db = pl\<lparr>pl_connect := (\<lambda>_. pass (Inr (db\<lparr>db_migrate := pass None\<rparr>)))\<rparr>"

definition plain_config :: config where
  "plain_config = (default_config ''/tmp'')
     \<lparr>cf_active_provider := '' Kuramanime'', cf_browser_path := ''chromium'', cf_predictive_enabled := False\<rparr>"

lemma plain_server_runs:
  "\<exists>s. result (run_server (open_platform pl db) plain_config) w = Inr s"
proof -
  obtain ot km where r: "result (registered (open_platform pl db) plain_config) w = [ot_name \<mapsto> ot, km_name \<mapsto> km]"
    using registered_lookup [of "open_platform pl db" plain_config w] by (elim exE conjE)
  have "registry_name (cf_active_provider plain_config) = km_name" by code_simp
  then have "select (Some (result (registered (open_platform pl db) plain_config) w)) (cf_active_provider plain_config) = Inr km"
    using names_differ by (simp add: r select_def Let_def km_name_def)
  moreover have "new_blob_store (open_platform pl db) plain_config
      = pass (Inr (fs_blobs (pl_files (open_platform pl db)) (cf_media_cache_dir plain_config)))"
    by (simp add: new_blob_store_def dobject_configured_def plain_config_def default_config_def)
  moreover have x: "run_state (pg_open (open_platform pl db) url) w = (Inr (db\<lparr>db_migrate := pass None\<rparr>), w)" for url
    by (simp add: pg_open_def open_platform_def)
  ultimately show ?thesis unfolding run_server_steps Let_def by (simp add: x)
qed




end
