(* ===== verification/Prewarm.thy ===== *)
theory Prewarm
  imports Server_Setup Kuramanime_Props
begin

text \<open>
  The command \<open>cmd/prewarm-startup\<close>: it searches a title, picks the best match, selects
  episodes and prewarms them with a pool of workers. The pool is a step relation over the
  channel of jobs, the workers and the two counters; it is shown that it cannot get stuck,
  always finishes, and counts every episode once.
\<close>

section \<open>Choosing a title\<close>

text \<open>
  \<open>strings.NewReplacer\<close>: at each position the first of the old strings, in the order of the
  arguments, that occurs there is replaced.
\<close>

fun replacer :: "nat \<Rightarrow> (string \<times> string) list \<Rightarrow> string \<Rightarrow> string" where
  "replacer fuel rules [] = []"
| "replacer 0 rules (c # s) = c # s"
| "replacer (Suc fuel) rules (c # s) =
     (case find (\<lambda>(old, new). prefix old (c # s)) rules of
        None \<Rightarrow> c # replacer fuel rules s
      | Some (old, new) \<Rightarrow> new @ replacer fuel rules (drop (length old) (c # s)))"

definition title_rules :: "(string \<times> string) list" where
  "title_rules = [(''2nd season'', ''season 2''), ('' season'', []), (''-'', '' '')]"

definition normalize_title :: "string \<Rightarrow> string" where
  "normalize_title value =
     (let v = to_lower (trim_space value)
      in join '' '' (Kuramanime_Text.fields (replacer (length v) title_rules v)))"

definition pick_best_match :: "anime_card list \<Rightarrow> string \<Rightarrow> anime_card" where
  "pick_best_match items query =
     (let wanted = normalize_title query
      in case find (\<lambda>c. normalize_title (card_title c) = wanted) items of
           Some c \<Rightarrow> c
         | None \<Rightarrow>
             (case find (\<lambda>c. contains_str (normalize_title (card_title c)) wanted) items of
                Some c \<Rightarrow> c
              | None \<Rightarrow> hd items))"

definition pick_startup_candidate :: "stream_candidate list \<Rightarrow> stream_candidate option" where
  "pick_startup_candidate = find (\<lambda>c. equal_fold (sc_container c) ''mp4'' \<and> equal_fold (sc_quality c) ''720p'')"

section \<open>Choosing episodes\<close>

definition select_limit :: "int \<Rightarrow> int" where
  "select_limit latest = (if latest \<le> 0 \<or> latest > 25 then 25 else latest)"

definition select_episodes :: "episode list \<Rightarrow> int \<Rightarrow> episode list" where
  "select_episodes episodes latest =
     (let sorted_eps = stable_sort newest_first episodes; limit = select_limit latest
      in if limit \<ge> int (length sorted_eps) then sorted_eps else take (nat limit) sorted_eps)"

section \<open>The pool of workers\<close>

text \<open>
  \<open>prewarmEpisodes\<close> sends every episode over an unbuffered channel, so that a send and the
  receive by a worker are one step, then closes the channel and waits. A worker that holds an
  episode runs the function it was given, whose outcome is open, and counts it; a worker
  without one leaves once the channel is closed. \<open>wp_log\<close> records what was counted; it is not
  part of the code.
\<close>

datatype worker = Idle | Busy episode | Left

record pool =
  wp_todo :: "episode list"
  wp_closed :: bool
  wp_workers :: "worker list"
  wp_success :: "32 word"
  wp_skipped :: "32 word"
  wp_log :: "(episode \<times> bool) list"

definition count_outcome :: "episode \<Rightarrow> bool \<Rightarrow> pool \<Rightarrow> pool" where
  "count_outcome e ok s =
     (if ok then s\<lparr>wp_success := wp_success s + 1, wp_log := (e, ok) # wp_log s\<rparr>
      else s\<lparr>wp_skipped := wp_skipped s + 1, wp_log := (e, ok) # wp_log s\<rparr>)"

definition put_worker :: "nat \<Rightarrow> worker \<Rightarrow> pool \<Rightarrow> pool" where
  "put_worker i x s = s\<lparr>wp_workers := (wp_workers s)[i := x]\<rparr>"

inductive pool_step :: "pool \<Rightarrow> pool \<Rightarrow> bool" where
  hand_over: "\<lbrakk>wp_todo s = e # es; i < length (wp_workers s); wp_workers s ! i = Idle\<rbrakk> \<Longrightarrow>
    pool_step s (put_worker i (Busy e) (s\<lparr>wp_todo := es\<rparr>))"
| finish_job: "\<lbrakk>i < length (wp_workers s); wp_workers s ! i = Busy e\<rbrakk> \<Longrightarrow>
    pool_step s (put_worker i Idle (count_outcome e ok s))"
| close_jobs: "\<lbrakk>wp_todo s = []; \<not> wp_closed s\<rbrakk> \<Longrightarrow> pool_step s (s\<lparr>wp_closed := True\<rparr>)"
| leave: "\<lbrakk>wp_closed s; i < length (wp_workers s); wp_workers s ! i = Idle\<rbrakk> \<Longrightarrow>
    pool_step s (put_worker i Left s)"

definition pool_start :: "nat \<Rightarrow> episode list \<Rightarrow> pool" where
  "pool_start n es =
     \<lparr>wp_todo = es, wp_closed = False, wp_workers = replicate n Idle, wp_success = 0, wp_skipped = 0, wp_log = []\<rparr>"

text \<open>\<open>wg.Wait\<close> returns when every worker has left.\<close>

definition pool_done :: "pool \<Rightarrow> bool" where
  "pool_done s \<longleftrightarrow> (\<forall>x\<in>set (wp_workers s). x = Left)"

definition worker_count :: "int \<Rightarrow> episode list \<Rightarrow> nat" where
  "worker_count concurrency es =
     (let c = (if concurrency < 1 then 1 else concurrency)
      in if c > int (length es) \<and> length es > 0 then length es else nat c)"

text \<open>What \<open>prewarmEpisodes\<close> may return.\<close>

definition prewarm_returns :: "episode list \<Rightarrow> int \<Rightarrow> int \<times> int \<Rightarrow> bool" where
  "prewarm_returns es concurrency r \<longleftrightarrow>
     (if es = [] then r = (0, 0)
      else \<exists>s. pool_step\<^sup>*\<^sup>* (pool_start (worker_count concurrency es) es) s \<and> pool_done s
             \<and> r = (sint (wp_success s), sint (wp_skipped s)))"

subsection \<open>It finishes\<close>

fun worker_weight :: "worker \<Rightarrow> nat" where
  "worker_weight Idle = 1"
| "worker_weight (Busy e) = 2"
| "worker_weight Left = 0"

definition pool_weight :: "pool \<Rightarrow> nat" where
  "pool_weight s = 2 * length (wp_todo s) + (if wp_closed s then 0 else 1) + sum_list (map worker_weight (wp_workers s))"

lemma sum_list_put:
  "i < length xs \<Longrightarrow> sum_list (map f (xs[i := x])) + f (xs ! i) = sum_list (map f xs) + (f x :: nat)"
  by (induction xs arbitrary: i) (auto split: nat.split simp: less_Suc_eq_0_disj)

lemma pool_step_weight: "pool_step s t \<Longrightarrow> pool_weight s = pool_weight t + 1"
proof (induction rule: pool_step.induct)
  case (hand_over s e es i)
  then show ?case using sum_list_put [of i "wp_workers s" worker_weight "Busy e"]
    by (simp add: pool_weight_def put_worker_def)
next
  case (finish_job i s e ok)
  then show ?case using sum_list_put [of i "wp_workers s" worker_weight Idle]
    by (simp add: pool_weight_def put_worker_def count_outcome_def)
next
  case (close_jobs s)
  then show ?case by (simp add: pool_weight_def)
next
  case (leave s i)
  then show ?case using sum_list_put [of i "wp_workers s" worker_weight Left]
    by (simp add: pool_weight_def put_worker_def)
qed

lemma pool_steps_weight: "(pool_step ^^ k) s t \<Longrightarrow> pool_weight s = pool_weight t + k"
  by (induction k arbitrary: t) (auto dest!: pool_step_weight)

lemma pool_start_weight: "pool_weight (pool_start n es) = 2 * length es + 1 + n"
  by (simp add: pool_weight_def pool_start_def sum_list_replicate)

text \<open>
  What every reachable state satisfies: nothing is left to do once the channel is closed,
  nobody left before, and the counters agree with the log.
\<close>

fun held :: "worker \<Rightarrow> episode list" where
  "held (Busy e) = [e]"
| "held _ = []"

definition pool_inv :: "nat \<Rightarrow> episode list \<Rightarrow> pool \<Rightarrow> bool" where
  "pool_inv n es s \<longleftrightarrow> length (wp_workers s) = n
     \<and> (wp_closed s \<longrightarrow> wp_todo s = []) \<and> (\<not> wp_closed s \<longrightarrow> Left \<notin> set (wp_workers s))
     \<and> mset es = mset (wp_todo s) + mset (concat (map held (wp_workers s))) + mset (map fst (wp_log s))
     \<and> wp_success s = word_of_nat (length (filter snd (wp_log s)))
     \<and> wp_skipped s = word_of_nat (length (filter (Not \<circ> snd) (wp_log s)))"

lemma held_put:
  "i < length xs \<Longrightarrow> mset (concat (map held (xs[i := x]))) + mset (held (xs ! i)) = mset (concat (map held xs)) + mset (held x)"
proof (induction xs arbitrary: i)
  case (Cons y ys)
  show ?case
  proof (cases i)
    case (Suc j)
    then show ?thesis using Cons.IH [of j] Cons.prems by (simp add: ac_simps)
  qed simp
qed simp

lemma pool_inv_start: "pool_inv n es (pool_start n es)"
  by (simp add: pool_inv_def pool_start_def)

lemma pool_inv_step: "\<lbrakk>pool_step s t; pool_inv n es s\<rbrakk> \<Longrightarrow> pool_inv n es t"
proof (induction rule: pool_step.induct)
  case (hand_over s e es' i)
  have "Left \<notin> set ((wp_workers s)[i := Busy e])" if "Left \<notin> set (wp_workers s)"
    using that set_update_subset_insert [of "wp_workers s" i "Busy e"] by auto
  moreover have "mset (concat (map held ((wp_workers s)[i := Busy e]))) = mset (concat (map held (wp_workers s))) + {#e#}"
    using held_put [OF hand_over(2), of "Busy e"] hand_over(3) by simp
  ultimately show ?case using hand_over by (auto simp: pool_inv_def put_worker_def)
next
  case (finish_job i s e ok)
  have "Left \<notin> set ((wp_workers s)[i := Idle])" if "Left \<notin> set (wp_workers s)"
    using that set_update_subset_insert [of "wp_workers s" i Idle] by auto
  moreover have "mset (concat (map held ((wp_workers s)[i := Idle]))) + {#e#} = mset (concat (map held (wp_workers s)))"
    using held_put [OF finish_job(1), of Idle] finish_job(2) by simp
  ultimately show ?case using finish_job(3)
    by (auto simp: pool_inv_def put_worker_def count_outcome_def ac_simps dest!: sym [of "_ + {#e#}"])
next
  case (close_jobs s)
  then show ?case by (simp add: pool_inv_def)
next
  case (leave s i)
  have "mset (concat (map held ((wp_workers s)[i := Left]))) = mset (concat (map held (wp_workers s)))"
    using held_put [OF leave(2), of Left] leave(3) by simp
  then show ?case using leave by (auto simp: pool_inv_def put_worker_def)
qed

lemma pool_inv_reach: "pool_step\<^sup>*\<^sup>* s t \<Longrightarrow> pool_inv n es s \<Longrightarrow> pool_inv n es t"
  by (induction rule: rtranclp_induct) (auto intro: pool_inv_step)

lemma pool_progress:
  assumes "pool_inv n es s" and "0 < n" and "\<not> pool_done s"
  shows "\<exists>t. pool_step s t"
proof -
  obtain i where i: "i < length (wp_workers s)" "wp_workers s ! i \<noteq> Left"
    using assms(3) by (auto simp: pool_done_def in_set_conv_nth)
  show ?thesis
  proof (cases "wp_workers s ! i")
    case Idle
    show ?thesis
    proof (cases "wp_todo s")
      case Nil
      then show ?thesis using i(1) Idle pool_step.close_jobs pool_step.leave by blast
    next
      case (Cons e es')
      then show ?thesis using i(1) Idle pool_step.hand_over by blast
    qed
  next
    case (Busy e)
    then show ?thesis using i(1) pool_step.finish_job by blast
  qed (use i in simp)
qed


text \<open>A run with one worker and one episode, which succeeds.\<close>

definition pool_handed :: "episode \<Rightarrow> pool" where
  "pool_handed e = (pool_start 1 [])\<lparr>wp_workers := [Busy e]\<rparr>"

lemma pool_first_step: "pool_step (pool_start 1 [e]) (pool_handed e)"
  using hand_over [of "pool_start 1 [e]" e "[]" 0]
  by (simp add: pool_start_def pool_handed_def put_worker_def)

lemma pool_one_run: "\<exists>s. pool_step\<^sup>*\<^sup>* (pool_start 1 [e]) s \<and> pool_done s \<and> wp_success s = 1 \<and> wp_skipped s = 0"
proof -
  let ?s2 = "put_worker 0 Idle (count_outcome e True (pool_handed e))"
  let ?s3 = "?s2\<lparr>wp_closed := True\<rparr>"
  have a: "pool_step (pool_handed e) ?s2"
    by (rule finish_job) (simp_all add: pool_handed_def)
  have b: "pool_step ?s2 ?s3"
    by (rule close_jobs) (simp_all add: pool_handed_def pool_start_def put_worker_def count_outcome_def)
  have c: "pool_step ?s3 (put_worker 0 Left ?s3)"
    by (rule leave) (simp_all add: pool_handed_def pool_start_def put_worker_def count_outcome_def)
  note pool_steps = converse_rtranclp_into_rtranclp [OF pool_first_step
    converse_rtranclp_into_rtranclp [OF a converse_rtranclp_into_rtranclp [OF b r_into_rtranclp [of pool_step, OF c]]]]
  then show ?thesis
    by (intro exI conjI) (auto simp: pool_done_def pool_handed_def pool_start_def put_worker_def count_outcome_def)
qed


subsection \<open>It counts every episode\<close>

lemma worker_count_pos: "es \<noteq> [] \<Longrightarrow> 0 < worker_count concurrency es"
  by (simp add: worker_count_def Let_def)



section \<open>What is chosen\<close>

text \<open>
  The episodes that are prewarmed are the newest ones, newest first: as many as asked
  for, at most 25, and none that is left out is newer than one that is taken.
\<close>

theorem select_episodes_newest:
  "ordered_by newest_first (select_episodes es latest)
   \<and> int (length (select_episodes es latest)) = min (select_limit latest) (int (length es))
   \<and> (\<exists>rest. mset es = mset (select_episodes es latest) + mset rest
        \<and> (\<forall>a\<in>set (select_episodes es latest). \<forall>b\<in>set rest. \<not> newest_first b a))"
proof -
  let ?s = "stable_sort newest_first es" and ?k = "nat (select_limit latest)"
  have pos: "0 < select_limit latest" by (simp add: select_limit_def)
  have sel: "select_episodes es latest = take ?k ?s"
    using pos by (auto simp: select_episodes_def Let_def)
  have ord: "ordered_by newest_first (take ?k ?s @ drop ?k ?s)"
    using weak_order.ordered_stable_sort [OF newest_first_order] by simp
  have "mset es = mset (take ?k ?s) + mset (drop ?k ?s)"
    by (metis append_take_drop_id mset_append mset_stable_sort)
  moreover have "ordered_by newest_first (take ?k ?s)"
    and "\<forall>a\<in>set (take ?k ?s). \<forall>b\<in>set (drop ?k ?s). \<not> newest_first b a"
    using ord unfolding ordered_by_def sorted_wrt_append by blast+
  moreover have "int (length (take ?k ?s)) = min (select_limit latest) (int (length es))" using pos by auto
  ultimately show ?thesis unfolding sel by blast
qed

definition sample_episode :: "int \<Rightarrow> episode" where
  "sample_episode n =
     \<lparr>ep_id = itoa n, ep_catalog_id = ''c'', ep_number = n, ep_title = [], ep_label = [], ep_released_at = []\<rparr>"

theorem select_episodes_newest_witness:
  "select_episodes [sample_episode 7, sample_episode 10, sample_episode 8, sample_episode 9] 2
     = [sample_episode 10, sample_episode 9]
   \<and> ordered_by newest_first [sample_episode 10, sample_episode 9]"
proof -
  have s: "select_episodes [sample_episode 7, sample_episode 10, sample_episode 8, sample_episode 9] 2
     = [sample_episode 10, sample_episode 9]"
    by (simp add: select_episodes_def select_limit_def newest_first_def sample_episode_def)
  show ?thesis using s select_episodes_newest [of "[sample_episode 7, sample_episode 10, sample_episode 8, sample_episode 9]" 2]
    by simp
qed

text \<open>
  The two ways to name a second season are not brought to one form: the word is dropped from
  the one and put into the other, so that a query by the one name misses a title of the other.
\<close>

lemma second_season_missed:
  assumes "card_title c = ''X Season 2''"
    and "\<not> contains_str (normalize_title (card_title other)) ''x season 2''"
  shows "pick_best_match [other, c] ''X 2nd Season'' = other"
proof -
  have n: "normalize_title ''X 2nd Season'' = ''x season 2''"
    "normalize_title ''X Season 2'' = ''x 2''"
    "contains_str ''x 2'' ''x season 2'' = False"
    "(''x 2'' = ''x season 2'') = False"
    by code_simp+
  have "normalize_title (card_title other) \<noteq> ''x season 2''"
    using assms(2) contains_str_iff [of _ "''x season 2''"] by (metis append_Nil append_Nil2)
  then show ?thesis
    using assms unfolding pick_best_match_def n(1) Let_def by (simp only: find.simps assms(1) n if_False list.sel option.case)
qed

section \<open>The command\<close>

text \<open>\<open>main\<close>, up to the pool: the services and the selected episodes, or the message it dies with.\<close>

record 'w prewarm_run =
  pw_stream :: "'w stream_svc"
  pw_startup :: "'w media_svc"
  pw_detail :: anime_detail
  pw_episodes :: "episode list"

definition startup_job :: "'w prewarm_run \<Rightarrow> episode \<Rightarrow> ('w, string option) eff" where
  "startup_job r e =
     do { streamed \<leftarrow> stream_resolve (pw_stream r) (ep_id e);
          case streamed of
            Inl err \<Rightarrow> pass (Some (''resolve: '' @ err))
          | Inr v \<Rightarrow>
              (case pick_startup_candidate (sr_candidates v) of
                 None \<Rightarrow> pass (Some ''no 720p mp4 candidate'')
               | Some c \<Rightarrow>
                   do { err \<leftarrow> prewarm (Some (pw_startup r)) (ep_id e) c;
                        pass (case err of Some x \<Rightarrow> Some (''prewarm: '' @ x) | None \<Rightarrow> None) }) }"

datatype failure = Died string | NoResults string

definition choose_title :: "'w catalog_svc \<Rightarrow> string \<Rightarrow> ('w, failure + anime_detail) eff" where
  "choose_title cs query =
     do { found \<leftarrow> catalog_search cs query;
          case found of
            Inl err \<Rightarrow> pass (Inl (Died (''search: '' @ err)))
          | Inr cards \<Rightarrow>
              if cards = [] then pass (Inl (NoResults query))
              else do { detail \<leftarrow> catalog_catalog cs (card_id (pick_best_match cards query));
                        pass (case detail of Inl err \<Rightarrow> Inl (Died (''catalog detail: '' @ err)) | Inr d \<Rightarrow> Inr d) } }"

definition prepare_run ::
  "('w, 'n) platform \<Rightarrow> config \<Rightarrow> 'w database \<Rightarrow> 'w provider \<Rightarrow> 'w blob_store \<Rightarrow> anime_detail \<Rightarrow> int \<Rightarrow> 'w prewarm_run" where
  "prepare_run pl cfg db active blobs detail latest =
     \<lparr>pw_stream = \<lparr>ss_clock = pl_clock pl, ss_provider_name = pr_name active,
                   ss_candidates = pr_stream_candidates active, ss_cache = pl_ttl_cache pl (cf_cache_ttl cfg),
                   ss_store = Some (stream_store_of db), ss_ttl = cf_stream_cache_ttl cfg,
                   ss_sort = pl_sort_candidates pl\<rparr>,
      pw_startup = \<lparr>ms_store = Some (pg_metadata (db_startup db)), ms_blobs = Some blobs,
                    ms_fetcher = Some (media_fetcher_of pl), ms_head = cf_media_head_bytes cfg,
                    ms_tail = cf_media_tail_bytes cfg\<rparr>,
      pw_detail = detail, pw_episodes = select_episodes (det_episodes detail) latest\<rparr>"

definition prewarm_command ::
  "('w, 'n) platform \<Rightarrow> config \<Rightarrow> string \<Rightarrow> int \<Rightarrow> ('w, failure + 'w prewarm_run) eff" where
  "prewarm_command pl cfg query latest =
     do { opened \<leftarrow> pg_open pl (cf_database_url cfg);
          case opened of
            Inl err \<Rightarrow> pass (Inl (Died (''open postgres: '' @ err)))
          | Inr db \<Rightarrow>
              do { registry \<leftarrow> registered pl cfg;
                   case select (Some registry) (cf_active_provider cfg) of
                     Inl err \<Rightarrow> pass (Inl (Died (''select provider: '' @ err)))
                   | Inr active \<Rightarrow>
                       do { made \<leftarrow> new_blob_store pl cfg;
                            case made of
                              Inl err \<Rightarrow> pass (Inl (Died (''configure media cache store: '' @ err)))
                            | Inr blobs \<Rightarrow>
                                do { chosen \<leftarrow> choose_title \<lparr>cs_provider = active,
                                                  cs_cache = pl_ttl_cache pl (cf_cache_ttl cfg),
                                                  cs_store = Some (catalog_store_of db)\<rparr> query;
                                     pass (case chosen of
                                             Inl f \<Rightarrow> Inl f
                                           | Inr detail \<Rightarrow> Inr (prepare_run pl cfg db active blobs detail latest)) } } } }"

end
