(* ===== verification/Routes.thy ===== *)
theory Routes
  imports Media_Route Client_Routes
begin

text \<open>
  The route table of \<open>internal/httpserver/routes.go\<close> with its middleware, and what a request
  meets on its way to a handler. The web framework walks the entries in the order of their
  registration; how a path matches a pattern, and which requests the CORS middleware answers
  itself, is its own matter and a parameter. It is shown that no request without a known
  client gets past the client check, that a refused request touches no service, that every answered request is
  logged, and that no request matches two routes.
\<close>

section \<open>The table\<close>

datatype endpoint =
    Health | EnsureSession | Home | Search | Schedule | Index | SeasonalPopular
  | PropertyList | PropertyCatalog | QuickCatalog | SchedulePage
  | CatalogDetail | CatalogEpisodes | StreamResolve | ImageRoute | MediaRoute
  | Watchlist | SaveWatchlist | DeleteWatchlist | History | SaveHistory | DeleteHistory
  | ContinueWatching | PrimeStartupWindow

datatype middleware = Cors | RequestLogger | RateLimit | RequireClient

datatype route_entry = Use string middleware | Route string string endpoint

definition open_routes :: "route_entry list" where
  "open_routes =
     [Route ''GET'' ''/health'' Health,
      Route ''POST'' ''/api/v2/session/anonymous'' EnsureSession,
      Route ''GET'' ''/api/v2/home'' Home,
      Route ''GET'' ''/api/v2/search'' Search,
      Route ''GET'' ''/api/v2/schedule'' Schedule,
      Route ''GET'' ''/api/v2/index'' Index,
      Route ''GET'' ''/api/v2/discover/seasonal-popular'' SeasonalPopular,
      Route ''GET'' ''/api/v2/discover/properties/:kind'' PropertyList,
      Route ''GET'' ''/api/v2/discover/properties/:kind/:propertyId'' PropertyCatalog,
      Route ''GET'' ''/api/v2/discover/quick/:kind'' QuickCatalog,
      Route ''GET'' ''/api/v2/discover/schedule'' SchedulePage,
      Route ''GET'' ''/api/v2/catalog/:catalogId'' CatalogDetail,
      Route ''GET'' ''/api/v2/catalog/:catalogId/episodes'' CatalogEpisodes,
      Route ''GET'' ''/api/v2/stream/:episodeId'' StreamResolve,
      Route ''GET'' ''/api/v2/image'' ImageRoute,
      Route ''GET'' ''/api/v2/media'' MediaRoute]"

definition client_routes :: "route_entry list" where
  "client_routes =
     [Route ''GET'' ''/api/v2/watchlist'' Watchlist,
      Route ''POST'' ''/api/v2/watchlist'' SaveWatchlist,
      Route ''DELETE'' ''/api/v2/watchlist/:catalogId'' DeleteWatchlist,
      Route ''GET'' ''/api/v2/history'' History,
      Route ''POST'' ''/api/v2/history'' SaveHistory,
      Route ''DELETE'' ''/api/v2/history/:catalogId'' DeleteHistory,
      Route ''GET'' ''/api/v2/continue-watching'' ContinueWatching,
      Route ''POST'' ''/api/v2/stream/window'' PrimeStartupWindow]"

definition routes :: "route_entry list" where
  "routes = [Use [] Cors, Use [] RequestLogger, Use [] RateLimit] @ open_routes
     @ [Use ''/api/v2/'' RequireClient] @ client_routes"

section \<open>Requests on their way\<close>

record http_call =
  ca_method :: string
  ca_path :: string
  ca_url :: string
  ca_ip :: string
  ca_time :: time
  ca_finished :: time
  ca_input :: http_input
  ca_watch :: "string option"
  ca_history :: "history_input option"
  ca_window :: "window_input option"

datatype job = RefreshStream string | PrepareWindow int "string list"

text \<open>
  Without a route the handlers return an error, which the framework turns into its answer once
  they are all done.
\<close>

datatype outcome = Crash | Unmatched | Reply response "job option"

record framework =
  fw_under :: "string \<Rightarrow> string \<Rightarrow> bool"
  fw_match :: "string \<Rightarrow> string \<Rightarrow> string \<Rightarrow> string \<Rightarrow> (string \<Rightarrow> string) option"
  fw_cors :: "http_call \<Rightarrow> response option"
  fw_no_route :: "http_call \<Rightarrow> response"

subsection \<open>The request log\<close>

record log_entry =
  le_ts :: string
  le_method :: string
  le_path :: string
  le_status :: int
  le_latency_ms :: int
  le_ip :: string
  le_user_agent :: string
  le_origin :: string
  le_client_token :: string

definition format_rfc3339 :: "time \<Rightarrow> string" where
  "format_rfc3339 t =
     (case civil_from_days (t div day_ns) of
        (y, m, d) \<Rightarrow> pad 4 y @ ''-'' @ pad 2 m @ ''-'' @ pad 2 d @ ''T'' @ pad 2 (t mod day_ns div (60 * minute)) @ '':''
                     @ pad 2 (t mod (60 * minute) div minute) @ '':'' @ pad 2 (t mod minute div second) @ ''Z'')"

text \<open>\<open>observability.Request\<close>: the entry gets the time it is written at.\<close>

definition stamped :: "time \<Rightarrow> log_entry \<Rightarrow> log_entry" where
  "stamped now entry = entry\<lparr>le_ts := format_rfc3339 now\<rparr>"

text \<open>What the logger sees of the answer: the status of a response nobody has written to is 200.\<close>

fun seen_status :: "outcome \<Rightarrow> int" where
  "seen_status (Reply r job) = rs_status r"
| "seen_status out = 200"

definition log_entry_of :: "http_call \<Rightarrow> int \<Rightarrow> log_entry" where
  "log_entry_of c status =
     \<lparr>le_ts = [], le_method = ca_method c, le_path = ca_url c, le_status = status,
      le_latency_ms = (ca_finished c - ca_time c) div 1000000, le_ip = ca_ip c,
      le_user_agent = in_header (ca_input c) ''User-Agent'', le_origin = in_header (ca_input c) ''Origin'',
      le_client_token = in_header (ca_input c) ''X-Client-Token''\<rparr>"

subsection \<open>The walk\<close>

record front =
  fr_counts :: counts
  fr_log :: "log_entry list"

type_synonym ('o, 'a) seff = "(front \<times> 'o predictive_state, 'a) eff"

definition on_services :: "('o, 'a) peff \<Rightarrow> ('o, 'a) seff" where
  "on_services m = State (\<lambda>(n, w). (result m w, (n, after m w)))"

definition on_counts :: "(counts, 'a) eff \<Rightarrow> ('o, 'a) seff" where
  "on_counts m = State (\<lambda>(f, w). (result m (fr_counts f), (f\<lparr>fr_counts := after m (fr_counts f)\<rparr>, w)))"

definition write_log :: "log_entry \<Rightarrow> ('o, unit) seff" where
  "write_log e = State (\<lambda>(f, w). ((), (f\<lparr>fr_log := fr_log f @ [e]\<rparr>, w)))"

definition request_logger :: "http_call \<Rightarrow> ('o, outcome) seff \<Rightarrow> ('o, outcome) seff" where
  "request_logger c next_handler =
     do { out \<leftarrow> next_handler;
          if out = Crash then pass Crash
          else do { write_log (stamped (ca_finished c) (log_entry_of c (seen_status out))); pass out } }"

definition rate_limited :: response where
  "rate_limited = api_err 429 ''rate_limited'' ''Too many requests.''"

definition reply :: "'o handler \<Rightarrow> ('o, outcome) peff" where
  "reply m = do { r \<leftarrow> m; pass (Reply r None) }"

fun run_endpoint :: "'o server \<Rightarrow> endpoint \<Rightarrow> http_call \<Rightarrow> http_input \<Rightarrow> ('o, outcome) peff" where
  "run_endpoint s Health c i = reply (h_health s)"
| "run_endpoint s EnsureSession c i = reply (h_session s i)"
| "run_endpoint s Home c i = reply (h_home s)"
| "run_endpoint s Search c i = reply (h_search s i)"
| "run_endpoint s Schedule c i = reply (h_schedule s)"
| "run_endpoint s Index c i = reply (h_index s)"
| "run_endpoint s SeasonalPopular c i = reply (h_seasonal_popular s)"
| "run_endpoint s PropertyList c i = reply (h_property_list s i)"
| "run_endpoint s PropertyCatalog c i = reply (h_property_catalog s i)"
| "run_endpoint s QuickCatalog c i = reply (h_quick_catalog s i)"
| "run_endpoint s SchedulePage c i = reply (h_schedule_page s i)"
| "run_endpoint s CatalogDetail c i = reply (h_catalog_detail s i)"
| "run_endpoint s CatalogEpisodes c i = reply (h_catalog_episodes s i)"
| "run_endpoint s StreamResolve c i = reply (h_stream_resolve s i)"
| "run_endpoint s ImageRoute c i = reply (h_image s i)"
| "run_endpoint s MediaRoute c i =
     do { out \<leftarrow> h_media s i;
          pass (case out of Crashed \<Rightarrow> Crash | Answered r job \<Rightarrow> Reply r (map_option RefreshStream job)) }"
| "run_endpoint s Watchlist c i = reply (h_watchlist s i)"
| "run_endpoint s SaveWatchlist c i = reply (h_save_watchlist s (ca_watch c) i)"
| "run_endpoint s DeleteWatchlist c i = reply (h_delete_watchlist s i)"
| "run_endpoint s History c i = reply (h_history s i)"
| "run_endpoint s SaveHistory c i = reply (h_save_history s (ca_history c) i)"
| "run_endpoint s DeleteHistory c i = reply (h_delete_history s i)"
| "run_endpoint s ContinueWatching c i = reply (h_continue_watching s i)"
| "run_endpoint s PrimeStartupWindow c i =
     do { out \<leftarrow> h_prime_window s (ca_window c) i;
          pass (Reply (fst out) (map_option (PrepareWindow (in_client i)) (snd out))) }"

text \<open>The walk over the entries; the client of the request is known once it passed its check.\<close>

fun dispatch :: "framework \<Rightarrow> int \<Rightarrow> 'o server \<Rightarrow> route_entry list \<Rightarrow> http_call \<Rightarrow> http_input \<Rightarrow> ('o, outcome) seff" where
  "dispatch fw rpm s [] c i = pass Unmatched"
| "dispatch fw rpm s (Use area m # es) c i =
     (if \<not> fw_under fw area (ca_path c) then dispatch fw rpm s es c i
      else (case m of
              Cors \<Rightarrow> (case fw_cors fw c of Some r \<Rightarrow> pass (Reply r None) | None \<Rightarrow> dispatch fw rpm s es c i)
            | RequestLogger \<Rightarrow> request_logger c (dispatch fw rpm s es c i)
            | RateLimit \<Rightarrow>
                do { ok \<leftarrow> on_counts (rate_limit rpm (ca_ip c) (ca_time c));
                     if ok then dispatch fw rpm s es c i else pass (Reply rate_limited None) }
            | RequireClient \<Rightarrow>
                do { client \<leftarrow> on_services (guard_client s i None (\<lambda>j. pass (Some j)));
                     case client of
                       None \<Rightarrow> pass (Reply client_token_required None)
                     | Some j \<Rightarrow> dispatch fw rpm s es c j }))"
| "dispatch fw rpm s (Route meth pattern e # es) c i =
     (case fw_match fw meth pattern (ca_method c) (ca_path c) of
        None \<Rightarrow> dispatch fw rpm s es c i
      | Some params \<Rightarrow> on_services (run_endpoint s e c (i\<lparr>in_param := params\<rparr>)))"

definition serve_call :: "framework \<Rightarrow> int \<Rightarrow> 'o server \<Rightarrow> http_call \<Rightarrow> ('o, outcome) seff" where
  "serve_call fw rpm s c =
     do { out \<leftarrow> dispatch fw rpm s routes c (ca_input c);
          pass (if out = Unmatched then Reply (fw_no_route fw c) None else out) }"

section \<open>What cannot get through\<close>

lemma run_on_services: "run_state (on_services m) v = (result m (snd v), (fst v, after m (snd v)))"
  by (simp add: on_services_def split_beta)

lemma run_on_counts:
  "run_state (on_counts m) v
     = (result m (fr_counts (fst v)), ((fst v)\<lparr>fr_counts := after m (fr_counts (fst v))\<rparr>, snd v))"
  by (simp add: on_counts_def split_beta)

lemma run_write_log: "run_state (write_log e) v = ((), ((fst v)\<lparr>fr_log := fr_log (fst v) @ [e]\<rparr>, snd v))"
  by (simp add: write_log_def split_beta)

text \<open>
  The middleware of every request: preflights are answered, then what the limit and the
  routes make of the request is logged.
\<close>

definition everywhere :: "framework \<Rightarrow> http_call \<Rightarrow> bool" where
  "everywhere fw c \<longleftrightarrow> fw_under fw [] (ca_path c)"

definition behind_logger :: "framework \<Rightarrow> int \<Rightarrow> 'o server \<Rightarrow> http_call \<Rightarrow> ('o, outcome) seff" where
  "behind_logger fw rpm s c =
     do { ok \<leftarrow> on_counts (rate_limit rpm (ca_ip c) (ca_time c));
          if ok then dispatch fw rpm s (open_routes @ Use ''/api/v2/'' RequireClient # client_routes) c (ca_input c)
          else pass (Reply rate_limited None) }"

lemma serve_call_logged:
  assumes "everywhere fw c" and "fw_cors fw c = None"
  shows "run_state (serve_call fw rpm s c) v =
    (let out = result (behind_logger fw rpm s c) v; v1 = after (behind_logger fw rpm s c) v
     in (if out = Unmatched then Reply (fw_no_route fw c) None else out,
         if out = Crash then v1
         else ((fst v1)\<lparr>fr_log := fr_log (fst v1) @ [stamped (ca_finished c) (log_entry_of c (seen_status out))]\<rparr>, snd v1)))"
  using assms
  by (simp add: serve_call_def routes_def everywhere_def behind_logger_def request_logger_def run_write_log Let_def)

lemma serve_call_services:
  assumes "everywhere fw c" and "fw_cors fw c = None"
  shows "snd (after (serve_call fw rpm s c) v) = snd (after (behind_logger fw rpm s c) v)"
  by (simp add: serve_call_logged [OF assms] Let_def)

lemma behind_logger_refused:
  "\<not> result (rate_limit rpm (ca_ip c) (ca_time c)) (fr_counts (fst v)) \<Longrightarrow>
   result (behind_logger fw rpm s c) v = Reply rate_limited None \<and> snd (after (behind_logger fw rpm s c) v) = snd v"
  by (simp add: behind_logger_def run_on_counts)

text \<open>
  A request beyond the limit of its address is answered 429 and reaches no service: all
  that changes are the count and the log.
\<close>

theorem limited_call_untouched:
  assumes "everywhere fw c" "fw_cors fw c = None"
    and "\<not> result (rate_limit rpm (ca_ip c) (ca_time c)) (fr_counts (fst v))"
  shows "result (serve_call fw rpm s c) v = Reply rate_limited None \<and> snd (after (serve_call fw rpm s c) v) = snd v"
  using behind_logger_refused [OF assms(3)]
  by (simp add: serve_call_logged [OF assms(1,2)] serve_call_services [OF assms(1,2)] Let_def)

lemma dispatch_unmatched:
  assumes "\<forall>meth p e. Route meth p e \<in> set es \<longrightarrow> fw_match fw meth p (ca_method c) (ca_path c) = None"
    and "\<forall>p m. Use p m \<notin> set es"
  shows "dispatch fw rpm s (es @ rest) c i = dispatch fw rpm s rest c i"
  using assms
proof (induction es)
  case (Cons e es)
  then show ?case by (cases e) auto
qed simp

lemma open_routes_only: "\<forall>p m. Use p m \<notin> set open_routes"
  by (simp add: open_routes_def)

lemma guard_refuses:
  assumes "trim_space (in_header i ''X-Client-Token'') = []
    \<or> (\<exists>err. result (find_client (sv_clients s) (trim_space (in_header i ''X-Client-Token''))) w = Inl err)"
  shows "result (guard_client s i refused next_handler) w = refused"
  using assms by (auto simp: guard_client_def Let_def)

text \<open>
  C32. Below \<open>/api/v2\<close> only the open routes answer a request without a known client: for
  any other path, a client route or no route at all, the answer is 401 (or 429, or that of
  a CORS preflight), and no service does anything but look up the token.
\<close>

theorem client_routes_guarded:
  assumes "everywhere fw c" "fw_cors fw c = None" and "fw_under fw ''/api/v2/'' (ca_path c)"
    and "\<forall>meth p e. Route meth p e \<in> set open_routes \<longrightarrow> fw_match fw meth p (ca_method c) (ca_path c) = None"
    and "trim_space (in_header (ca_input c) ''X-Client-Token'') = []
      \<or> (\<exists>err. result (find_client (sv_clients s) (trim_space (in_header (ca_input c) ''X-Client-Token''))) (snd v) = Inl err)"
  shows "result (serve_call fw rpm s c) v \<in> {Reply client_token_required None, Reply rate_limited None}
    \<and> (snd (after (serve_call fw rpm s c) v) = snd v
       \<or> snd (after (serve_call fw rpm s c) v)
           = after (find_client (sv_clients s) (trim_space (in_header (ca_input c) ''X-Client-Token''))) (snd v))"
proof (cases "result (rate_limit rpm (ca_ip c) (ca_time c)) (fr_counts (fst v))")
  case False
  from behind_logger_refused [OF this] show ?thesis
    by (simp add: serve_call_logged [OF assms(1,2)] serve_call_services [OF assms(1,2)] Let_def)
next
  case True
  let ?g = "guard_client s (ca_input c) None (\<lambda>j. pass (Some j))"
  have refused: "result ?g (snd v) = None" by (rule guard_refuses [OF assms(5)])
  have "after ?g (snd v) = snd v
      \<or> after ?g (snd v) = after (find_client (sv_clients s) (trim_space (in_header (ca_input c) ''X-Client-Token''))) (snd v)"
    by (auto simp: guard_client_def Let_def split: sum.split)
  moreover have "result (behind_logger fw rpm s c) v = Reply client_token_required None"
    and "snd (after (behind_logger fw rpm s c) v) = after ?g (snd v)"
    using True refused
    by (simp_all add: behind_logger_def run_on_counts run_on_services dispatch_unmatched [OF assms(4) open_routes_only] assms(3))
  ultimately show ?thesis
    by (simp add: serve_call_logged [OF assms(1,2)] serve_call_services [OF assms(1,2)] Let_def)
qed

section \<open>What is logged\<close>

lemma dispatch_logs_nothing:
  assumes "\<forall>p. Use p RequestLogger \<notin> set es"
  shows "fr_log (fst (after (dispatch fw rpm s es c i) v)) = fr_log (fst v)"
  using assms
proof (induction es arbitrary: i v)
  case (Cons e es)
  show ?case
  proof (cases e)
    case (Use p m)
    then show ?thesis using Cons
      by (cases m) (auto simp: run_on_counts run_on_services split: option.split)
  next
    case (Route m p ep)
    then show ?thesis using Cons by (auto simp: run_on_services split: option.split)
  qed
qed simp

lemma behind_logger_logs_nothing: "fr_log (fst (after (behind_logger fw rpm s c) v)) = fr_log (fst v)"
proof -
  have "\<forall>p. Use p RequestLogger \<notin> set (open_routes @ Use ''/api/v2/'' RequireClient # client_routes)"
    by (simp add: open_routes_def client_routes_def)
  note dispatch_logs_nothing [OF this, simp]
  show ?thesis by (simp add: behind_logger_def run_on_counts)
qed

text \<open>
  C35. Every request that is answered and is no preflight is logged once, refused ones
  included, with the token its client authorises itself with. The status in the log is that
  of the answer, except that a request without a route is logged as 200, because the answer
  404 is written after the logger is done.
\<close>

theorem answered_call_logged:
  assumes "everywhere fw c" "fw_cors fw c = None" and "result (serve_call fw rpm s c) v = Reply r job"
  shows "\<exists>entry. fr_log (fst (after (serve_call fw rpm s c) v)) = fr_log (fst v) @ [entry]
    \<and> le_path entry = ca_url c \<and> le_client_token entry = in_header (ca_input c) ''X-Client-Token''
    \<and> le_status entry = (if result (behind_logger fw rpm s c) v = Unmatched then 200 else rs_status r)
    \<and> (result (behind_logger fw rpm s c) v = Unmatched \<longrightarrow> r = fw_no_route fw c)"
  using assms(3) behind_logger_logs_nothing [of fw rpm s c v]
  by (auto simp: serve_call_logged [OF assms(1,2)] Let_def stamped_def log_entry_of_def split: if_splits)

section \<open>No request has two routes\<close>

text \<open>
  What is relied on of the matching: a path that matches a pattern has the pattern's segments,
  up to case and a slash at the end, where a parameter stands for any segment; and only a
  \<open>GET\<close> route answers another method, \<open>HEAD\<close>.
\<close>

definition segments :: "string \<Rightarrow> string list" where
  "segments p = split_char CHR ''/'' (trim_right_char CHR ''/'' p)"

definition segment_fits :: "string \<Rightarrow> string \<Rightarrow> bool" where
  "segment_fits pat seg \<longleftrightarrow> prefix '':'' pat \<or> to_lower seg = to_lower pat"

definition lower_segments :: "string \<Rightarrow> string list" where
  "lower_segments p = map to_lower (segments p)"

definition overlap :: "string list \<Rightarrow> string list \<Rightarrow> bool" where
  "overlap = list_all2 (\<lambda>x y. prefix '':'' x \<or> prefix '':'' y \<or> x = y)"

lemma param_lower: "prefix '':'' x \<Longrightarrow> prefix '':'' (to_lower x)"
  by (auto simp: to_lower_def lower_char_def prefix_def)

lemma fits_overlap:
  assumes "list_all2 segment_fits (segments a) p" "list_all2 segment_fits (segments b) p"
  shows "overlap (lower_segments a) (lower_segments b)"
  using assms param_lower unfolding overlap_def lower_segments_def
  by (simp add: list_all2_conv_all_nth segment_fits_def) metis

locale path_matching =
  fixes fw :: framework
  assumes match_fits: "fw_match fw meth pat m path = Some ps \<Longrightarrow> list_all2 segment_fits (segments pat) (segments path)"
    and match_method: "fw_match fw meth pat m path = Some ps \<Longrightarrow> m = meth \<or> meth = ''GET'' \<and> m = ''HEAD''"
begin

lemma matches_overlap:
  "\<lbrakk>fw_match fw m p meth path = Some ps; fw_match fw m' p' meth path = Some ps'\<rbrakk>
     \<Longrightarrow> overlap (lower_segments p) (lower_segments p')"
  by (rule fits_overlap) (rule match_fits; assumption)+

lemma matches_method:
  "\<lbrakk>fw_match fw m p meth path = Some ps; fw_match fw m' p' meth path = Some ps'; m \<noteq> ''HEAD''; m' \<noteq> ''HEAD''\<rbrakk> \<Longrightarrow> m = m'"
  using match_method by metis

end

fun route_key :: "route_entry \<Rightarrow> (string \<times> string list \<times> endpoint) list" where
  "route_key (Use p m) = []"
| "route_key (Route m p e) = [(m, lower_segments p, e)]"

definition route_keys :: "(string \<times> string list \<times> endpoint) list" where
  "route_keys =
     [(''GET'', [[], ''health''], Health),
      (''POST'', [[], ''api'', ''v2'', ''session'', ''anonymous''], EnsureSession),
      (''GET'', [[], ''api'', ''v2'', ''home''], Home),
      (''GET'', [[], ''api'', ''v2'', ''search''], Search),
      (''GET'', [[], ''api'', ''v2'', ''schedule''], Schedule),
      (''GET'', [[], ''api'', ''v2'', ''index''], Index),
      (''GET'', [[], ''api'', ''v2'', ''discover'', ''seasonal-popular''], SeasonalPopular),
      (''GET'', [[], ''api'', ''v2'', ''discover'', ''properties'', '':kind''], PropertyList),
      (''GET'', [[], ''api'', ''v2'', ''discover'', ''properties'', '':kind'', '':propertyid''], PropertyCatalog),
      (''GET'', [[], ''api'', ''v2'', ''discover'', ''quick'', '':kind''], QuickCatalog),
      (''GET'', [[], ''api'', ''v2'', ''discover'', ''schedule''], SchedulePage),
      (''GET'', [[], ''api'', ''v2'', ''catalog'', '':catalogid''], CatalogDetail),
      (''GET'', [[], ''api'', ''v2'', ''catalog'', '':catalogid'', ''episodes''], CatalogEpisodes),
      (''GET'', [[], ''api'', ''v2'', ''stream'', '':episodeid''], StreamResolve),
      (''GET'', [[], ''api'', ''v2'', ''image''], ImageRoute),
      (''GET'', [[], ''api'', ''v2'', ''media''], MediaRoute),
      (''GET'', [[], ''api'', ''v2'', ''watchlist''], Watchlist),
      (''POST'', [[], ''api'', ''v2'', ''watchlist''], SaveWatchlist),
      (''DELETE'', [[], ''api'', ''v2'', ''watchlist'', '':catalogid''], DeleteWatchlist),
      (''GET'', [[], ''api'', ''v2'', ''history''], History),
      (''POST'', [[], ''api'', ''v2'', ''history''], SaveHistory),
      (''DELETE'', [[], ''api'', ''v2'', ''history'', '':catalogid''], DeleteHistory),
      (''GET'', [[], ''api'', ''v2'', ''continue-watching''], ContinueWatching),
      (''POST'', [[], ''api'', ''v2'', ''stream'', ''window''], PrimeStartupWindow)]"

lemma route_keys_eq: "concat (map route_key (open_routes @ client_routes)) = route_keys"
  by code_simp

definition keys_apart :: "(string \<times> string list \<times> endpoint) \<Rightarrow> (string \<times> string list \<times> endpoint) \<Rightarrow> bool" where
  "keys_apart x y = (case (x, y) of ((m, a, e), (m', b, e')) \<Rightarrow> e = e' \<or> m \<noteq> m' \<or> \<not> overlap a b)"

lemma route_keys_apart: "list_all (\<lambda>x. list_all (keys_apart x) route_keys) route_keys"
  by code_simp

lemma route_keyed:
  assumes "Route m p e \<in> set routes"
  shows "(m, lower_segments p, e) \<in> set route_keys" and "m \<in> {''GET'', ''POST'', ''DELETE''}"
proof -
  have "Route m p e \<in> set (open_routes @ client_routes)" using assms by (auto simp: routes_def)
  then have "(m, lower_segments p, e) \<in> set (concat (map route_key (open_routes @ client_routes)))" by force
  then show k: "(m, lower_segments p, e) \<in> set route_keys" by (simp only: route_keys_eq)
  have "list_all (\<lambda>k. fst k \<in> {''GET'', ''POST'', ''DELETE''}) route_keys" by (simp add: route_keys_def)
  with k show "m \<in> {''GET'', ''POST'', ''DELETE''}" by (auto simp: list_all_iff)
qed

text \<open>
  C34. A request matches at most one route, whatever the order of their registration: of two
  routes that match it, both lead to the same handler.
\<close>

theorem one_route:
  assumes "path_matching fw" and "Route m p e \<in> set routes" "Route m' p' e' \<in> set routes"
    and "fw_match fw m p meth path = Some ps" "fw_match fw m' p' meth path = Some ps'"
  shows "e = e'"
proof -
  have "m = m'"
    using route_keyed(2) [OF assms(2)] route_keyed(2) [OF assms(3)]
    by (intro path_matching.matches_method [OF assms(1,4,5)]) auto
  moreover have "overlap (lower_segments p) (lower_segments p')"
    by (rule path_matching.matches_overlap [OF assms(1,4,5)])
  moreover have "keys_apart (m, lower_segments p, e) (m', lower_segments p', e')"
    using route_keys_apart route_keyed(1) [OF assms(2)] route_keyed(1) [OF assms(3)] by (simp add: list_all_iff)
  ultimately show ?thesis by (simp add: keys_apart_def)
qed

section \<open>A framework that matches segment by segment\<close>

definition segment_framework :: framework where
  "segment_framework =
     \<lparr>fw_under = prefix,
      fw_match = (\<lambda>meth pat m path. if m = meth \<and> list_all2 segment_fits (segments pat) (segments path)
                                       then Some (\<lambda>_. []) else None),
      fw_cors = (\<lambda>_. None), fw_no_route = (\<lambda>_. api_err 404 ''not_found'' ''Cannot find the route.'')\<rparr>"

interpretation segment_framework: path_matching segment_framework
  by unfold_locales (auto simp: segment_framework_def split: if_splits)

lemma stream_route_matches:
  "fw_match segment_framework ''GET'' ''/api/v2/stream/:episodeId'' ''GET'' ''/api/v2/stream/e-1'' = Some (\<lambda>_. [])"
proof -
  have "list_all2 segment_fits (segments ''/api/v2/stream/:episodeId'') (segments ''/api/v2/stream/e-1'')" by code_simp
  then show ?thesis by (simp add: segment_framework_def)
qed

theorem one_route_witness:
  "{e. \<exists>m p ps. Route m p e \<in> set routes \<and> fw_match segment_framework m p ''GET'' ''/api/v2/stream/e-1'' = Some ps}
     = {StreamResolve}" (is "?found = _")
proof
  have r: "Route ''GET'' ''/api/v2/stream/:episodeId'' StreamResolve \<in> set routes"
    by (simp add: routes_def open_routes_def)
  then show "{StreamResolve} \<subseteq> ?found" using stream_route_matches by blast
  show "?found \<subseteq> {StreamResolve}"
    using one_route [OF segment_framework.path_matching_axioms _ r _ stream_route_matches] by blast
qed

definition sample_call :: "string \<Rightarrow> http_call" where
  "sample_call path =
     \<lparr>ca_method = ''GET'', ca_path = path, ca_url = path, ca_ip = ''10.0.0.1'', ca_time = 0, ca_finished = 0,
      ca_input = \<lparr>in_query = (\<lambda>_. []), in_query_int = (\<lambda>_ n. n), in_param = (\<lambda>_. []), in_header = (\<lambda>_. []),
                  in_base = [], in_client = 0\<rparr>,
      ca_watch = None, ca_history = None, ca_window = None\<rparr>"

definition quiet_front :: front where
  "quiet_front = \<lparr>fr_counts = Map.empty, fr_log = []\<rparr>"

theorem limited_call_untouched_witness:
  "\<forall>s w. result (serve_call segment_framework 0 s (sample_call ''/health'')) (quiet_front, w) = Reply rate_limited None"
proof (intro allI)
  fix s :: "'o server" and w
  show "result (serve_call segment_framework 0 s (sample_call ''/health'')) (quiet_front, w) = Reply rate_limited None"
    by (rule conjunct1 [OF limited_call_untouched])
      (simp_all add: everywhere_def segment_framework_def rate_limit_def increment_def quiet_front_def)
qed

lemma favicon_unrouted:
  "list_all (\<lambda>r. case r of Use p m \<Rightarrow> \<not> prefix p ''/favicon.ico''
     | Route m p e \<Rightarrow> \<not> (m = ''GET'' \<and> list_all2 segment_fits (segments p) (segments ''/favicon.ico'')))
     (open_routes @ Use ''/api/v2/'' RequireClient # client_routes)"
  by code_simp

lemma dispatch_unrouted:
  "list_all (\<lambda>r. case r of Use p m \<Rightarrow> \<not> prefix p path
     | Route m p e \<Rightarrow> \<not> (m = ''GET'' \<and> list_all2 segment_fits (segments p) (segments path))) es
   \<Longrightarrow> dispatch segment_framework rpm s es (sample_call path) i = pass Unmatched"
  by (induction es) (auto simp: segment_framework_def sample_call_def split: route_entry.splits)

theorem answered_call_logged_witness:
  "\<forall>s w. \<exists>entry. fr_log (fst (after (serve_call segment_framework 180 s (sample_call ''/favicon.ico'')) (quiet_front, w))) = [entry]
     \<and> le_status entry = 200 \<and> rs_status (fw_no_route segment_framework (sample_call ''/favicon.ico'')) = 404"
proof (intro allI)
  fix s :: "'o server" and w
  let ?c = "sample_call ''/favicon.ico''"
  have e: "everywhere segment_framework ?c" "fw_cors segment_framework ?c = None"
    by (simp_all add: everywhere_def segment_framework_def)
  have u: "result (behind_logger segment_framework 180 s ?c) (quiet_front, w) = Unmatched"
    by (simp add: behind_logger_def run_on_counts dispatch_unrouted [OF favicon_unrouted] rate_limit_def increment_def
        quiet_front_def)
  then have "result (serve_call segment_framework 180 s ?c) (quiet_front, w) = Reply (fw_no_route segment_framework ?c) None"
    by (simp add: serve_call_logged [OF e] Let_def)
  moreover have "rs_status (fw_no_route segment_framework ?c) = 404"
    by (simp add: segment_framework_def api_err_def)
  moreover have "fr_log quiet_front = []" by (simp add: quiet_front_def)
  moreover note answered_call_logged [OF e]
  ultimately show "\<exists>entry. fr_log (fst (after (serve_call segment_framework 180 s ?c) (quiet_front, w))) = [entry]
     \<and> le_status entry = 200 \<and> rs_status (fw_no_route segment_framework ?c) = 404"
    using u by (metis append_Nil fst_conv)
qed

lemma watchlist_not_open:
  "list_all (\<lambda>r. case r of Use p m \<Rightarrow> True
     | Route m p e \<Rightarrow> \<not> (m = ''GET'' \<and> list_all2 segment_fits (segments p) (segments ''/api/v2/watchlist''))) open_routes"
  by code_simp

theorem client_routes_guarded_witness:
  "\<forall>s v. result (serve_call segment_framework 180 s (sample_call ''/api/v2/watchlist'')) v
     \<in> {Reply client_token_required None, Reply rate_limited None}"
proof (intro allI)
  fix s :: "'o server" and v
  have "\<forall>meth p e. Route meth p e \<in> set open_routes \<longrightarrow>
      fw_match segment_framework meth p (ca_method (sample_call ''/api/v2/watchlist'')) (ca_path (sample_call ''/api/v2/watchlist'')) = None"
    using watchlist_not_open by (fastforce simp: list_all_iff segment_framework_def sample_call_def)
  from client_routes_guarded [OF _ _ _ this, where s = s and v = v and rpm = 180]
  show "result (serve_call segment_framework 180 s (sample_call ''/api/v2/watchlist'')) v
     \<in> {Reply client_token_required None, Reply rate_limited None}"
    by (simp add: everywhere_def segment_framework_def sample_call_def)
qed

end
