(* ===== verification/Api_Types.thy ===== *)
theory Api_Types
  imports Routes
begin

text \<open>
  The types of the answers: which data an endpoint of the API returns, with which status, and
  that errors, and errors alone, come with a status of 400 or above. The image and the media
  route answer bytes instead of data.
\<close>

fun data_fits :: "endpoint \<Rightarrow> api_data \<Rightarrow> bool" where
  "data_fits Health d = (\<exists>b. d = DHealth b)"
| "data_fits EnsureSession d = (\<exists>a b. d = DSession a b)"
| "data_fits Home d = (\<exists>x. d = DHome x)"
| "data_fits Search d = (\<exists>x. d = DCards x)"
| "data_fits Schedule d = (\<exists>x. d = DSchedule x)"
| "data_fits Index d = (\<exists>x. d = DIndex x)"
| "data_fits PropertyList d = (\<exists>x. d = DPropertyList x)"
| "data_fits CatalogDetail d = (\<exists>x. d = DDetail x)"
| "data_fits CatalogEpisodes d = (\<exists>x y. d = DEpisodes x y)"
| "data_fits StreamResolve d = (\<exists>x. d = DStream x)"
| "data_fits Watchlist d = (\<exists>x. d = DWatchlist x)"
| "data_fits SaveWatchlist d = (\<exists>x. d = DSavedWatch x)"
| "data_fits DeleteWatchlist d = (d = DDeleted)"
| "data_fits History d = (\<exists>x. d = DHistory x)"
| "data_fits SaveHistory d = (\<exists>x y. d = DSavedHistory x y)"
| "data_fits DeleteHistory d = (d = DDeleted)"
| "data_fits ContinueWatching d = (\<exists>x. d = DContinue x)"
| "data_fits PrimeStartupWindow d = (case d of DWindow n e a b \<Rightarrow> True | _ \<Rightarrow> False)"
| "data_fits ImageRoute d = False"
| "data_fits MediaRoute d = False"
| "data_fits SeasonalPopular d = (\<exists>x. d = DPage x)"
| "data_fits PropertyCatalog d = (\<exists>x. d = DPage x)"
| "data_fits QuickCatalog d = (\<exists>x. d = DPage x)"
| "data_fits SchedulePage d = (\<exists>x. d = DPage x)"

definition success_status :: "endpoint \<Rightarrow> int" where
  "success_status e = (case e of SaveWatchlist \<Rightarrow> 201 | PrimeStartupWindow \<Rightarrow> 202 | _ \<Rightarrow> 200)"

definition response_fits :: "endpoint \<Rightarrow> response \<Rightarrow> bool" where
  "response_fits e r =
     (case rs_body r of
        ApiError code message \<Rightarrow> rs_status r \<in> {400, 403, 502, 503} \<and> code \<noteq> []
      | ApiData d meta \<Rightarrow> rs_status r = success_status e \<and> data_fits e d
      | _ \<Rightarrow> e \<in> {ImageRoute, MediaRoute})"

section \<open>The building blocks\<close>

lemma fits_err: "\<lbrakk>status \<in> {400, 403, 502, 503}; code \<noteq> []\<rbrakk> \<Longrightarrow> response_fits e (api_err status code message)"
  by (simp add: response_fits_def api_err_def)

lemma fits_ok: "\<lbrakk>status = success_status e; data_fits e d\<rbrakk> \<Longrightarrow> response_fits e (api_ok status d meta)"
  by (simp add: response_fits_def api_ok_def)

lemma fits_unavailable: "response_fits e storage_unavailable"
  by (simp add: storage_unavailable_def fits_err)

lemma fits_payload: "response_fits e (invalid_payload message)"
  by (simp add: invalid_payload_def fits_err)

lemma fits_headers: "response_fits e (r\<lparr>rs_headers := h\<rparr>) = response_fits e r"
  by (simp add: response_fits_def split: api_body.split)

lemma fits_answer:
  "(\<And>v w. response_fits e (result (view v) w)) \<Longrightarrow> response_fits e (result (answer m view) w)"
  by (auto simp: answer_def provider_failed_def fits_err split: sum.split)

lemma fits_with_id:
  "\<lbrakk>code \<noteq> []; \<And>i w. response_fits e (result (k i) w)\<rbrakk> \<Longrightarrow> response_fits e (result (with_id m code message k) w)"
  by (auto simp: with_id_def fits_err split: sum.split)

lemma fits_page: "\<lbrakk>success_status e = 200; \<And>x. data_fits e (DPage x)\<rbrakk> \<Longrightarrow> response_fits e (result (page_view s v) w)"
  by (simp add: page_view_def fits_ok)

lemmas fits_simps = fits_err fits_ok fits_unavailable fits_payload fits_headers success_status_def Let_def

section \<open>The handlers\<close>

lemma fits_pages:
  "response_fits Health (result (h_health s) w)"
  "response_fits EnsureSession (result (h_session s i) w)"
  "response_fits Home (result (h_home s) w)"
  "response_fits Search (result (h_search s i) w)"
  "response_fits Schedule (result (h_schedule s) w)"
  "response_fits Index (result (h_index s) w)"
  "response_fits PropertyList (result (h_property_list s i) w)"
  by (auto simp: h_health_def h_session_def h_home_def h_search_def h_schedule_def h_index_def h_property_list_def
      fits_simps intro!: fits_answer split: sum.split)

lemma fits_collections:
  "response_fits SeasonalPopular (result (h_seasonal_popular s) w)"
  "response_fits PropertyCatalog (result (h_property_catalog s i) w)"
  "response_fits QuickCatalog (result (h_quick_catalog s i) w)"
  "response_fits SchedulePage (result (h_schedule_page s i) w)"
  by (auto simp: h_seasonal_popular_def h_property_catalog_def h_quick_catalog_def h_schedule_page_def
      success_status_def intro!: fits_answer fits_page)

lemma fits_titles:
  "response_fits CatalogDetail (result (h_catalog_detail s i) w)"
  "response_fits CatalogEpisodes (result (h_catalog_episodes s i) w)"
  "response_fits StreamResolve (result (h_stream_resolve s i) w)"
  by (auto simp: h_catalog_detail_def h_catalog_episodes_def h_stream_resolve_def fits_simps
      intro!: fits_with_id fits_answer)

lemma fits_image: "response_fits ImageRoute (result (h_image s i) w)"
  by (auto simp: h_image_def response_fits_def api_err_def Let_def split: sum.split)

lemma fits_media: "result (h_media s i) w = Answered r job \<Longrightarrow> response_fits MediaRoute r"
  by (auto simp: h_media_def serve_fetched_def fits_simps response_fits_def cached_response_def buffered_response_def
      streamed_response_def api_err_def split: if_splits sum.splits serve.splits prod.splits)

lemma fits_watchlist:
  "response_fits Watchlist (result (h_watchlist s i) w)"
  "response_fits SaveWatchlist (result (h_save_watchlist s b i) w)"
  "response_fits DeleteWatchlist (result (h_delete_watchlist s i) w)"
  by (auto simp: h_watchlist_def h_save_watchlist_def h_delete_watchlist_def deleted_def fits_simps
      intro!: fits_with_id split: option.split sum.split)

lemma fits_history:
  "response_fits History (result (h_history s i) w)"
  "response_fits SaveHistory (result (h_save_history s hb i) w)"
  "response_fits DeleteHistory (result (h_delete_history s i) w)"
  "response_fits ContinueWatching (result (h_continue_watching s i) w)"
  by (auto simp: h_history_def h_save_history_def h_delete_history_def h_continue_watching_def deleted_def fits_simps
      intro!: fits_with_id split: option.split sum.split)

lemma fits_window: "response_fits PrimeStartupWindow (fst (result (h_prime_window s b i) w))"
  by (auto simp: h_prime_window_def fits_simps split: option.split)

text \<open>
  C33. Every answer of an endpoint is of its type: the data the endpoint is for, with the
  status 201 for a saved watchlist entry, 202 for a window and 200 otherwise; or an error
  with a code and one of the statuses 400, 403, 502 and 503; and bytes only from the image
  and the media route.
\<close>

theorem endpoint_typed:
  assumes "result (run_endpoint s e c i) w = Reply r job"
  shows "response_fits e r"
  using assms
  by (cases e)
    (auto simp: reply_def fits_pages fits_collections fits_titles fits_image fits_media fits_watchlist fits_history
      fits_window split: media_outcome.splits)

theorem endpoint_typed_witness:
  "\<forall>s w. response_fits Search (api_err 400 ''invalid_query'' ''Search query must be at least 2 characters.'')
     \<and> (\<exists>r. result (run_endpoint s Search (sample_call ''/api/v2/search'') (ca_input (sample_call ''/api/v2/search''))) w = Reply r None
          \<and> rs_status r = 400)"
proof (intro allI conjI)
  fix s :: "'o server" and w
  let ?r = "api_err 400 ''invalid_query'' ''Search query must be at least 2 characters.''"
  have run: "result (run_endpoint s Search (sample_call ''/api/v2/search'') (ca_input (sample_call ''/api/v2/search''))) w = Reply ?r None"
    by (simp add: reply_def h_search_def sample_call_def)
  show "response_fits Search ?r" by (rule endpoint_typed [OF run])
  show "\<exists>r. result (run_endpoint s Search (sample_call ''/api/v2/search'') (ca_input (sample_call ''/api/v2/search''))) w = Reply r None
          \<and> rs_status r = 400"
    using run by (auto simp: api_err_def)
qed

end
