(* ===== verification/Library_Flow.thy ===== *)
theory Library_Flow
  imports Route_Props
begin

text \<open>
  What a client sees of its watchlist through the API: a title it has saved is listed, with the
  details the provider has of it and an identifier that leads back to it. This puts together
  the handlers, the identifier service, the library service and the database store.
\<close>

lemma list_all2_member: "\<lbrakk>list_all2 P xs ys; x \<in> set xs\<rbrakk> \<Longrightarrow> \<exists>y\<in>set ys. P x y"
  by (induction rule: list_all2_induct) auto

context id_world
begin

lemma public_watchlist_known:
  "grows w (after (public_watchlist s items) w)
   \<and> list_all2 (\<lambda>a b. b\<lparr>wi_catalog_id := wi_catalog_id a\<rparr> = a
        \<and> known (after (public_watchlist s items) w) kind_catalog (wi_catalog_id b) (wi_catalog_id a))
       items (result (public_watchlist s items) w)"
  unfolding public_watchlist_def
proof (rule map_eff_known)
  fix x :: watchlist_item and w
  let ?p = "do { c \<leftarrow> public_field s kind_catalog (wi_catalog_id x); pass (x\<lparr>wi_catalog_id := c\<rparr>) }"
  show "grows w (after ?p w) \<and> ((result ?p w)\<lparr>wi_catalog_id := wi_catalog_id x\<rparr> = x
      \<and> known (after ?p w) kind_catalog (wi_catalog_id (result ?p w)) (wi_catalog_id x))"
    using public_field_known [of w kind_catalog "wi_catalog_id x"] by simp
qed (auto intro: known_mono)

end

lemma saved_created:
  assumes "rs_status (result (h_save_watchlist s (Some cid) i) w) = 201"
  obtains internal w1 where "result (resolve_catalog_id (sv_ids s) cid) w = Inr internal"
    "w1 = after (resolve_catalog_id (sv_ids s) cid) w"
    "result (library_save_watchlist (sv_library s) (in_client i) internal) w1 = None"
    "after (h_save_watchlist s (Some cid) i) w = after (library_save_watchlist (sv_library s) (in_client i) internal) w1"
proof (cases "result (resolve_catalog_id (sv_ids s) cid) w")
  case (Inl err)
  then show thesis using assms
    by (simp add: h_save_watchlist_def with_id_def invalid_payload_def api_err_def split: if_splits)
next
  case (Inr internal)
  let ?w1 = "after (resolve_catalog_id (sv_ids s) cid) w"
  have c: "cid \<noteq> []" using assms by (auto simp: h_save_watchlist_def invalid_payload_def api_err_def)
  have "result (library_save_watchlist (sv_library s) (in_client i) internal) ?w1 = None"
    using assms c Inr by (cases "result (library_save_watchlist (sv_library s) (in_client i) internal) ?w1")
      (simp_all add: h_save_watchlist_def with_id_def api_err_def)
  then show thesis using that [OF Inr refl] c Inr by (simp add: h_save_watchlist_def with_id_def)
qed

context watch_table
begin

lemma upsert_then_stored:
  assumes "result (upsert_watchlist tb c k t v p) w = None"
  shows "\<exists>r\<in>set (tv (after (upsert_watchlist tb c k t v p) w)). wr_client r = c \<and> wr_catalog r = k
    \<and> wr_title r = t \<and> wr_cover r = v \<and> wr_provider r = p"
  using upsert_watchlist_row(1) [OF assms] row_of_key by blast

lemma list_watchlist_set:
  "result (list_watchlist tb c) w = Inr rs \<Longrightarrow> set rs = {r \<in> set (tv w). wr_client r = c}"
  unfolding list_watchlist_def by (drule find_ok) (metis set_filter set_mset_mset)

end

lemma saved_item_listed:
  assumes "watch_table (ls_watch l) tv" and "result (library_save_watchlist l client internal) w = None"
    and "result (library_list_watchlist l client) (after (library_save_watchlist l client internal) w) = Inr items"
  obtains d item where "result (pr_catalog (ls_provider l) internal) w = Inr d" "item \<in> set items"
    "wi_catalog_id item = internal" "wi_title item = det_title d" "wi_cover item = det_cover d" "wi_provider item = det_provider d"
proof (cases "result (pr_catalog (ls_provider l) internal) w")
  case (Inr d)
  let ?w1 = "after (pr_catalog (ls_provider l) internal) w"
  let ?up = "upsert_watchlist (ls_watch l) client internal (det_title d) (det_cover d) (det_provider d)"
  have up: "result ?up ?w1 = None" "after (library_save_watchlist l client internal) w = after ?up ?w1"
    using assms(2) Inr by (simp_all add: library_save_watchlist_def)
  obtain r where r: "r \<in> set (tv (after ?up ?w1))" "wr_client r = client" "wr_catalog r = internal"
    "wr_title r = det_title d" "wr_cover r = det_cover d" "wr_provider r = det_provider d"
    using watch_table.upsert_then_stored [OF assms(1) up(1)] by blast
  obtain rs where rs: "result (list_watchlist (ls_watch l) client) (after ?up ?w1) = Inr rs" "items = map watch_item rs"
    using assms(3) by (auto simp: library_list_watchlist_def up(2) split: sum.splits)
  have "watch_item r \<in> set items" using watch_table.list_watchlist_set [OF assms(1) rs(1)] r(1,2) by (simp add: rs(2))
  from that [OF Inr this] r(3-6) show thesis by (simp add: watch_item_def)
qed (use assms(2) in \<open>simp add: library_save_watchlist_def\<close>)

text \<open>
  C6. What a client saves is on its watchlist: after a saved title was answered with 201, its
  watchlist, unless the database fails, has an item with the title, the cover and the provider
  that the provider gave, whose identifier leads back to the saved title. The public
  identifiers are those \<open>newUUID\<close> makes, and unique by the index of their table.
\<close>

theorem saved_title_listed:
  assumes "watch_table (ls_watch (sv_library s)) tv" and "id_world (sv_ids s) av"
    and "rs_status (result (h_save_watchlist s (Some cid) i) w) = 201" and "in_client j = in_client i"
    and "w1 = after (h_save_watchlist s (Some cid) i) w" and "w2 = after (h_watchlist s j) w1"
    and "list_all (\<lambda>r. uuid_text (al_public r)) (av w2)" and "distinct (map al_public (av w2))"
  shows "result (h_watchlist s j) w1 = storage_unavailable
    \<or> (\<exists>internal d items item. result (resolve_catalog_id (sv_ids s) cid) w = Inr internal
          \<and> result (pr_catalog (ls_provider (sv_library s)) internal) (after (resolve_catalog_id (sv_ids s) cid) w) = Inr d
          \<and> result (h_watchlist s j) w1 = api_ok 200 (DWatchlist items) []
          \<and> item \<in> set items \<and> wi_title item = det_title d \<and> wi_cover item = det_cover d
          \<and> wi_provider item = det_provider d
          \<and> leads_to (sv_ids s) w2 kind_catalog (wi_catalog_id item) internal)"
proof -
  let ?l = "sv_library s" and ?list = "library_list_watchlist (sv_library s) (in_client i)"
  obtain internal wr where saved: "result (resolve_catalog_id (sv_ids s) cid) w = Inr internal"
    "wr = after (resolve_catalog_id (sv_ids s) cid) w" "result (library_save_watchlist ?l (in_client i) internal) wr = None"
    "w1 = after (library_save_watchlist ?l (in_client i) internal) wr"
    using saved_created [OF assms(3)] assms(5) by metis
  show ?thesis
  proof (cases "result ?list w1")
    case (Inl err)
    then show ?thesis by (simp add: h_watchlist_def assms(4))
  next
    case (Inr xs)
    obtain d x where x: "result (pr_catalog (ls_provider ?l) internal) wr = Inr d" "x \<in> set xs" "wi_catalog_id x = internal"
      "wi_title x = det_title d" "wi_cover x = det_cover d" "wi_provider x = det_provider d"
      using saved_item_listed [OF assms(1) saved(3)] Inr saved(4) by metis
    let ?p = "public_watchlist (sv_ids s) xs" and ?w = "after ?list w1"
    have run: "run_state (h_watchlist s j) w1 = (api_ok 200 (DWatchlist (result ?p ?w)) [], after ?p ?w)"
      using Inr by (simp add: h_watchlist_def assms(4))
    then have w2: "w2 = after ?p ?w" using assms(6) by simp
    have "list_all2 (\<lambda>a b. b\<lparr>wi_catalog_id := wi_catalog_id a\<rparr> = a
        \<and> id_world.known av w2 kind_catalog (wi_catalog_id b) (wi_catalog_id a)) xs (result ?p ?w)"
      using id_world.public_watchlist_known [OF assms(2), of ?w xs] w2 by simp
    from list_all2_member [OF this x(2)] obtain y where y: "y \<in> set (result ?p ?w)" "y\<lparr>wi_catalog_id := wi_catalog_id x\<rparr> = x"
      "id_world.known av w2 kind_catalog (wi_catalog_id y) (wi_catalog_id x)"
      by blast
    have "leads_to (sv_ids s) w2 kind_catalog (wi_catalog_id y) internal"
      using id_world.known_leads [OF assms(2) y(3) _ assms(8)] assms(7) x(3)
      by (simp add: id_world.good_rows_def [OF assms(2)])
    moreover have "wi_title y = wi_title x" "wi_cover y = wi_cover x" "wi_provider y = wi_provider x"
      using arg_cong [OF y(2), of wi_title] arg_cong [OF y(2), of wi_cover] arg_cong [OF y(2), of wi_provider] by simp_all
    ultimately show ?thesis using run saved(1,2) x(1,4-6) y(1) by auto
  qed
qed

section \<open>A client and a title\<close>

definition flow_watch :: "(ref_database predictive_state, watch_row) table" where
  "flow_watch = lift_table ps_outside (\<lambda>d w. w\<lparr>ps_outside := d\<rparr>) ref_watch_table"

definition flow_aliases :: "(ref_database predictive_state, alias_row) table" where
  "flow_aliases = lift_table ps_outside (\<lambda>d w. w\<lparr>ps_outside := d\<rparr>) ref_alias_table"

definition flow_ids :: "ref_database predictive_state id_svc" where
  "flow_ids = \<lparr>is_aliases = flow_aliases, is_random = pass (replicate 16 7)\<rparr>"

interpretation flow_watch: watch_table flow_watch "\<lambda>w. ref_rows_view (rd_watch (ps_outside w))"
  unfolding watch_table_def flow_watch_def
  by (rule gorm_lift [where tv = "\<lambda>w. ref_rows_view (rd_watch w)"]) (simp_all add: db_watch.gorm_table_axioms)

interpretation flow_aliases: alias_table flow_aliases "\<lambda>w. ref_rows_view (rd_aliases (ps_outside w))"
  unfolding alias_table_def flow_aliases_def
  by (rule gorm_lift [where tv = "\<lambda>w. ref_rows_view (rd_aliases w)"]) (simp_all add: db_aliases.gorm_table_axioms)

interpretation flow_ids: id_world flow_ids "\<lambda>w. ref_rows_view (rd_aliases (ps_outside w))"
  unfolding id_world_def id_world_axioms_def by (simp add: flow_ids_def flow_aliases.alias_table_axioms)

definition flow_detail :: anime_detail where
  "flow_detail =
     \<lparr>det_id = ''ref:1'', det_title = ''X'', det_synopsis = [], det_cover = ''c.jpg'', det_banner = [], det_genres = [],
      det_metadata = None, det_episodes = [], det_recommendations = [], det_provider = ''ref''\<rparr>"

definition flow_server :: "ref_database server \<Rightarrow> ref_database server" where
  "flow_server s = s\<lparr>sv_ids := flow_ids, sv_library :=
     \<lparr>ls_watch = flow_watch, ls_history = lift_table ps_outside (\<lambda>d w. w\<lparr>ps_outside := d\<rparr>) ref_history_table,
      ls_provider = detail_provider (\<lambda>_. Inr flow_detail)\<rparr>\<rparr>"

definition flow_world :: "ref_database predictive_state" where
  "flow_world = \<lparr>ps_entries = Map.empty, ps_windows = Map.empty, ps_outside = empty_database\<rparr>"

lemmas flow_tables = flow_watch_def flow_aliases_def flow_ids_def flow_server_def flow_world_def ref_watch_table_def
  ref_alias_table_def lift_table_def ref_table_def ref_rows_view_def ref_save_def empty_database_def empty_db_def
  detail_provider_def sample_input_def

lemma sample_id: "trim_space ''ref:1'' = ''ref:1''" "parse_qualified_id ''ref:1'' = Inr (''ref'', ''1'')"
  by code_simp+

lemmas flow_run = h_save_watchlist_def with_id_def resolve_catalog_id_def resolve_id_def library_save_watchlist_def
  upsert_watchlist_def upsert_row_def first_or_def fill_watch_def zero_watch_def stamped_def sample_id flow_detail_def
  h_watchlist_def library_list_watchlist_def list_watchlist_def public_watchlist_def public_field_def public_id_def
  ensure_alias_def watch_item_def new_uuid_text alias_of_def zero_alias_def

lemma flow_saved:
  "result (h_save_watchlist (flow_server s) (Some ''ref:1'') (sample_input [])) flow_world = api_ok 201 (DSavedWatch ''ref:1'') []"
  by (simp add: flow_run flow_tables Let_def)

lemma flow_listed:
  fixes s
  defines "w1 \<equiv> after (h_save_watchlist (flow_server s) (Some ''ref:1'') (sample_input [])) flow_world"
  shows "result (h_watchlist (flow_server s) (sample_input [])) w1 \<noteq> storage_unavailable"
    and "list_all (\<lambda>r. uuid_text (al_public r)) (ref_rows_view (rd_aliases (ps_outside (after (h_watchlist (flow_server s) (sample_input [])) w1))))"
    and "distinct (map al_public (ref_rows_view (rd_aliases (ps_outside (after (h_watchlist (flow_server s) (sample_input [])) w1)))))"
  by (simp_all add: w1_def flow_run flow_tables api_ok_def storage_unavailable_def api_err_def Let_def)

theorem saved_title_listed_witness:
  "\<forall>s. \<exists>items item. result (h_watchlist (flow_server s) (sample_input []))
       (after (h_save_watchlist (flow_server s) (Some ''ref:1'') (sample_input [])) flow_world) = api_ok 200 (DWatchlist items) []
     \<and> item \<in> set items \<and> wi_title item = ''X'' \<and> wi_cover item = ''c.jpg''"
proof
  fix s
  have w: "watch_table (ls_watch (sv_library (flow_server s))) (\<lambda>w. ref_rows_view (rd_watch (ps_outside w)))"
    and i: "id_world (sv_ids (flow_server s)) (\<lambda>w. ref_rows_view (rd_aliases (ps_outside w)))"
    using flow_watch.watch_table_axioms flow_ids.id_world_axioms by (simp_all add: flow_server_def)
  have c: "rs_status (result (h_save_watchlist (flow_server s) (Some ''ref:1'') (sample_input [])) flow_world) = 201"
    by (simp add: flow_saved api_ok_def)
  have d: "result (pr_catalog (ls_provider (sv_library (flow_server s))) k) w' = Inr flow_detail" for k w'
    by (simp add: flow_server_def detail_provider_def)
  from saved_title_listed [OF w i c refl refl refl flow_listed(2,3)] flow_listed(1) [of s]
  show "\<exists>items item. result (h_watchlist (flow_server s) (sample_input []))
       (after (h_save_watchlist (flow_server s) (Some ''ref:1'') (sample_input [])) flow_world) = api_ok 200 (DWatchlist items) []
     \<and> item \<in> set items \<and> wi_title item = ''X'' \<and> wi_cover item = ''c.jpg''"
    by (auto simp: d flow_detail_def)
qed

end
