(* ===== verification/Spec2Isabelle.thy ===== *)
theory Spec2Isabelle
  imports Stream Media_Props Store_Props Catalog_Props Identifiers Identity User_Library Media_Fetch Predictive Rate_Limit Route_Props Kuramanime_Props Otakudesu_Props Prewarm Api_Types Aws Library_Flow
begin

text \<open>
  A verification development of the ZeroNime backend, a Go service that scrapes anime sites,
  serves a catalog, resolves episodes into streams and proxies media with a cache of the first
  and last bytes of every file.

  The program and its parts. A request passes the middleware and the route table
  (\<open>internal/httpserver/routes.go\<close>, \<open>middleware.go\<close>, \<open>rate_counter.go\<close>) and reaches a handler
  (\<open>public_handlers.go\<close>, \<open>library_handlers.go\<close>, \<open>predictive_handlers.go\<close>). A handler turns public
  identifiers into internal ones (\<open>service/identifiers\<close>) and calls a service: the catalog, the
  streams, the library of a client, or the identity of a client. The services share one cache
  in memory (\<open>internal/cache\<close>) and one database (\<open>store/postgres\<close>) and call the active
  provider (\<open>provider/kuramanime\<close> or \<open>provider/otakudesu\<close>). The media route answers from the
  predictive cache, then from the startup cache (\<open>internal/mediacache\<close>), whose bytes are in a
  directory, a bucket, or both, and then from the origin through the media fetcher and
  the media proxy. Two commands fill and empty the startup cache.

  How the code is rendered. A struct is a record with the fields of the struct. A method that
  reads the clock, a table, a cache, a file or the network is a computation in the state monad
  over a world \<open>'w\<close> (theory World): \<open>result m w\<close> is its value and \<open>after m w\<close> the world it leaves.
  Functions that return an error have a sum type, with the error on the left; a second boolean
  result is an option. Slices out of bounds are \<open>None\<close>, and a handler that panics is a crash.
  Machine integers are integers that wrap around at 64 bits (\<open>i64\<close>), or words. Strings are
  lists of bytes. A loop is a recursion over what it consumes; otherwise it has fuel or is
  a partial function into option.

  What lies outside the repository is a parameter. The database mapper gorm is a record of
  operations for each table, with its laws in the locale \<open>gorm_table\<close>; the cache package in
  \<open>ttl_store\<close>; files in \<open>file_system\<close>; the bucket in \<open>s3_objects\<close> and its listing in
  \<open>object_pages\<close>; the HTML parser with its selectors in the record \<open>html\<close>; the matching of paths
  by the web framework in \<open>path_matching\<close>. HTTP clients, the clock, random bytes, calls of
  singleflight, the browser, unstable sorting (\<open>slice_sort\<close>) and the order of iteration over a
  map are parameters too. The locales on the providers' side give one another by sublocale: a
  file system, a bucket and a pair of tiers are each a \<open>blob_map\<close>, and every table with a key is
  a \<open>keyed_table\<close>, the startup table also a \<open>metadata_map\<close>. Every locale is interpreted, and the
  witnesses run the code's model on these reference instances.

  Theories, in the order of their imports.
  \<^item> Prelude, Go_Strings, Go_Url, Go_Sort, Go_Time, Go_Float, Go_Sha1, Go_Regexp: what the code
    uses of Go and its library, executable, with the lemmas the components share. Go_Regexp gives
    the leftmost match that backtracking finds first.
  \<^item> Domain: the data of \<open>internal/domain/models.go\<close> and qualified identifiers.
  \<^item> World, Mem_Cache: computations, HTTP data, the cache in memory.
  \<^item> Stream: \<open>internal/service/stream\<close>. Expiry of signed URLs, choice of the preferred stream,
    and resolving through memory, database and provider: what is returned is never expired,
    and a refresh is found again.
  \<^item> Blob_Stores, Media_Cache, Media_Props: the stores of \<open>internal/mediacache\<close> as maps and the startup cache over any
    such map: what is served from it is what the origin would send, and a prewarmed start is a hit.
  \<^item> Postgres, Postgres_Props, Store_Props, Ref_Db: every query of the store over the laws of a
    table; lookups after writes, no duplicates, the refinement of maps, and the race of two writers.
  \<^item> Provider, Catalog, Catalog_Props: the interface of a provider, the registry, and the catalog
    service with normalisation and completion of details.
  \<^item> Identifiers, Identity, User_Library: the services of the same names; public identifiers lead
    back, tokens stay, and what to continue watching is complete.
  \<^item> Proxies, Media_Fetch, Predictive: host lists and headers; coalescing of small ranges; the
    predictive cache as one goroutine and as interleaved steps of several clients (\<open>pstep\<close>), with
    an invariant and the one race that breaks the promise.
  \<^item> Rate_Limit, Handlers, Media_Route, Client_Routes, Route_Props: every handler over a record of
    what it asks the request for.
  \<^item> Library_Flow: a title that a client saves is on its watchlist, through handlers, identifiers,
    service and store.
  \<^item> Html, Kuramanime_Text, Kuramanime_Episodes, Kuramanime, Kuramanime_Props and Otakudesu,
    Otakudesu_Props: the scrapers over an abstract document. Pages are fetched once, episodes are
    collected completely, and the workers for release dates commute.
  \<^item> Config, Aws, Server_Setup: the environment, the adapter to the AWS SDK with the purge command, and
    \<open>Run\<close> of \<open>server.go\<close> up to listening, over one record of everything imported (\<open>platform\<close>).
  \<^item> Prewarm: the command \<open>cmd/prewarm-startup\<close> with its pool of workers as a step relation.
  \<^item> Routes, Api_Types: the route table, the walk of a request through it with limit, client
    check and log, and the type of the answer of every endpoint.

  Bounds and fuel. The code itself stops after 24 further pages of episodes and 60 pages of the
  index; both bounds are in the model. \<open>ParseDuration\<close>, replacing and trimming have the length
  of their text as fuel, of which every round consumes a byte. Rounding to 53 bits has 11 or
  64 rounds as fuel, for numbers of 64 and 117 bits. A run of the pool takes at most two steps for
  an episode, one for a worker and one to close the channel. The loop of the purge command has no
  bound of its own and is a partial function; it ends because the listing does.

  Not modelled. Listening, the encoding of JSON, cookies as bytes and the matching of
  paths belong to the web framework. Contexts and timeouts appear as errors of what is called. The
  goroutine that expires cached values is covered by the laws of the cache, which let a
  value vanish at any time. The text of log lines, the flags of the commands and what they print
  beyond the result are left out, as are the settings of transports and connection pools.
  \<open>absoluteURL\<close> and \<open>animeTitleSlug\<close> have no caller. A map or slice in the cache that
  concurrent requests share is a value here. A URL whose host is an IPv6 literal in brackets counts
  as one that does not parse, and the interleaved steps of the predictive cache leave out the
  blobs. There is no entry point that calls \<open>Run\<close>: the
  package \<open>cmd/server\<close> is not in the repository.
\<close>

end
